theory Spec2Isabelle
  imports Complex_Main "HOL-Library.Word"
begin

section \<open>Single-precision values\<close>

text \<open>
  The limiter of \<^verbatim>\<open>plugins/obs-filters/limiter-v2-filter.c\<close> computes on C \<^verbatim>\<open>float\<close>
  values and tests them with \<^verbatim>\<open>isfinite\<close>.  A \<^verbatim>\<open>float\<close> is modelled as an extended
  real: a finite value is an exact real number, and the two infinities and NaN are values
  of their own, combined as IEEE 754 combines them.  Rounding, overflow of a finite
  operation to an infinity and the sign of zero are not modelled: arithmetic on finite
  values is exact.
\<close>

datatype cfloat = Num real | PosInf | NegInf | NaN

fun isfinite :: "cfloat \<Rightarrow> bool" where
  "isfinite (Num _) = True"
| "isfinite _ = False"

fun f_neg :: "cfloat \<Rightarrow> cfloat" where
  "f_neg (Num a) = Num (- a)"
| "f_neg PosInf = NegInf"
| "f_neg NegInf = PosInf"
| "f_neg NaN = NaN"

fun f_add :: "cfloat \<Rightarrow> cfloat \<Rightarrow> cfloat" where
  "f_add (Num a) (Num b) = Num (a + b)"
| "f_add NaN _ = NaN"
| "f_add _ NaN = NaN"
| "f_add PosInf NegInf = NaN"
| "f_add NegInf PosInf = NaN"
| "f_add PosInf _ = PosInf"
| "f_add _ PosInf = PosInf"
| "f_add NegInf _ = NegInf"
| "f_add _ NegInf = NegInf"

definition f_sub :: "cfloat \<Rightarrow> cfloat \<Rightarrow> cfloat" where
  "f_sub a b = f_add a (f_neg b)"

fun f_mul :: "cfloat \<Rightarrow> cfloat \<Rightarrow> cfloat" where
  "f_mul (Num a) (Num b) = Num (a * b)"
| "f_mul NaN _ = NaN"
| "f_mul _ NaN = NaN"
| "f_mul (Num a) PosInf = (if a = 0 then NaN else if 0 < a then PosInf else NegInf)"
| "f_mul (Num a) NegInf = (if a = 0 then NaN else if 0 < a then NegInf else PosInf)"
| "f_mul PosInf (Num b) = (if b = 0 then NaN else if 0 < b then PosInf else NegInf)"
| "f_mul NegInf (Num b) = (if b = 0 then NaN else if 0 < b then NegInf else PosInf)"
| "f_mul PosInf PosInf = PosInf"
| "f_mul PosInf NegInf = NegInf"
| "f_mul NegInf PosInf = NegInf"
| "f_mul NegInf NegInf = PosInf"

text \<open>Division: a zero divisor counts as positive zero.\<close>

fun f_div :: "cfloat \<Rightarrow> cfloat \<Rightarrow> cfloat" where
  "f_div (Num a) (Num b) =
     (if b = 0 then (if a = 0 then NaN else if 0 < a then PosInf else NegInf)
      else Num (a / b))"
| "f_div NaN _ = NaN"
| "f_div _ NaN = NaN"
| "f_div (Num a) PosInf = Num 0"
| "f_div (Num a) NegInf = Num 0"
| "f_div PosInf (Num b) = (if 0 \<le> b then PosInf else NegInf)"
| "f_div NegInf (Num b) = (if 0 \<le> b then NegInf else PosInf)"
| "f_div PosInf PosInf = NaN"
| "f_div PosInf NegInf = NaN"
| "f_div NegInf PosInf = NaN"
| "f_div NegInf NegInf = NaN"

text \<open>The comparisons \<^verbatim>\<open><\<close>, \<^verbatim>\<open><=\<close>, \<^verbatim>\<open>>\<close> and \<^verbatim>\<open>!=\<close>: every ordered comparison with NaN is
  false, and NaN differs from everything.\<close>

fun f_lt :: "cfloat \<Rightarrow> cfloat \<Rightarrow> bool" where
  "f_lt (Num a) (Num b) = (a < b)"
| "f_lt NaN _ = False"
| "f_lt _ NaN = False"
| "f_lt PosInf _ = False"
| "f_lt _ NegInf = False"
| "f_lt NegInf _ = True"
| "f_lt _ PosInf = True"

fun f_le :: "cfloat \<Rightarrow> cfloat \<Rightarrow> bool" where
  "f_le (Num a) (Num b) = (a \<le> b)"
| "f_le NaN _ = False"
| "f_le _ NaN = False"
| "f_le NegInf _ = True"
| "f_le _ PosInf = True"
| "f_le PosInf _ = False"
| "f_le _ NegInf = False"

definition f_gt :: "cfloat \<Rightarrow> cfloat \<Rightarrow> bool" where
  "f_gt a b = f_lt b a"

definition f_ge :: "cfloat \<Rightarrow> cfloat \<Rightarrow> bool" where
  "f_ge a b = f_le b a"

definition f_ne :: "cfloat \<Rightarrow> cfloat \<Rightarrow> bool" where
  "f_ne a b = (case (a, b) of (NaN, _) \<Rightarrow> True | (_, NaN) \<Rightarrow> True | _ \<Rightarrow> a \<noteq> b)"

fun fabsf :: "cfloat \<Rightarrow> cfloat" where
  "fabsf (Num a) = Num \<bar>a\<bar>"
| "fabsf PosInf = PosInf"
| "fabsf NegInf = PosInf"
| "fabsf NaN = NaN"

text \<open>C's \<^verbatim>\<open>fmaxf\<close> and \<^verbatim>\<open>fminf\<close> return the other argument when one is NaN.\<close>

definition fmaxf :: "cfloat \<Rightarrow> cfloat \<Rightarrow> cfloat" where
  "fmaxf a b = (if a = NaN then b else if b = NaN then a else if f_lt a b then b else a)"

definition fminf :: "cfloat \<Rightarrow> cfloat \<Rightarrow> cfloat" where
  "fminf a b = (if a = NaN then b else if b = NaN then a else if f_lt b a then b else a)"

fun f_exp :: "cfloat \<Rightarrow> cfloat" where
  "f_exp (Num a) = Num (exp a)"
| "f_exp PosInf = PosInf"
| "f_exp NegInf = Num 0"
| "f_exp NaN = NaN"

text \<open>Conversion of a \<^verbatim>\<open>uint32_t\<close> and of a \<^verbatim>\<open>size_t\<close> (a natural number) to \<^verbatim>\<open>float\<close>, and
  the cast \<^verbatim>\<open>(size_t)x\<close> of a \<^verbatim>\<open>float\<close>, which truncates; the cast is undefined in C for a
  negative or non-finite value, where the model gives 0.\<close>

definition of_u32 :: "32 word \<Rightarrow> cfloat" where
  "of_u32 w = Num (real (unat w))"

definition of_size :: "nat \<Rightarrow> cfloat" where
  "of_size n = Num (real n)"

fun to_size :: "cfloat \<Rightarrow> nat" where
  "to_size (Num a) = nat \<lfloor>a\<rfloor>"
| "to_size _ = 0"

text \<open>
  Modelled from the spec: \<^verbatim>\<open>mul_to_db\<close> and \<^verbatim>\<open>db_to_mul\<close> of \<^verbatim>\<open>media-io/audio-math.h\<close>, which
  is not among the sources.  The spec converts a linear level to decibels and back
  (\<^verbatim>\<open>10^(T/20)\<close>); a level of zero is minus infinity decibels, and a non-finite decibel
  value converts to the multiplier 0.
\<close>

fun mul_to_db :: "cfloat \<Rightarrow> cfloat" where
  "mul_to_db (Num a) =
     (if a = 0 then NegInf else if a < 0 then NaN else Num (20 * log 10 a))"
| "mul_to_db PosInf = PosInf"
| "mul_to_db NegInf = NaN"
| "mul_to_db NaN = NaN"

fun db_to_mul :: "cfloat \<Rightarrow> cfloat" where
  "db_to_mul (Num d) = Num (10 powr (d / 20))"
| "db_to_mul _ = Num 0"

section \<open>Constants\<close>

definition MS_IN_S_F :: cfloat where "MS_IN_S_F = Num 1000"
definition SMALL_EPSILON :: cfloat where "SMALL_EPSILON = Num (1 / 10 ^ 10)"
definition NUM_ENV_HISTORY :: nat where "NUM_ENV_HISTORY = 3"
definition TP_OVERSAMPLE_FACTOR :: nat where "TP_OVERSAMPLE_FACTOR = 4"
definition MAX_AUDIO_CHANNELS :: nat where "MAX_AUDIO_CHANNELS = 8"
definition INITIAL_ENV_BUF_MS :: nat where "INITIAL_ENV_BUF_MS = 20"
definition FIXED_ATTACK_TIME_MS :: cfloat where "FIXED_ATTACK_TIME_MS = Num 1"
definition MIN_RELEASE_MS :: cfloat where "MIN_RELEASE_MS = Num 1"
definition MAX_RELEASE_MS :: cfloat where "MAX_RELEASE_MS = Num 1000"
definition MIN_LOOKAHEAD_MS :: cfloat where "MIN_LOOKAHEAD_MS = Num (1 / 10)"
definition MAX_LOOKAHEAD_MS :: cfloat where "MAX_LOOKAHEAD_MS = Num 20"
definition ADAPT_SENSITIVITY_THRESHOLD :: cfloat where "ADAPT_SENSITIVITY_THRESHOLD = Num (5 / 100)"
definition ADAPT_SPEED_FACTOR :: cfloat where "ADAPT_SPEED_FACTOR = Num 15"
definition ADAPT_MAX_SPEEDUP_FACTOR :: cfloat where "ADAPT_MAX_SPEEDUP_FACTOR = Num 3"
definition MIN_FAST_RELEASE_MS :: cfloat where "MIN_FAST_RELEASE_MS = Num 1"

section \<open>Helper functions\<close>

text \<open>\<^verbatim>\<open>gain_coefficient\<close>: the one-pole coefficient of a time constant in milliseconds.\<close>

definition gain_coefficient :: "32 word \<Rightarrow> cfloat \<Rightarrow> cfloat" where
  "gain_coefficient sample_rate time_ms =
     (if sample_rate = 0 \<or> f_le time_ms (Num 0) then Num 0
      else let time_sec = f_div time_ms MS_IN_S_F
           in f_exp (f_div (Num (- 1)) (f_add (f_mul (of_u32 sample_rate) time_sec) SMALL_EPSILON)))"

text \<open>\<^verbatim>\<open>get_inter_sample_peak_estimate\<close>: the loop runs \<^verbatim>\<open>j\<close> from 1 to
  \<^verbatim>\<open>TP_OVERSAMPLE_FACTOR - 1\<close>.\<close>

definition interp_step :: "cfloat \<Rightarrow> cfloat \<Rightarrow> nat \<Rightarrow> cfloat \<Rightarrow> cfloat" where
  "interp_step current_sample next_sample j max_abs_val =
     (let t = f_div (Num (real j)) (Num (real TP_OVERSAMPLE_FACTOR));
          interpolated_sample =
            f_add (f_mul (f_sub (Num 1) t) current_sample) (f_mul t next_sample)
      in if isfinite interpolated_sample then fmaxf max_abs_val (fabsf interpolated_sample)
         else max_abs_val)"

definition get_inter_sample_peak_estimate :: "cfloat \<Rightarrow> cfloat \<Rightarrow> cfloat" where
  "get_inter_sample_peak_estimate current_sample next_sample =
     (if \<not> isfinite current_sample \<or> \<not> isfinite next_sample then Num 0
      else fold (interp_step current_sample next_sample) [1..<TP_OVERSAMPLE_FACTOR]
             (fmaxf (fabsf current_sample) (fabsf next_sample)))"


section \<open>Data model\<close>

text \<open>
  Modelled from the spec: \<^verbatim>\<open>struct circlebuf\<close> of \<^verbatim>\<open>util/circlebuf.h\<close>, which is not among
  the sources.  The spec's delay line is a ring with push-back and pop-front operations: the
  model keeps the queued samples, front first, and the capacity in bytes.  The size in
  bytes is four times the number of queued samples.  Reserving capacity can fail (the
  source tests the capacity afterwards); the outcome of the allocation is an argument.
\<close>

record circlebuf =
  cb_data :: "cfloat list"
  cb_capacity :: nat

definition circlebuf_zero :: circlebuf where
  "circlebuf_zero = \<lparr>cb_data = [], cb_capacity = 0\<rparr>"

definition circlebuf_free :: "circlebuf \<Rightarrow> circlebuf" where
  "circlebuf_free cb = circlebuf_zero"

definition circlebuf_reserve :: "bool \<Rightarrow> circlebuf \<Rightarrow> nat \<Rightarrow> circlebuf" where
  "circlebuf_reserve ok cb capacity =
     (if capacity \<le> cb_capacity cb then cb
      else if ok then cb\<lparr>cb_capacity := capacity\<rparr> else cb)"

definition circlebuf_push_back :: "circlebuf \<Rightarrow> cfloat list \<Rightarrow> circlebuf" where
  "circlebuf_push_back cb xs =
     \<lparr>cb_data = cb_data cb @ xs,
      cb_capacity = max (cb_capacity cb) (4 * length (cb_data cb @ xs))\<rparr>"

definition circlebuf_pop_front :: "circlebuf \<Rightarrow> nat \<Rightarrow> cfloat list \<times> circlebuf" where
  "circlebuf_pop_front cb n = (take n (cb_data cb), cb\<lparr>cb_data := drop n (cb_data cb)\<rparr>)"

text \<open>
  \<^verbatim>\<open>struct limiter_v2_data\<close>.  The envelope buffer is a list: the empty list is the NULL
  pointer and \<^verbatim>\<open>envelope_buf_len\<close> is its length.  The two fixed-size arrays are lists
  (of \<^verbatim>\<open>MAX_AUDIO_CHANNELS\<close> ring buffers and of \<^verbatim>\<open>NUM_ENV_HISTORY\<close> values).  A \<^verbatim>\<open>size_t\<close>
  is a natural number.  The \<^verbatim>\<open>context\<close> pointer only serves logging and is left out.
\<close>

record limiter_v2_data =
  threshold_db :: cfloat
  release_time_ms :: cfloat
  output_gain_db :: cfloat
  adaptive_release_enabled :: bool
  lookahead_enabled :: bool
  lookahead_time_ms :: cfloat
  true_peak_enabled :: bool
  attack_coeff :: cfloat
  release_coeff :: cfloat
  output_gain :: cfloat
  envelope_buf :: "cfloat list"
  envelope :: cfloat
  lookahead_circbuf :: "circlebuf list"
  lookahead_samples :: nat
  lookahead_buffers_initialized :: bool
  prev_env_vals :: "cfloat list"
  prev_env_pos :: "32 word"
  sample_rate :: "32 word"
  num_channels :: nat

text \<open>
  \<^verbatim>\<open>struct obs_audio_data\<close>: one plane of samples per channel, \<^verbatim>\<open>None\<close> for a NULL plane,
  and the number of frames.  \<^verbatim>\<open>plane samples c\<close> is \<^verbatim>\<open>samples[c]\<close>.
\<close>

record obs_audio_data =
  data :: "cfloat list option list"
  frames :: nat

definition plane :: "cfloat list option list \<Rightarrow> nat \<Rightarrow> cfloat list option" where
  "plane samples c = (if c < length samples then samples ! c else None)"

text \<open>
  Modelled from the spec: the settings object (\<^verbatim>\<open>obs_data_t\<close>, read with
  \<^verbatim>\<open>obs_data_get_double\<close> and \<^verbatim>\<open>obs_data_get_bool\<close> of libobs, not among the sources) is a
  record of the seven configuration values as the getters return them.
\<close>

record obs_settings =
  s_threshold :: cfloat
  s_release_time :: cfloat
  s_output_gain :: cfloat
  s_adaptive_release_enabled :: bool
  s_true_peak_enabled :: bool
  s_lookahead_enabled :: bool
  s_lookahead_time_ms :: cfloat

text \<open>
  Modelled from the spec: the allocator (\<^verbatim>\<open>brealloc\<close>, \<^verbatim>\<open>bzalloc\<close> of \<^verbatim>\<open>util/bmem.h\<close> and the
  allocation inside \<^verbatim>\<open>circlebuf_reserve\<close>, not among the sources).  The spec lets an
  allocation fail; whether each request of a call succeeds is an input of the call.
\<close>

record alloc_outcome =
  realloc_ok :: bool
  zero_block_ok :: bool
  reserve_ok :: "nat \<Rightarrow> bool"

section \<open>Envelope analysis\<close>

text \<open>\<^verbatim>\<open>calculate_env_change_rate\<close>.  The divisor
  \<^verbatim>\<open>(float)(NUM_ENV_HISTORY - 1 + SMALL_EPSILON)\<close> is a constant expression whose
  single-precision value is exactly 2.\<close>

definition env_change_step :: "limiter_v2_data \<Rightarrow> nat \<Rightarrow> cfloat \<Rightarrow> cfloat" where
  "env_change_step cd i change_sum =
     (let idx = unat ((prev_env_pos cd + of_nat i) mod 3);
          next_idx = unat ((prev_env_pos cd + of_nat i + 1) mod 3)
      in f_add change_sum
           (fabsf (f_sub (prev_env_vals cd ! next_idx) (prev_env_vals cd ! idx))))"

definition calculate_env_change_rate :: "limiter_v2_data \<Rightarrow> cfloat" where
  "calculate_env_change_rate cd =
     f_div (fold (env_change_step cd) [0..<NUM_ENV_HISTORY - 1] (Num 0)) (Num 2)"

text \<open>\<^verbatim>\<open>ensure_env_buffer\<close>.  The entries that \<^verbatim>\<open>brealloc\<close> adds are written before they are
  read; the model fills them with 0.\<close>

definition ensure_env_buffer :: "bool \<Rightarrow> limiter_v2_data \<Rightarrow> nat \<Rightarrow> limiter_v2_data \<times> bool" where
  "ensure_env_buffer ok cd num_samples =
     (if length (envelope_buf cd) < num_samples then
        (if \<not> ok then (cd\<lparr>envelope_buf := []\<rparr>, False)
         else (cd\<lparr>envelope_buf :=
                     envelope_buf cd @ replicate (num_samples - length (envelope_buf cd)) (Num 0)\<rparr>,
               True))
      else (cd, envelope_buf cd \<noteq> []))"

text \<open>The body of the inner loop of \<^verbatim>\<open>analyze_envelope\<close>, in its three steps: the
  instantaneous level of sample \<^verbatim>\<open>i\<close>, the release coefficient, and the smoothing.\<close>

definition input_env_at :: "limiter_v2_data \<Rightarrow> cfloat list \<Rightarrow> nat \<Rightarrow> nat \<Rightarrow> cfloat" where
  "input_env_at cd xs num_samples i =
     (let input_env =
            (if true_peak_enabled cd \<and> i < num_samples - 1
             then get_inter_sample_peak_estimate (xs ! i) (xs ! (i + 1))
             else fabsf (xs ! i))
      in if \<not> isfinite input_env then Num 0 else input_env)"

definition current_release_coeff :: "limiter_v2_data \<Rightarrow> cfloat" where
  "current_release_coeff cd =
     (if adaptive_release_enabled cd then
        (let env_change_rate = calculate_env_change_rate cd
         in if f_gt env_change_rate ADAPT_SENSITIVITY_THRESHOLD then
              (let release_factor =
                     fmaxf (Num 1)
                       (fminf ADAPT_MAX_SPEEDUP_FACTOR (f_mul env_change_rate ADAPT_SPEED_FACTOR));
                   fast_release_time_ms = f_div (release_time_ms cd) release_factor;
                   fast_release_time_ms' = fmaxf fast_release_time_ms MIN_FAST_RELEASE_MS
               in gain_coefficient (sample_rate cd) fast_release_time_ms')
            else release_coeff cd)
      else release_coeff cd)"

definition smooth_step :: "limiter_v2_data \<Rightarrow> cfloat \<Rightarrow> cfloat \<Rightarrow> cfloat" where
  "smooth_step cd input_env current_env =
     (let current_env' =
            (if f_lt current_env input_env
             then f_add input_env (f_mul (attack_coeff cd) (f_sub current_env input_env))
             else f_add input_env (f_mul (current_release_coeff cd) (f_sub current_env input_env)))
      in if \<not> isfinite current_env' \<or> f_lt current_env' SMALL_EPSILON then Num 0
         else current_env')"

definition env_sample ::
  "limiter_v2_data \<Rightarrow> cfloat list \<Rightarrow> nat \<Rightarrow> nat \<Rightarrow> cfloat \<times> cfloat list \<Rightarrow> cfloat \<times> cfloat list" where
  "env_sample cd xs num_samples i st =
     (let current_env = smooth_step cd (input_env_at cd xs num_samples i) (fst st)
      in (current_env, (snd st)[i := fmaxf (snd st ! i) current_env]))"

definition env_channel ::
  "limiter_v2_data \<Rightarrow> cfloat list option list \<Rightarrow> nat \<Rightarrow> nat \<Rightarrow> cfloat list \<Rightarrow> cfloat list" where
  "env_channel cd samples num_samples chan buf =
     (if chan \<ge> MAX_AUDIO_CHANNELS then buf
      else case plane samples chan of
             None \<Rightarrow> buf
           | Some xs \<Rightarrow> snd (fold (env_sample cd xs num_samples) [0..<num_samples] (envelope cd, buf)))"

text \<open>\<^verbatim>\<open>analyze_envelope\<close>: the channels are processed in turn, each starting from the stored
  envelope; the buffer keeps the maximum over the channels.\<close>

definition analyze_envelope ::
  "bool \<Rightarrow> limiter_v2_data \<Rightarrow> cfloat list option list \<Rightarrow> nat \<Rightarrow> limiter_v2_data" where
  "analyze_envelope ok cd samples num_samples =
     (if num_samples = 0 then cd
      else case ensure_env_buffer ok cd num_samples of
        (cd1, False) \<Rightarrow> cd1
      | (cd1, True) \<Rightarrow>
          (let zeroed = replicate num_samples (Num 0) @ drop num_samples (envelope_buf cd1);
               buf = fold (env_channel cd1 samples num_samples) [0..<num_channels cd1] zeroed;
               last_env = buf ! (num_samples - 1);
               env = (if \<not> isfinite last_env then Num 0 else last_env);
               pos = (prev_env_pos cd1 + 1) mod 3
           in cd1\<lparr>envelope_buf := buf, envelope := env, prev_env_pos := pos,
                  prev_env_vals := (prev_env_vals cd1)[unat pos := env]\<rparr>))"

section \<open>Gain computation\<close>

text \<open>The body of the outer loop of \<^verbatim>\<open>process_compression\<close>: the gain-reduction
  multiplier of an envelope value, the final gain, and its application to the sample of
  channel \<^verbatim>\<open>c\<close> at index \<^verbatim>\<open>i\<close>.\<close>

definition gain_reduction_multiplier :: "limiter_v2_data \<Rightarrow> cfloat \<Rightarrow> cfloat" where
  "gain_reduction_multiplier cd env_lin =
     (if f_gt env_lin SMALL_EPSILON then
        (let env_db = mul_to_db env_lin
         in if isfinite env_db \<and> f_gt env_db (threshold_db cd) then
              (let gain_reduction_db = f_sub (threshold_db cd) env_db;
                   m = db_to_mul (fminf (Num 0) gain_reduction_db)
               in if \<not> isfinite m then Num 0 else m)
            else Num 1)
      else Num 1)"

definition final_gain :: "limiter_v2_data \<Rightarrow> cfloat \<Rightarrow> cfloat" where
  "final_gain cd env_lin =
     (let g = f_mul (gain_reduction_multiplier cd env_lin) (output_gain cd)
      in if \<not> isfinite g then Num 0 else g)"

definition apply_gain ::
  "cfloat \<Rightarrow> nat \<Rightarrow> nat \<Rightarrow> cfloat list option list \<Rightarrow> cfloat list option list" where
  "apply_gain g i c samples =
     (if c < MAX_AUDIO_CHANNELS then
        (case plane samples c of
           None \<Rightarrow> samples
         | Some xs \<Rightarrow>
             (if isfinite (xs ! i) then samples[c := Some (xs[i := f_mul (xs ! i) g])]
              else samples[c := Some (xs[i := Num 0])]))
      else samples)"

definition compress_sample ::
  "limiter_v2_data \<Rightarrow> nat \<Rightarrow> cfloat list option list \<Rightarrow> cfloat list option list" where
  "compress_sample cd i samples =
     fold (apply_gain (final_gain cd (envelope_buf cd ! i)) i) [0..<num_channels cd] samples"

definition process_compression ::
  "limiter_v2_data \<Rightarrow> cfloat list option list \<Rightarrow> nat \<Rightarrow> cfloat list option list" where
  "process_compression cd samples num_samples =
     (if num_samples = 0 then samples
      else if envelope_buf cd = [] \<or> length (envelope_buf cd) < num_samples then samples
      else fold (compress_sample cd) [0..<num_samples] samples)"

section \<open>Lookahead delay line\<close>

text \<open>\<^verbatim>\<open>update_lookahead_buffers\<close>.  The loop over the channels stops at the first failure;
  the flag of the fold state is the source's \<^verbatim>\<open>success\<close>.\<close>

definition free_lookahead :: "limiter_v2_data \<Rightarrow> circlebuf list" where
  "free_lookahead cd =
     fold (\<lambda>i cbs. if i < MAX_AUDIO_CHANNELS then cbs[i := circlebuf_free (cbs ! i)] else cbs)
       [0..<num_channels cd] (lookahead_circbuf cd)"

definition init_lookahead_channel ::
  "alloc_outcome \<Rightarrow> nat \<Rightarrow> nat \<Rightarrow> nat \<Rightarrow> bool \<times> circlebuf list \<Rightarrow> bool \<times> circlebuf list" where
  "init_lookahead_channel al required_capacity_bytes zeros i st =
     (if \<not> fst st then st
      else if i \<ge> MAX_AUDIO_CHANNELS then (False, snd st)
      else
        (let cb = circlebuf_reserve (reserve_ok al i) circlebuf_zero required_capacity_bytes
         in if cb_capacity cb < required_capacity_bytes
            then (False, (snd st)[i := circlebuf_free cb])
            else (True, (snd st)[i := (if 0 < zeros
                                       then circlebuf_push_back cb (replicate zeros (Num 0))
                                       else cb)])))"

definition update_lookahead_buffers ::
  "alloc_outcome \<Rightarrow> limiter_v2_data \<Rightarrow> limiter_v2_data \<times> bool" where
  "update_lookahead_buffers al cd =
     (let cd1 = (if lookahead_buffers_initialized cd
                 then cd\<lparr>lookahead_circbuf := free_lookahead cd,
                         lookahead_buffers_initialized := False\<rparr>
                 else cd)
      in if \<not> lookahead_enabled cd1 \<or> lookahead_samples cd1 = 0 \<or> num_channels cd1 = 0
         then (cd1, True)
         else
           (let estimate =
                  to_size (f_add (f_div (of_u32 (sample_rate cd1 * of_nat INITIAL_ENV_BUF_MS)) MS_IN_S_F)
                             (Num 1));
                block_estimate = (if estimate = 0 then 1024 else estimate);
                required_capacity_samples = lookahead_samples cd1 + block_estimate;
                required_capacity_bytes = required_capacity_samples * 4;
                init_zeros_size_bytes = lookahead_samples cd1 * 4
            in if 0 < init_zeros_size_bytes \<and> \<not> zero_block_ok al then (cd1, False)
               else
                 (let r = fold (init_lookahead_channel al required_capacity_bytes
                                  (lookahead_samples cd1))
                            [0..<num_channels cd1] (True, lookahead_circbuf cd1);
                      cd2 = cd1\<lparr>lookahead_circbuf := snd r\<rparr>
                  in if \<not> fst r
                     then (cd2\<lparr>lookahead_circbuf := free_lookahead cd2,
                               lookahead_buffers_initialized := False\<rparr>, False)
                     else (cd2\<lparr>lookahead_buffers_initialized := True\<rparr>, True))))"

text \<open>The delay step of \<^verbatim>\<open>limiter_v2_filter_audio\<close> for one channel: push the block, pop as
  many samples.  The flag of the fold state is \<^verbatim>\<open>lookahead_active\<close>, cleared by the
  \<^verbatim>\<open>break\<close>.\<close>

definition delay_channel ::
  "nat \<Rightarrow> nat \<Rightarrow> bool \<times> circlebuf list \<times> cfloat list option list
     \<Rightarrow> bool \<times> circlebuf list \<times> cfloat list option list" where
  "delay_channel num_samples c st =
     (case st of (active, cbs, samples) \<Rightarrow>
        if \<not> active then st
        else if c \<ge> MAX_AUDIO_CHANNELS then st
        else case plane samples c of
               None \<Rightarrow> st
             | Some xs \<Rightarrow>
                 (if cb_data (cbs ! c) = [] \<and> cb_capacity (cbs ! c) = 0
                  then (False, cbs, samples)
                  else
                    (let pushed = circlebuf_push_back (cbs ! c) (take num_samples xs);
                         popped = circlebuf_pop_front pushed num_samples
                     in (True, cbs[c := snd popped],
                         samples[c := Some (fst popped @ drop num_samples xs)]))))"

text \<open>The delay step for all channels: step 2 of \<^verbatim>\<open>limiter_v2_filter_audio\<close>, run when
  lookahead is active.  It returns the ring buffers and the samples.\<close>

definition apply_lookahead ::
  "bool \<Rightarrow> limiter_v2_data \<Rightarrow> cfloat list option list \<Rightarrow> nat
     \<Rightarrow> circlebuf list \<times> cfloat list option list" where
  "apply_lookahead lookahead_active cd samples num_samples =
     (if lookahead_active
      then snd (fold (delay_channel num_samples) [0..<num_channels cd]
                  (True, lookahead_circbuf cd, samples))
      else (lookahead_circbuf cd, samples))"

section \<open>The filter's callbacks\<close>

text \<open>
  \<^verbatim>\<open>limiter_v2_update\<close> is modelled in the order of its statements, one definition per
  step.  The sample rate and the channel count of the audio output are arguments, and the
  result is the new state and the latency reported to the host with
  \<^verbatim>\<open>obs_source_set_audio_latency\<close>.

  Lines 813 to 839, the audio format: the channel count is clamped to
  \<^verbatim>\<open>MAX_AUDIO_CHANNELS\<close>, a sample rate of 0 becomes 48000, and a change of format resets
  the envelope and its history.  The flag returned is \<^verbatim>\<open>reset_lookahead\<close>.
\<close>

definition update_format :: "32 word \<Rightarrow> nat \<Rightarrow> limiter_v2_data \<Rightarrow> limiter_v2_data \<times> bool" where
  "update_format audio_sample_rate audio_channels cd =
     (let num_channels' = (if audio_channels > MAX_AUDIO_CHANNELS then MAX_AUDIO_CHANNELS
                           else audio_channels);
          current_sample_rate =
            (if (num_channels' = 0 \<or> audio_sample_rate = 0) \<and> audio_sample_rate = 0
             then 48000 else audio_sample_rate)
      in if sample_rate cd \<noteq> current_sample_rate \<or> num_channels cd \<noteq> num_channels'
         then (cd\<lparr>sample_rate := current_sample_rate, num_channels := num_channels',
                  envelope := Num 0,
                  prev_env_vals := replicate NUM_ENV_HISTORY (Num 0),
                  prev_env_pos := 0\<rparr>, True)
         else (cd, False))"

text \<open>Lines 841 to 862, the settings: threshold, release time and output gain are stored
  as read; the lookahead time is clamped.  The flag returned tells whether the lookahead
  parameters changed.\<close>

definition update_settings :: "obs_settings \<Rightarrow> limiter_v2_data \<Rightarrow> limiter_v2_data \<times> bool" where
  "update_settings s cd =
     (let cd' = cd\<lparr>threshold_db := s_threshold s,
                   release_time_ms := s_release_time s,
                   output_gain_db := s_output_gain s,
                   adaptive_release_enabled := s_adaptive_release_enabled s,
                   true_peak_enabled := s_true_peak_enabled s\<rparr>;
          new_lookahead_enabled = s_lookahead_enabled s;
          clamped = fmaxf (Num 0) (fminf MAX_LOOKAHEAD_MS (s_lookahead_time_ms s));
          new_lookahead_time_ms =
            (if new_lookahead_enabled \<and> f_lt clamped MIN_LOOKAHEAD_MS then MIN_LOOKAHEAD_MS
             else if \<not> new_lookahead_enabled then Num 0
             else clamped)
      in if new_lookahead_enabled \<noteq> lookahead_enabled cd'
            \<or> f_ne new_lookahead_time_ms (lookahead_time_ms cd')
         then (cd'\<lparr>lookahead_enabled := new_lookahead_enabled,
                   lookahead_time_ms := new_lookahead_time_ms\<rparr>, True)
         else (cd', False))"

text \<open>Lines 864 to 867, the coefficients; the release time is clamped here.\<close>

definition update_coefficients :: "limiter_v2_data \<Rightarrow> limiter_v2_data" where
  "update_coefficients cd =
     (let release' = fmaxf MIN_RELEASE_MS (fminf MAX_RELEASE_MS (release_time_ms cd))
      in cd\<lparr>attack_coeff := gain_coefficient (sample_rate cd) FIXED_ATTACK_TIME_MS,
             release_time_ms := release',
             release_coeff := gain_coefficient (sample_rate cd) release',
             output_gain := db_to_mul (output_gain_db cd)\<rparr>)"

text \<open>Lines 869 to 882, run when \<^verbatim>\<open>reset_lookahead\<close> is set: the number of lookahead samples
  and the rebuilt ring buffers; a failed rebuild disables lookahead.\<close>

definition new_lookahead_samples :: "limiter_v2_data \<Rightarrow> nat" where
  "new_lookahead_samples cd =
     (if lookahead_enabled cd \<and> f_ge (lookahead_time_ms cd) MIN_LOOKAHEAD_MS
         \<and> sample_rate cd > 0 \<and> num_channels cd > 0
      then (let n = to_size (f_add (f_div (f_mul (of_u32 (sample_rate cd)) (lookahead_time_ms cd))
                                      MS_IN_S_F)
                               (Num (1 / 2)))
            in if n = 0 then 1 else n)
      else 0)"

definition reset_lookahead_buffers :: "alloc_outcome \<Rightarrow> limiter_v2_data \<Rightarrow> limiter_v2_data" where
  "reset_lookahead_buffers al cd =
     (let r = update_lookahead_buffers al (cd\<lparr>lookahead_samples := new_lookahead_samples cd\<rparr>)
      in if \<not> snd r then (fst r)\<lparr>lookahead_enabled := False, lookahead_samples := 0\<rparr>
         else fst r)"

text \<open>Lines 884 to 888, the reported latency in nanoseconds.\<close>

definition audio_latency_ns :: "limiter_v2_data \<Rightarrow> nat" where
  "audio_latency_ns cd =
     (if lookahead_enabled cd \<and> lookahead_buffers_initialized cd
         \<and> lookahead_samples cd > 0 \<and> sample_rate cd > 0
      then to_size (f_mul (f_div (of_size (lookahead_samples cd)) (of_u32 (sample_rate cd)))
                      (Num (10 ^ 9)))
      else 0)"

text \<open>Lines 890 to 897, the first allocation of the envelope buffer.\<close>

definition init_env_buffer :: "bool \<Rightarrow> limiter_v2_data \<Rightarrow> limiter_v2_data" where
  "init_env_buffer ok cd =
     (if envelope_buf cd = [] then
        (let len = unat ((sample_rate cd * of_nat INITIAL_ENV_BUF_MS) div 1000);
             initial_env_len = (if len = 0 then 1024 else len);
             cd' = fst (ensure_env_buffer ok cd initial_env_len)
         in cd'\<lparr>envelope_buf := replicate (length (envelope_buf cd')) (Num 0)\<rparr>)
      else cd)"

definition limiter_v2_update ::
  "alloc_outcome \<Rightarrow> 32 word \<Rightarrow> nat \<Rightarrow> obs_settings \<Rightarrow> limiter_v2_data \<Rightarrow> limiter_v2_data \<times> nat" where
  "limiter_v2_update al audio_sample_rate audio_channels s cd =
     (let format = update_format audio_sample_rate audio_channels cd;
          settings = update_settings s (fst format);
          cd1 = update_coefficients (fst settings);
          reset_lookahead = (snd format \<or> snd settings);
          cd2 = (if reset_lookahead then reset_lookahead_buffers al cd1 else cd1)
      in (init_env_buffer (realloc_ok al) cd2, audio_latency_ns cd2))"

text \<open>\<^verbatim>\<open>limiter_v2_create\<close>: the state is allocated zeroed and configured by
  \<^verbatim>\<open>limiter_v2_update\<close>.\<close>

definition zero_data :: limiter_v2_data where
  "zero_data =
     \<lparr>threshold_db = Num 0, release_time_ms = Num 0, output_gain_db = Num 0,
      adaptive_release_enabled = False, lookahead_enabled = False, lookahead_time_ms = Num 0,
      true_peak_enabled = False, attack_coeff = Num 0, release_coeff = Num 0,
      output_gain = Num 0, envelope_buf = [], envelope = Num 0,
      lookahead_circbuf = replicate MAX_AUDIO_CHANNELS circlebuf_zero, lookahead_samples = 0,
      lookahead_buffers_initialized = False,
      prev_env_vals = replicate NUM_ENV_HISTORY (Num 0), prev_env_pos = 0,
      sample_rate = 0, num_channels = 0\<rparr>"

definition limiter_v2_create ::
  "alloc_outcome \<Rightarrow> 32 word \<Rightarrow> nat \<Rightarrow> obs_settings \<Rightarrow> limiter_v2_data \<times> nat" where
  "limiter_v2_create al audio_sample_rate audio_channels settings =
     limiter_v2_update al audio_sample_rate audio_channels settings zero_data"

text \<open>\<^verbatim>\<open>limiter_v2_filter_audio\<close>: analyse the undelayed input, delay the main path, apply
  the gain.  The outcome of the envelope buffer's reallocation is an argument.\<close>

definition limiter_v2_filter_audio ::
  "bool \<Rightarrow> limiter_v2_data \<Rightarrow> obs_audio_data \<Rightarrow> limiter_v2_data \<times> obs_audio_data" where
  "limiter_v2_filter_audio ok cd audio =
     (if frames audio = 0 \<or> sample_rate cd = 0 \<or> num_channels cd = 0 then (cd, audio)
      else
        (let num_samples = frames audio;
             samples = data audio;
             lookahead_active = (lookahead_enabled cd \<and> lookahead_buffers_initialized cd
                                 \<and> lookahead_samples cd > 0);
             cd1 = analyze_envelope ok cd samples num_samples;
             delayed = apply_lookahead lookahead_active cd1 samples num_samples;
             cd2 = cd1\<lparr>lookahead_circbuf := fst delayed\<rparr>;
             samples' = process_compression cd2 (snd delayed) num_samples
         in (cd2, audio\<lparr>data := samples'\<rparr>)))"

section \<open>Definitions that follow the spec's words\<close>

text \<open>The spec's true-peak estimate (section 4.2): 0 when an input is not finite, otherwise
  the maximum absolute value over the two inputs and the three points interpolated
  linearly at the fractions 1/4, 2/4 and 3/4.\<close>

definition peak_estimate_spec :: "cfloat \<Rightarrow> cfloat \<Rightarrow> cfloat" where
  "peak_estimate_spec a b =
     (case (a, b) of
        (Num x, Num y) \<Rightarrow>
          Num (Max {\<bar>x\<bar>, \<bar>y\<bar>, \<bar>(1 - 1 / 4) * x + 1 / 4 * y\<bar>,
                    \<bar>(1 - 2 / 4) * x + 2 / 4 * y\<bar>, \<bar>(1 - 3 / 4) * x + 3 / 4 * y\<bar>})
      | _ \<Rightarrow> Num 0)"

text \<open>The spec's adaptive release (section 4.3): the change rate is the average of the
  absolute differences over the two consecutive gaps of the three history values \<open>h0\<close>,
  \<open>h1\<close>, \<open>h2\<close>, consecutive in the order given; the faster release time is the base time
  divided by the rate times 15 clamped to [1, 3], and floored at 1 ms.\<close>

definition change_rate_spec :: "real \<Rightarrow> real \<Rightarrow> real \<Rightarrow> real" where
  "change_rate_spec h0 h1 h2 = (\<bar>h1 - h0\<bar> + \<bar>h2 - h1\<bar>) / 2"

definition fast_release_time_spec :: "real \<Rightarrow> real \<Rightarrow> real" where
  "fast_release_time_spec base rate = max (base / max 1 (min 3 (rate * 15))) 1"

text \<open>The spec's gain computer (section 4.5): the multiplier of an envelope value \<open>e\<close> for
  the threshold \<open>T\<close> in decibels is 1 when the envelope is at most \<open>\<epsilon>\<close> or at most the
  linear threshold, and \<open>10 ^ ((T - e_dB) / 20)\<close> otherwise; a sample is multiplied by the
  final gain, and a non-finite sample becomes 0.\<close>

definition gain_multiplier_spec :: "real \<Rightarrow> real \<Rightarrow> real" where
  "gain_multiplier_spec T e =
     (if e \<le> 1 / 10 ^ 10 \<or> e \<le> 10 powr (T / 20) then 1
      else 10 powr ((T - 20 * log 10 e) / 20))"

definition apply_gain_spec :: "cfloat \<Rightarrow> cfloat \<Rightarrow> cfloat" where
  "apply_gain_spec g x = (if isfinite x then f_mul x g else Num 0)"

section \<open>Example states\<close>

text \<open>A state with a threshold of 0 dB, unit output gain, two channels and the envelope
  values 10 and 1/2 in the scratch buffer.\<close>

definition ex_gain_state :: limiter_v2_data where
  "ex_gain_state = zero_data\<lparr>threshold_db := Num 0, output_gain := Num 1,
       envelope_buf := [Num 10, Num (1 / 2)], num_channels := 2\<rparr>"

text \<open>A state with adaptive release enabled, a release time of 60 ms at 48 kHz and the
  envelope history 0, 1, 0.\<close>

definition ex_adaptive_state :: limiter_v2_data where
  "ex_adaptive_state = zero_data\<lparr>adaptive_release_enabled := True,
       prev_env_vals := [Num 0, Num 1, Num 0], release_time_ms := Num 60,
       release_coeff := Num (1 / 2), sample_rate := 48000\<rparr>"

section \<open>Predicates of the invariants\<close>

text \<open>The spec's invariant of the envelope (section 3): a value is finite and not
  negative.  A smoothed value is moreover coerced: exactly 0, or at least \<open>\<epsilon>\<close>.\<close>

definition finite_nonneg :: "cfloat \<Rightarrow> bool" where
  "finite_nonneg x = (case x of Num v \<Rightarrow> 0 \<le> v | _ \<Rightarrow> False)"

definition coerced_env :: "cfloat \<Rightarrow> bool" where
  "coerced_env x = (case x of Num v \<Rightarrow> v = 0 \<or> 1 / 10 ^ 10 \<le> v | _ \<Rightarrow> False)"

text \<open>The first \<open>n\<close> entries of the envelope buffer exist and are coerced; and the buffer
  that the channel loop of \<^verbatim>\<open>analyze_envelope\<close> leaves.\<close>

definition env_buf_ok :: "nat \<Rightarrow> cfloat list \<Rightarrow> bool" where
  "env_buf_ok n buf = (n \<le> length buf \<and> (\<forall>j < n. coerced_env (buf ! j)))"

definition analyzed_buf :: "limiter_v2_data \<Rightarrow> cfloat list option list \<Rightarrow> nat \<Rightarrow> cfloat list" where
  "analyzed_buf cd1 samples n =
     fold (env_channel cd1 samples n) [0..<num_channels cd1]
       (replicate n (Num 0) @ drop n (envelope_buf cd1))"

text \<open>A state at 48 kHz with one channel and attack and release coefficients of 1/2.\<close>

definition ex_env_state :: limiter_v2_data where
  "ex_env_state = zero_data\<lparr>attack_coeff := Num (1 / 2), release_coeff := Num (1 / 2),
       sample_rate := 48000, num_channels := 1\<rparr>"

section \<open>Predicates and functions of the delay line\<close>

text \<open>The spec's delay line (section 4.4): a pass pushes the \<open>n\<close> samples of a block to the
  back of the ring and pops \<open>n\<close> samples from the front into the block.  With the ring
  content \<open>q\<close> and the block \<open>xs\<close>, the block afterwards and the ring afterwards are:\<close>

definition delayed_block :: "cfloat list \<Rightarrow> cfloat list \<Rightarrow> nat \<Rightarrow> cfloat list" where
  "delayed_block q xs n = take n (q @ take n xs) @ drop n xs"

definition ring_after :: "cfloat list \<Rightarrow> cfloat list \<Rightarrow> nat \<Rightarrow> cfloat list" where
  "ring_after q xs n = drop n (q @ take n xs)"

text \<open>All samples of all planes are finite; all samples held in the rings are finite.\<close>

definition all_finite :: "cfloat list option list \<Rightarrow> bool" where
  "all_finite samples = (\<forall>c xs. plane samples c = Some xs \<longrightarrow> (\<forall>x \<in> set xs. isfinite x))"

definition rings_finite :: "circlebuf list \<Rightarrow> bool" where
  "rings_finite cbs = (\<forall>cb \<in> set cbs. \<forall>x \<in> set (cb_data cb). isfinite x)"

text \<open>Allocation outcomes: every request succeeds, and the reallocation of the envelope
  buffer fails while the ring buffers are allocated.\<close>

definition ex_alloc_ok :: alloc_outcome where
  "ex_alloc_ok = \<lparr>realloc_ok = True, zero_block_ok = True, reserve_ok = (\<lambda>i. True)\<rparr>"

definition ex_alloc_fail :: alloc_outcome where
  "ex_alloc_fail = \<lparr>realloc_ok = False, zero_block_ok = True, reserve_ok = (\<lambda>i. True)\<rparr>"

text \<open>Settings with a threshold of -6 dB and a lookahead of 0.1 ms, the state created from
  them at 10 kHz with one channel (one sample of lookahead), and the state after that
  filter has then processed a one-sample block holding NaN without an envelope buffer.\<close>

definition ex_settings :: obs_settings where
  "ex_settings = \<lparr>s_threshold = Num (- 6), s_release_time = Num 60, s_output_gain = Num 0,
     s_adaptive_release_enabled = False, s_true_peak_enabled = False,
     s_lookahead_enabled = True, s_lookahead_time_ms = Num (1 / 10)\<rparr>"

definition ex_created :: "alloc_outcome \<Rightarrow> limiter_v2_data" where
  "ex_created al = fst (limiter_v2_create al 10000 1 ex_settings)"

definition ex_stale_state :: limiter_v2_data where
  "ex_stale_state =
     fst (limiter_v2_filter_audio False (ex_created ex_alloc_fail) \<lparr>data = [Some [NaN]], frames = 1\<rparr>)"

subsection \<open>Auxiliary notions for the update callback and the delay line\<close>

text \<open>Settings outside the ranges of the property sliders: threshold +5 dB, output gain +40 dB.\<close>

definition ex_bad_settings :: obs_settings where
  "ex_bad_settings = ex_settings\<lparr>s_threshold := Num 5, s_output_gain := Num 40\<rparr>"

text \<open>The delay line is armed with \<open>D\<close> samples per active channel.\<close>

definition lookahead_ready :: "nat \<Rightarrow> limiter_v2_data \<Rightarrow> bool" where
  "lookahead_ready D cd =
     (lookahead_enabled cd \<and> lookahead_buffers_initialized cd \<and> lookahead_samples cd = D
      \<and> 0 < D \<and> num_channels cd \<le> MAX_AUDIO_CHANNELS
      \<and> length (lookahead_circbuf cd) = MAX_AUDIO_CHANNELS
      \<and> (\<forall>c < num_channels cd. length (cb_data (lookahead_circbuf cd ! c)) = D))"

text \<open>The condition under which \<open>limiter_v2_update\<close> sets its local flag \<open>reset_lookahead\<close>.\<close>

definition reconfigures :: "32 word \<Rightarrow> nat \<Rightarrow> obs_settings \<Rightarrow> limiter_v2_data \<Rightarrow> bool" where
  "reconfigures sr nch s cd =
     (snd (update_format sr nch cd) \<or> snd (update_settings s (fst (update_format sr nch cd))))"

subsection \<open>Streams of blocks\<close>

text \<open>The samples of channel \<open>c\<close> in a block (none for a NULL plane), and a block as the host
  passes it: at least one frame, and every plane that is present holds \<open>frames\<close> samples.\<close>

definition plane_samples :: "obs_audio_data \<Rightarrow> nat \<Rightarrow> cfloat list" where
  "plane_samples a c = (case plane (data a) c of None \<Rightarrow> [] | Some xs \<Rightarrow> xs)"

definition well_formed_block :: "nat \<Rightarrow> obs_audio_data \<Rightarrow> bool" where
  "well_formed_block nch a =
     (0 < frames a \<and>
      (\<forall>c < nch. case plane (data a) c of None \<Rightarrow> True | Some xs \<Rightarrow> length xs = frames a))"

text \<open>The host calls \<^verbatim>\<open>limiter_v2_filter_audio\<close> once per block, on the state the previous
  call left.  \<open>filter_blocks\<close> is that sequence of calls, each block paired with the outcome
  of the envelope buffer's reallocation during its call; \<open>channel_stream\<close> is one channel
  of a sequence of blocks as a single stream of samples.\<close>

fun filter_blocks ::
  "limiter_v2_data \<Rightarrow> (bool \<times> obs_audio_data) list \<Rightarrow> limiter_v2_data \<times> obs_audio_data list" where
  "filter_blocks cd [] = (cd, [])"
| "filter_blocks cd (b # bs) =
     (let r = limiter_v2_filter_audio (fst b) cd (snd b);
          rs = filter_blocks (fst r) bs
      in (fst rs, snd r # snd rs))"

definition channel_stream :: "nat \<Rightarrow> obs_audio_data list \<Rightarrow> cfloat list" where
  "channel_stream c as = concat (map (\<lambda>a. plane_samples a c) as)"

text \<open>A unit impulse followed by silence on one channel, split into a block of one frame
  and a block of two frames.\<close>

definition ex_impulse_blocks :: "(bool \<times> obs_audio_data) list" where
  "ex_impulse_blocks =
     [(True, \<lparr>data = [Some [Num 1]], frames = 1\<rparr>),
      (True, \<lparr>data = [Some [Num 0, Num 0]], frames = 2\<rparr>)]"

subsection \<open>The history ring\<close>

text \<open>Lines 476 and 477 of \<^verbatim>\<open>analyze_envelope\<close>, which record the envelope of a block in the
  history ring: the cursor is advanced first, then the value is written at the cursor.\<close>

definition push_history :: "limiter_v2_data \<Rightarrow> cfloat \<Rightarrow> limiter_v2_data" where
  "push_history cd env =
     (let pos = (prev_env_pos cd + 1) mod 3
      in cd\<lparr>prev_env_pos := pos, prev_env_vals := (prev_env_vals cd)[unat pos := env]\<rparr>)"

text \<open>The history after three blocks whose envelopes were 0.08, 0 and 0.08, with adaptive
  release enabled and a release time of 60 ms.\<close>

definition ex_dip_history :: limiter_v2_data where
  "ex_dip_history =
     push_history (push_history (push_history ex_adaptive_state (Num (8 / 100))) (Num 0))
       (Num (8 / 100))"

subsection \<open>Notions for the samples written back\<close>

text \<open>The local variable \<^verbatim>\<open>lookahead_active\<close> of \<^verbatim>\<open>limiter_v2_filter_audio\<close> (line 984), the
  planes that leave the delay step of a block, and the condition under which
  \<^verbatim>\<open>ensure_env_buffer\<close> succeeds for a block.\<close>

definition lookahead_active :: "limiter_v2_data \<Rightarrow> bool" where
  "lookahead_active cd =
     (lookahead_enabled cd \<and> lookahead_buffers_initialized cd \<and> lookahead_samples cd > 0)"

definition delayed_input :: "limiter_v2_data \<Rightarrow> obs_audio_data \<Rightarrow> cfloat list option list" where
  "delayed_input cd audio =
     snd (apply_lookahead (lookahead_active cd) cd (data audio) (frames audio))"

definition envelope_available :: "bool \<Rightarrow> limiter_v2_data \<Rightarrow> obs_audio_data \<Rightarrow> bool" where
  "envelope_available ok cd audio = (ok \<or> frames audio \<le> length (envelope_buf cd))"

subsection \<open>Constant input and the settled envelope\<close>

text \<open>The spec's envelope follower (section 4.2) on a constant level \<open>L\<close>: one smoothing step
  moves the envelope \<open>e\<close> towards \<open>L\<close>, with the attack coefficient \<open>a\<close> from below and with
  the release coefficient \<open>r\<close> otherwise.\<close>

definition follow :: "real \<Rightarrow> real \<Rightarrow> real \<Rightarrow> real \<Rightarrow> real" where
  "follow a r L e = (if e < L then L + a * (e - L) else L + r * (e - L))"

text \<open>A sample of magnitude \<open>L\<close>, a finite sample of magnitude at most \<open>L\<close>, and a block of
  constant level \<open>L\<close>: it has frames, and every plane of an active channel is present, holds
  \<open>frames\<close> samples and all of them have magnitude \<open>L\<close>.\<close>

definition level_sample :: "real \<Rightarrow> cfloat \<Rightarrow> bool" where
  "level_sample L x = (case x of Num v \<Rightarrow> \<bar>v\<bar> = L | _ \<Rightarrow> False)"

definition bounded_sample :: "real \<Rightarrow> cfloat \<Rightarrow> bool" where
  "bounded_sample L x = (case x of Num v \<Rightarrow> \<bar>v\<bar> \<le> L | _ \<Rightarrow> False)"

definition constant_level_block :: "real \<Rightarrow> nat \<Rightarrow> obs_audio_data \<Rightarrow> bool" where
  "constant_level_block L nch a =
     (0 < frames a \<and>
      (\<forall>c < nch. case plane (data a) c of
                   None \<Rightarrow> False
                 | Some xs \<Rightarrow> length xs = frames a \<and> list_all (level_sample L) xs))"

text \<open>The part of the state that the follower reads, as \<^verbatim>\<open>limiter_v2_update\<close> leaves it: a
  finite release coefficient that is not negative, a finite release time, three finite
  values in the history ring, a sample rate other than 0 and between 1 and
  \<^verbatim>\<open>MAX_AUDIO_CHANNELS\<close> channels.\<close>

definition follower_state :: "limiter_v2_data \<Rightarrow> bool" where
  "follower_state cd =
     (isfinite (release_coeff cd) \<and> f_le (Num 0) (release_coeff cd) \<and>
      isfinite (release_time_ms cd) \<and>
      length (prev_env_vals cd) = 3 \<and> list_all isfinite (prev_env_vals cd) \<and>
      sample_rate cd \<noteq> 0 \<and> 0 < num_channels cd \<and> num_channels cd \<le> MAX_AUDIO_CHANNELS)"

text \<open>Lookahead is inactive, or the delay line is armed and holds finite samples of magnitude
  at most \<open>L\<close> (the zeros of a reconfiguration, or earlier samples of the same signal).\<close>

definition delay_line_bounded :: "real \<Rightarrow> limiter_v2_data \<Rightarrow> bool" where
  "delay_line_bounded L cd =
     (\<not> lookahead_active cd \<or>
      (lookahead_ready (lookahead_samples cd) cd \<and>
       (\<forall>c < num_channels cd. list_all (bounded_sample L) (cb_data (lookahead_circbuf cd ! c)))))"

text \<open>A state with threshold \<open>T\<close> dB, linear output gain \<open>g\<close> and attack coefficient \<open>a\<close>, ready
  for input of level \<open>L\<close>; a stream of blocks of constant level for each of which the
  envelope buffer can be allocated; and the number of frames of a stream.\<close>

definition limiter_ready :: "real \<Rightarrow> real \<Rightarrow> real \<Rightarrow> real \<Rightarrow> limiter_v2_data \<Rightarrow> bool" where
  "limiter_ready T g a L cd =
     (threshold_db cd = Num T \<and> output_gain cd = Num g \<and> attack_coeff cd = Num a \<and>
      follower_state cd \<and> delay_line_bounded L cd)"

definition constant_level_stream :: "real \<Rightarrow> nat \<Rightarrow> (bool \<times> obs_audio_data) list \<Rightarrow> bool" where
  "constant_level_stream L nch bs =
     list_all (\<lambda>b. fst b \<and> constant_level_block L nch (snd b)) bs"

definition stream_frames :: "(bool \<times> obs_audio_data) list \<Rightarrow> nat" where
  "stream_frames bs = sum_list (map (\<lambda>b. frames (snd b)) bs)"

text \<open>A state at 48 kHz with one channel, a threshold of 0 dB, unit output gain, attack and
  release coefficients of 1/2, no lookahead and an envelope of 0; and a block of two
  samples of magnitude 2.\<close>

definition ex_follower_state :: limiter_v2_data where
  "ex_follower_state = zero_data\<lparr>threshold_db := Num 0, output_gain := Num 1,
       attack_coeff := Num (1 / 2), release_coeff := Num (1 / 2), release_time_ms := Num 60,
       sample_rate := 48000, num_channels := 1\<rparr>"

definition ex_level_blocks :: "(bool \<times> obs_audio_data) list" where
  "ex_level_blocks = [(True, \<lparr>data = [Some [Num 2, Num (- 2)]], frames = 2\<rparr>)]"

section \<open>Properties of the helper functions\<close>

lemma fmaxf_Num [simp]: "fmaxf (Num a) (Num b) = Num (max a b)"
  by (simp add: fmaxf_def max_def)

lemma fminf_Num [simp]: "fminf (Num a) (Num b) = Num (min a b)"
  by (simp add: fminf_def min_def)

lemma f_sub_Num [simp]: "f_sub (Num a) (Num b) = Num (a - b)"
  by (simp add: f_sub_def)

lemma upt_oversample: "[1..<TP_OVERSAMPLE_FACTOR] = [1, 2, 3]"
  by (simp add: TP_OVERSAMPLE_FACTOR_def upt_rec)

lemma peak_estimate_Num:
  "get_inter_sample_peak_estimate (Num a) (Num b) =
     Num (max (max (max (max \<bar>a\<bar> \<bar>b\<bar>) \<bar>(1 - 1 / 4) * a + 1 / 4 * b\<bar>)
                 \<bar>(1 - 2 / 4) * a + 2 / 4 * b\<bar>) \<bar>(1 - 3 / 4) * a + 3 / 4 * b\<bar>)"
  unfolding get_inter_sample_peak_estimate_def upt_oversample
  by (simp add: interp_step_def TP_OVERSAMPLE_FACTOR_def)


lemma real_unat_nonneg [simp]: "(0::real) \<le> unsigned (w :: 32 word)"
proof -
  have "(0::real) \<le> of_nat (unat w)" by (rule of_nat_0_le_iff)
  then show ?thesis by simp
qed

lemma real_unat_eq_0 [simp]: "((unsigned (w :: 32 word) :: real) = 0) = (w = 0)"
proof -
  have "((of_nat (unat w) :: real) = 0) = (w = 0)"
    unfolding of_nat_eq_0_iff by (simp add: unat_eq_0)
  then show ?thesis by simp
qed

lemma peak_nonfinite:
  "\<not> isfinite a \<or> \<not> isfinite b \<Longrightarrow> get_inter_sample_peak_estimate a b = Num 0"
  by (simp add: get_inter_sample_peak_estimate_def)

subsection \<open>The coefficient of a time constant\<close>

lemma gain_coefficient_Num:
  "gain_coefficient r (Num t) =
     (if r = 0 \<or> t \<le> 0 then Num 0
      else Num (exp (- 1 / (real (unat r) * (t / 1000) + 1 / 10 ^ 10))))
   \<and> f_le (Num 0) (gain_coefficient r (Num t))
   \<and> f_le (gain_coefficient r (Num t)) (Num 1)"
proof (cases "r = 0 \<or> t \<le> 0")
  case True
  then show ?thesis by (auto simp: gain_coefficient_def)
next
  case False
  then have "0 \<le> real (unat r) * (t / 1000)" by (intro mult_nonneg_nonneg) simp_all
  moreover have "(0::real) < 1 / 10 ^ 10" by simp
  ultimately have pos: "0 < real (unat r) * (t / 1000) + 1 / 10 ^ 10"
    by (rule add_nonneg_pos)
  then have ne: "real (unat r) * (t / 1000) + 1 / 10 ^ 10 \<noteq> 0" by linarith
  have val: "gain_coefficient r (Num t) = Num (exp (- 1 / (real (unat r) * (t / 1000) + 1 / 10 ^ 10)))"
    using False ne by (simp add: gain_coefficient_def MS_IN_S_F_def SMALL_EPSILON_def of_u32_def Let_def)
  have "- 1 / (real (unat r) * (t / 1000) + 1 / 10 ^ 10) \<le> 0"
    using pos by (simp add: divide_le_0_iff)
  then have "exp (- 1 / (real (unat r) * (t / 1000) + 1 / 10 ^ 10)) \<le> 1" by simp
  then show ?thesis using False val by simp
qed

text \<open>
  Claim C9, amended.  For every sample rate \<open>r\<close> and every time \<open>t\<close> other than NaN,
  \<^verbatim>\<open>gain_coefficient\<close> returns 0 if \<open>r = 0\<close> or \<open>t \<le> 0\<close>, and otherwise
  \<open>exp (- 1 / (r * (t / 1000) + \<epsilon>))\<close> with \<open>\<epsilon> = 1 / 10 ^ 10\<close>, which for \<open>t = +\<infinity>\<close> is
  \<open>exp 0 = 1\<close>; in all cases the result is at least 0 and at most 1.  The upper end of
  the interval is attained, so the interval is closed.
\<close>

theorem gain_coefficient_unit_interval:
  "t \<noteq> NaN \<longrightarrow>
     gain_coefficient r t =
       (if r = 0 \<or> f_le t (Num 0) then Num 0
        else case t of
               Num x \<Rightarrow> Num (exp (- 1 / (real (unat r) * (x / 1000) + 1 / 10 ^ 10)))
             | _ \<Rightarrow> Num 1)
     \<and> f_le (Num 0) (gain_coefficient r t)
     \<and> f_le (gain_coefficient r t) (Num 1)"
proof (cases t)
  case (Num x)
  then show ?thesis using gain_coefficient_Num [of r x] by simp
next
  case PosInf
  then show ?thesis
    by (simp add: gain_coefficient_def MS_IN_S_F_def SMALL_EPSILON_def of_u32_def)
next
  case NegInf
  then show ?thesis by (simp add: gain_coefficient_def)
next
  case NaN
  then show ?thesis by simp
qed

text \<open>The theorem at 48 kHz and 1 ms, at a sample rate of 0, at a negative time and at an
  infinite time.\<close>

theorem gain_coefficient_witness:
  "gain_coefficient 48000 (Num 1) = Num (exp (- 1 / (48 + 1 / 10 ^ 10)))
   \<and> gain_coefficient 0 (Num 1) = Num 0 \<and> gain_coefficient 48000 (Num (- 1)) = Num 0
   \<and> gain_coefficient 48000 PosInf = Num 1
   \<and> f_le (gain_coefficient 48000 (Num 1)) (Num 1)"
  using gain_coefficient_unit_interval [of "Num 1" 48000]
    gain_coefficient_unit_interval [of "Num 1" 0]
    gain_coefficient_unit_interval [of "Num (- 1)" 48000]
    gain_coefficient_unit_interval [of PosInf 48000]
  by simp

text \<open>
  Claim C9 as stated fails for an infinite time: the test \<^verbatim>\<open>time_ms <= 0.0f\<close> is false,
  the divisor is infinite, the quotient is zero and the result is \<open>exp 0 = 1\<close>, which is
  not less than 1.
\<close>

theorem gain_coefficient_infinite_time:
  "gain_coefficient 48000 PosInf = Num 1 \<and> \<not> f_lt (gain_coefficient 48000 PosInf) (Num 1)"
  by (simp add: gain_coefficient_def MS_IN_S_F_def SMALL_EPSILON_def of_u32_def)

text \<open>For NaN the comparison \<^verbatim>\<open>time_ms <= 0.0f\<close> is false as well and the result is NaN.\<close>

lemma gain_coefficient_nan: "gain_coefficient 48000 NaN = NaN"
  by (simp add: gain_coefficient_def MS_IN_S_F_def SMALL_EPSILON_def of_u32_def)

subsection \<open>The inter-sample peak estimate\<close>

text \<open>
  Claim C7.  For all inputs \<open>a\<close> and \<open>b\<close>, \<^verbatim>\<open>get_inter_sample_peak_estimate\<close> computes the
  spec's estimate: 0 if an input is not finite, otherwise the maximum absolute value over
  \<open>a\<close>, \<open>b\<close> and the points \<open>(1 - t) * a + t * b\<close> for \<open>t\<close> = 1/4, 2/4, 3/4.  (With exact
  arithmetic an interpolated point of two finite inputs is finite, so the loop's
  \<^verbatim>\<open>isfinite\<close> test never excludes a point.)
\<close>

theorem peak_estimate_refines_spec:
  "get_inter_sample_peak_estimate a b = peak_estimate_spec a b"
proof (cases a)
  case (Num x)
  show ?thesis
  proof (cases b)
    case (Num y)
    have "Max {\<bar>x\<bar>, \<bar>y\<bar>, \<bar>(1 - 1 / 4) * x + 1 / 4 * y\<bar>,
                    \<bar>(1 - 2 / 4) * x + 2 / 4 * y\<bar>, \<bar>(1 - 3 / 4) * x + 3 / 4 * y\<bar>}
       = max (max (max (max \<bar>x\<bar> \<bar>y\<bar>) \<bar>(1 - 1 / 4) * x + 1 / 4 * y\<bar>)
                 \<bar>(1 - 2 / 4) * x + 2 / 4 * y\<bar>) \<bar>(1 - 3 / 4) * x + 3 / 4 * y\<bar>"
      by (simp add: max.commute max.left_commute max.assoc)
    then show ?thesis
      using \<open>a = Num x\<close> Num
      by (simp only: peak_estimate_Num peak_estimate_spec_def prod.case cfloat.case)
  qed (simp_all add: Num peak_nonfinite peak_estimate_spec_def)
qed (simp_all add: peak_nonfinite peak_estimate_spec_def split: cfloat.splits)

text \<open>The theorem at the samples 1 and -3 (the peak is 3) and at a NaN input.\<close>

theorem peak_estimate_witness:
  "get_inter_sample_peak_estimate (Num 1) (Num (- 3)) = Num 3 \<and>
   get_inter_sample_peak_estimate NaN (Num 1) = Num 0"
  using peak_estimate_refines_spec [of "Num 1" "Num (- 3)"]
    peak_estimate_refines_spec [of NaN "Num 1"]
  by (simp add: peak_estimate_spec_def)

text \<open>
  Claim C10.  For every pair of finite inputs the estimate is exactly the larger of the
  two absolute values: an interpolated point is a convex combination of the inputs, so
  the oversampling never raises the estimate above the endpoint maximum.
\<close>

theorem peak_estimate_is_endpoint_max:
  "get_inter_sample_peak_estimate (Num a) (Num b) = Num (max \<bar>a\<bar> \<bar>b\<bar>)"
  unfolding peak_estimate_Num by (simp add: max_def abs_if; argo)

text \<open>The theorem at the samples 2 and -5.\<close>

theorem peak_estimate_endpoint_witness:
  "get_inter_sample_peak_estimate (Num 2) (Num (- 5)) = Num 5"
  using peak_estimate_is_endpoint_max [of 2 "- 5"] by simp

subsection \<open>Adaptive release\<close>

lemma upt_history: "[0..<NUM_ENV_HISTORY - 1] = [0, 1]"
  by (simp add: NUM_ENV_HISTORY_def upt_rec)

lemma change_rate_Num:
  assumes "prev_env_vals cd ! unat (prev_env_pos cd mod 3) = Num h0"
    and "prev_env_vals cd ! unat ((prev_env_pos cd + 1) mod 3) = Num h1"
    and "prev_env_vals cd ! unat ((prev_env_pos cd + 2) mod 3) = Num h2"
  shows "calculate_env_change_rate cd = Num (change_rate_spec h0 h1 h2)"
proof -
  have two: "prev_env_pos cd + 1 + 1 = prev_env_pos cd + 2" by simp
  show ?thesis
    unfolding calculate_env_change_rate_def upt_history
    using assms by (simp add: env_change_step_def change_rate_spec_def two)
qed

text \<open>
  The change rate in the order of the ring slots: with the finite values \<open>h0\<close>, \<open>h1\<close>, \<open>h2\<close> in
  the slots at the cursor, one past it and two past it, \<^verbatim>\<open>calculate_env_change_rate\<close>
  averages \<open>\<bar>h1 - h0\<bar>\<close> and \<open>\<bar>h2 - h1\<bar>\<close>.  If the rate exceeds 0.05 the release coefficient
  of the sample is \<^verbatim>\<open>gain_coefficient\<close> of the base release time divided by the rate times
  15 clamped to [1, 3] and floored at 1 ms, and otherwise it is the base release
  coefficient.
\<close>

lemma adaptive_release_in_ring_order:
  assumes "adaptive_release_enabled cd"
    and "prev_env_vals cd ! unat (prev_env_pos cd mod 3) = Num h0"
    and "prev_env_vals cd ! unat ((prev_env_pos cd + 1) mod 3) = Num h1"
    and "prev_env_vals cd ! unat ((prev_env_pos cd + 2) mod 3) = Num h2"
    and "release_time_ms cd = Num base"
  shows "calculate_env_change_rate cd = Num (change_rate_spec h0 h1 h2) \<and>
         current_release_coeff cd =
           (if 5 / 100 < change_rate_spec h0 h1 h2
            then gain_coefficient (sample_rate cd)
                   (Num (fast_release_time_spec base (change_rate_spec h0 h1 h2)))
            else release_coeff cd)"
proof -
  have r: "calculate_env_change_rate cd = Num (change_rate_spec h0 h1 h2)"
    using assms(2-4) by (rule change_rate_Num)
  have "1 \<le> max 1 (min 3 (change_rate_spec h0 h1 h2 * 15))" by simp
  then have "max 1 (min 3 (change_rate_spec h0 h1 h2 * 15)) \<noteq> 0" by linarith
  then show ?thesis
    using assms(1,5) r
    by (simp add: current_release_coeff_def f_gt_def ADAPT_SENSITIVITY_THRESHOLD_def
        ADAPT_MAX_SPEEDUP_FACTOR_def ADAPT_SPEED_FACTOR_def MIN_FAST_RELEASE_MS_def
        fast_release_time_spec_def Let_def)
qed

text \<open>The slot values 0, 1, 0 (rate 1, release time 60 / 3 = 20 ms) and the steady slot
  values 1, 1, 1 (rate 0, base coefficient).\<close>

lemma adaptive_release_example:
  "calculate_env_change_rate ex_adaptive_state = Num 1 \<and>
   current_release_coeff ex_adaptive_state = gain_coefficient 48000 (Num 20) \<and>
   calculate_env_change_rate (ex_adaptive_state\<lparr>prev_env_vals := [Num 1, Num 1, Num 1]\<rparr>) = Num 0 \<and>
   current_release_coeff (ex_adaptive_state\<lparr>prev_env_vals := [Num 1, Num 1, Num 1]\<rparr>) = Num (1 / 2)"
  using adaptive_release_in_ring_order [of ex_adaptive_state 0 1 0 60]
    adaptive_release_in_ring_order [of "ex_adaptive_state\<lparr>prev_env_vals := [Num 1, Num 1, Num 1]\<rparr>" 1 1 1 60]
  by (simp add: ex_adaptive_state_def zero_data_def change_rate_spec_def fast_release_time_spec_def)

subsection \<open>Gain computation\<close>

lemma gain_multiplier_Num:
  assumes "threshold_db cd = Num T"
  shows "gain_reduction_multiplier cd (Num e) = Num (gain_multiplier_spec T e)"
proof (cases "e \<le> 1 / 10 ^ 10")
  case True
  then show ?thesis
    by (simp add: gain_reduction_multiplier_def gain_multiplier_spec_def f_gt_def SMALL_EPSILON_def)
next
  case False
  then have pos: "0 < e" by (smt (verit) divide_pos_pos zero_less_power zero_less_one)
  have iff: "(T < 20 * log 10 e) = (10 powr (T / 20) < e)"
  proof -
    have "(T / 20 < log 10 e) = (10 powr (T / 20) < e)"
      by (rule less_log_iff) (use pos in simp_all)
    then show ?thesis by auto
  qed
  show ?thesis
    using False pos assms iff
    by (auto simp: gain_reduction_multiplier_def gain_multiplier_spec_def f_gt_def
        SMALL_EPSILON_def Let_def min_def)
qed

lemma gain_multiplier_spec_le_1: "gain_multiplier_spec T e \<le> 1"
proof (cases "e \<le> 1 / 10 ^ 10 \<or> e \<le> 10 powr (T / 20)")
  case True
  then show ?thesis by (simp add: gain_multiplier_spec_def)
next
  case False
  then have pos: "0 < e" by (smt (verit) divide_pos_pos zero_less_power zero_less_one)
  from False have "10 powr (T / 20) < e" by simp
  moreover have "(T / 20 < log 10 e) = (10 powr (T / 20) < e)"
    by (rule less_log_iff) (use pos in simp_all)
  ultimately have "T / 20 < log 10 e" by blast
  then have "(T - 20 * log 10 e) / 20 \<le> 0" by simp
  then have "10 powr ((T - 20 * log 10 e) / 20) \<le> 10 powr 0"
    by (intro powr_mono) simp_all
  then show ?thesis using False by (simp add: gain_multiplier_spec_def)
qed

lemma gain_multiplier_spec_pos: "0 < gain_multiplier_spec T e"
  by (simp add: gain_multiplier_spec_def)

lemma gain_multiplier_spec_reduced:
  assumes "1 / 10 ^ 10 < e" and "10 powr (T / 20) < e"
  shows "gain_multiplier_spec T e = 10 powr (T / 20) / e"
proof -
  from assms(1) have pos: "0 < e" by (smt (verit) divide_pos_pos zero_less_power zero_less_one)
  have h: "(T - 20 * log 10 e) / 20 = T / 20 - log 10 e" by (simp add: diff_divide_distrib)
  have "10 powr ((T - 20 * log 10 e) / 20) = 10 powr (T / 20 - log 10 e)"
    by (simp only: h)
  also have "\<dots> = 10 powr (T / 20) / 10 powr (log 10 e)"
    by (rule powr_diff)
  also have "10 powr (log 10 e) = e" using pos by simp
  finally show ?thesis using assms by (simp add: gain_multiplier_spec_def)
qed

lemma level_times_multiplier:
  assumes floor: "1 / 10 ^ 10 \<le> 10 powr (T / 20)"
    and tol: "L \<le> e * 10 powr (tol / 20)"
  shows "L * gain_multiplier_spec T e \<le> 10 powr ((T + tol) / 20)"
proof -
  have split: "10 powr ((T + tol) / 20) = 10 powr (T / 20) * 10 powr (tol / 20)"
    by (simp add: add_divide_distrib powr_add)
  show ?thesis
  proof (cases "e \<le> 1 / 10 ^ 10 \<or> e \<le> 10 powr (T / 20)")
    case True
    then have "e \<le> 10 powr (T / 20)" using floor by auto
    then have "e * 10 powr (tol / 20) \<le> 10 powr (T / 20) * 10 powr (tol / 20)"
      by (intro mult_right_mono) simp_all
    with tol have "L \<le> 10 powr (T / 20) * 10 powr (tol / 20)" by (rule order_trans)
    then show ?thesis using True split by (simp add: gain_multiplier_spec_def)
  next
    case False
    then have e: "1 / 10 ^ 10 < e" "10 powr (T / 20) < e" by auto
    then have pos: "0 < e" by (smt (verit) divide_pos_pos zero_less_power zero_less_one)
    have "L * (10 powr (T / 20) / e) \<le> e * 10 powr (tol / 20) * (10 powr (T / 20) / e)"
      using tol pos by (intro mult_right_mono) simp_all
    also have "\<dots> = 10 powr (T / 20) * 10 powr (tol / 20)" using pos by simp
    finally show ?thesis using gain_multiplier_spec_reduced [OF e] split by simp
  qed
qed

lemma plane_update:
  "plane (samples[c := v]) c' = (if c' = c \<and> c < length samples then v else plane samples c')"
  by (auto simp: plane_def)

lemma plane_Some_length: "plane samples c = Some xs \<Longrightarrow> c < length samples"
  by (auto simp: plane_def split: if_splits)

lemma apply_gain_plane:
  "plane (apply_gain g i c samples) c' =
     (if c' = c \<and> c < MAX_AUDIO_CHANNELS
      then map_option (\<lambda>xs. xs[i := apply_gain_spec g (xs ! i)]) (plane samples c)
      else plane samples c')"
  by (auto simp: apply_gain_def plane_update apply_gain_spec_def
      dest: plane_Some_length split: option.splits)

lemma fold_apply_gain_plane:
  "plane (fold (apply_gain g i) [0..<m] samples) c =
     (if c < m \<and> c < MAX_AUDIO_CHANNELS
      then map_option (\<lambda>xs. xs[i := apply_gain_spec g (xs ! i)]) (plane samples c)
      else plane samples c)"
  by (induction m) (auto simp: apply_gain_plane)

lemma compress_sample_plane:
  "plane (compress_sample cd i samples) c =
     (if c < num_channels cd \<and> c < MAX_AUDIO_CHANNELS
      then map_option (\<lambda>xs. xs[i := apply_gain_spec (final_gain cd (envelope_buf cd ! i)) (xs ! i)])
             (plane samples c)
      else plane samples c)"
  by (simp add: compress_sample_def fold_apply_gain_plane)

lemma fold_compress_plane:
  "plane (fold (compress_sample cd) [0..<k] samples) c =
     (if c < num_channels cd \<and> c < MAX_AUDIO_CHANNELS
      then map_option
             (fold (\<lambda>i xs. xs[i := apply_gain_spec (final_gain cd (envelope_buf cd ! i)) (xs ! i)])
                [0..<k])
             (plane samples c)
      else plane samples c)"
proof (induction k)
  case 0
  then show ?case by (simp add: option.map_ident)
next
  case (Suc k)
  then show ?case
    by (cases "plane samples c") (simp_all add: compress_sample_plane)
qed

lemma fold_update_length [simp]:
  "length (fold (\<lambda>i ys. ys[i := h i (ys ! i)]) [0..<k] xs) = length xs"
  by (induction k) simp_all

lemma fold_update_nth:
  "j < length xs \<Longrightarrow>
   fold (\<lambda>i ys. ys[i := h i (ys ! i)]) [0..<k] xs ! j = (if j < k then h j (xs ! j) else xs ! j)"
  by (induction k) (auto simp: nth_list_update less_Suc_eq)

lemma process_compression_plane:
  assumes "c < num_channels cd" and "c < MAX_AUDIO_CHANNELS" and "plane samples c = Some xs"
    and "0 < num_samples" and "num_samples \<le> length (envelope_buf cd)"
  shows "\<exists>ys. plane (process_compression cd samples num_samples) c = Some ys \<and>
           length ys = length xs \<and>
           (\<forall>j < length xs. ys ! j =
              (if j < num_samples
               then apply_gain_spec (final_gain cd (envelope_buf cd ! j)) (xs ! j)
               else xs ! j))"
proof -
  from assms(4,5) have "process_compression cd samples num_samples =
      fold (compress_sample cd) [0..<num_samples] samples"
    by (auto simp: process_compression_def)
  then show ?thesis
    using assms(1-3)
    by (simp add: fold_compress_plane
        fold_update_nth [where h = "\<lambda>i. apply_gain_spec (final_gain cd (envelope_buf cd ! i))"]
        fold_update_length [where h = "\<lambda>i. apply_gain_spec (final_gain cd (envelope_buf cd ! i))"])
qed

lemma process_compression_other_plane:
  "\<not> (c < num_channels cd \<and> c < MAX_AUDIO_CHANNELS) \<Longrightarrow>
   plane (process_compression cd samples num_samples) c = plane samples c"
  by (auto simp: process_compression_def fold_compress_plane)

lemma final_gain_isfinite: "isfinite (final_gain cd e)"
  by (simp add: final_gain_def Let_def)

text \<open>
  Claim C5.  For a finite threshold \<open>T\<close> and a finite envelope value \<open>e\<close> at index \<open>i\<close>, the
  gain-reduction multiplier of \<^verbatim>\<open>process_compression\<close> is the spec's: exactly 1 if
  \<open>e \<le> \<epsilon>\<close> or \<open>e\<close> is at most the linear threshold, and \<open>10 ^ ((T - e_dB) / 20)\<close> otherwise;
  it is at most 1; the final gain is the multiplier times the output gain (0 if that is
  not finite); and every processed channel's sample at index \<open>i\<close> is multiplied by this
  same final gain, a non-finite sample becoming 0.
\<close>

theorem compression_gain_refines_spec:
  assumes "threshold_db cd = Num T" and "envelope_buf cd ! i = Num e"
    and "i < num_samples" and "num_samples \<le> length (envelope_buf cd)"
  shows "gain_reduction_multiplier cd (Num e) = Num (gain_multiplier_spec T e)
    \<and> gain_multiplier_spec T e \<le> 1
    \<and> final_gain cd (Num e) =
        (let g = f_mul (Num (gain_multiplier_spec T e)) (output_gain cd)
         in if isfinite g then g else Num 0)
    \<and> (\<forall>c xs. c < num_channels cd \<and> c < MAX_AUDIO_CHANNELS \<and> plane samples c = Some xs
               \<and> i < length xs \<longrightarrow>
          (\<exists>ys. plane (process_compression cd samples num_samples) c = Some ys
                \<and> ys ! i = apply_gain_spec (final_gain cd (Num e)) (xs ! i)))"
proof -
  have m: "gain_reduction_multiplier cd (Num e) = Num (gain_multiplier_spec T e)"
    using assms(1) by (rule gain_multiplier_Num)
  have fg: "final_gain cd (Num e) =
        (let g = f_mul (Num (gain_multiplier_spec T e)) (output_gain cd)
         in if isfinite g then g else Num 0)"
    by (simp add: final_gain_def m Let_def)
  have "\<exists>ys. plane (process_compression cd samples num_samples) c = Some ys
                \<and> ys ! i = apply_gain_spec (final_gain cd (Num e)) (xs ! i)"
    if "c < num_channels cd" "c < MAX_AUDIO_CHANNELS" "plane samples c = Some xs" "i < length xs"
    for c xs
  proof -
    from assms(3) have "0 < num_samples" by simp
    from process_compression_plane [OF that(1-3) this assms(4)]
    obtain ys where "plane (process_compression cd samples num_samples) c = Some ys"
      and "\<forall>j < length xs. ys ! j =
              (if j < num_samples
               then apply_gain_spec (final_gain cd (envelope_buf cd ! j)) (xs ! j)
               else xs ! j)"
      by blast
    then show ?thesis using that(4) assms(2,3) by auto
  qed
  then show ?thesis using m fg gain_multiplier_spec_le_1 by blast
qed

text \<open>The theorem in \<open>ex_gain_state\<close>: the envelope value 10 is 20 dB above the threshold and
  gives the multiplier 1/10, the value 1/2 is below it and gives 1; the sample 10 of
  channel 0 becomes 1 and the NaN of channel 1 becomes 0.\<close>

theorem compression_gain_witness:
  "gain_reduction_multiplier ex_gain_state (Num 10) = Num (1 / 10) \<and>
   gain_reduction_multiplier ex_gain_state (Num (1 / 2)) = Num 1 \<and>
   final_gain ex_gain_state (Num 10) = Num (1 / 10) \<and>
   (\<exists>ys. plane (process_compression ex_gain_state
                   [Some [Num 10, Num 3], Some [NaN, Num 1]] 2) 0 = Some ys
         \<and> ys ! 0 = Num 1) \<and>
   (\<exists>ys. plane (process_compression ex_gain_state
                   [Some [Num 10, Num 3], Some [NaN, Num 1]] 2) 1 = Some ys
         \<and> ys ! 0 = Num 0)"
proof -
  let ?S = "[Some [Num 10, Num 3], Some [NaN, Num 1]]"
  have spec: "gain_multiplier_spec 0 10 = 1 / 10" "gain_multiplier_spec 0 (1 / 2) = 1"
    by (simp_all add: gain_multiplier_spec_def powr_minus)
  have a: "threshold_db ex_gain_state = Num 0" "envelope_buf ex_gain_state ! 0 = Num 10"
    "(0::nat) < 2" "2 \<le> length (envelope_buf ex_gain_state)"
    by (simp_all add: ex_gain_state_def zero_data_def)
  have b: "envelope_buf ex_gain_state ! 1 = Num (1 / 2)" "(1::nat) < 2"
    by (simp_all add: ex_gain_state_def zero_data_def)
  have og: "output_gain ex_gain_state = Num 1"
    by (simp add: ex_gain_state_def zero_data_def)
  from compression_gain_refines_spec [OF a(1) b(1) b(2) a(4), of ?S]
  have low: "gain_reduction_multiplier ex_gain_state (Num (1 / 2)) = Num 1"
    by (simp add: spec)
  note all = compression_gain_refines_spec [OF a, of ?S]
  have m: "gain_reduction_multiplier ex_gain_state (Num 10) = Num (1 / 10)"
    using all [THEN conjunct1] by (simp add: spec)
  have fg: "final_gain ex_gain_state (Num 10) = Num (1 / 10)"
    using all [THEN conjunct2, THEN conjunct2, THEN conjunct1] by (simp add: spec og)
  note ch = all [THEN conjunct2, THEN conjunct2, THEN conjunct2]
  have "\<exists>ys. plane (process_compression ex_gain_state ?S 2) 0 = Some ys
         \<and> ys ! 0 = apply_gain_spec (final_gain ex_gain_state (Num 10)) ([Num 10, Num 3] ! 0)"
    by (rule ch [rule_format])
      (simp add: ex_gain_state_def zero_data_def MAX_AUDIO_CHANNELS_def plane_def)
  moreover have "\<exists>ys. plane (process_compression ex_gain_state ?S 2) 1 = Some ys
         \<and> ys ! 0 = apply_gain_spec (final_gain ex_gain_state (Num 10)) ([NaN, Num 1] ! 0)"
    by (rule ch [rule_format])
      (simp add: ex_gain_state_def zero_data_def MAX_AUDIO_CHANNELS_def plane_def)
  ultimately show ?thesis using m fg low by (simp add: apply_gain_spec_def)
qed

subsection \<open>Envelope analysis\<close>

lemma coerced_env_finite_nonneg: "coerced_env x \<Longrightarrow> finite_nonneg x"
  by (auto simp: coerced_env_def finite_nonneg_def split: cfloat.splits)

lemma coerced_env_zero [simp]: "coerced_env (Num 0)"
  by (simp add: coerced_env_def)

lemma coerce_result:
  "coerced_env (if \<not> isfinite y \<or> f_lt y SMALL_EPSILON then Num 0 else y)"
  by (cases y) (auto simp: coerced_env_def SMALL_EPSILON_def)

lemma smooth_step_coerced: "coerced_env (smooth_step cd x c)"
  unfolding smooth_step_def Let_def by (rule coerce_result)

lemma fmaxf_coerced: "coerced_env a \<Longrightarrow> coerced_env b \<Longrightarrow> coerced_env (fmaxf a b)"
  by (cases a; cases b) (auto simp: coerced_env_def max_def)

lemma env_sample_ok:
  assumes "i < n" and "env_buf_ok n (snd st)"
  shows "env_buf_ok n (snd (env_sample cd xs n i st))"
    and "length (snd (env_sample cd xs n i st)) = length (snd st)"
  using assms
  by (auto simp: env_sample_def env_buf_ok_def Let_def nth_list_update
      smooth_step_coerced fmaxf_coerced)

lemma fold_env_sample_ok:
  assumes "k \<le> n" and "env_buf_ok n buf"
  shows "env_buf_ok n (snd (fold (env_sample cd xs n) [0..<k] (e, buf))) \<and>
         length (snd (fold (env_sample cd xs n) [0..<k] (e, buf))) = length buf"
  using assms(1)
proof (induction k)
  case 0
  then show ?case using assms(2) by simp
next
  case (Suc k)
  then have "k < n" and IH: "env_buf_ok n (snd (fold (env_sample cd xs n) [0..<k] (e, buf)))"
    "length (snd (fold (env_sample cd xs n) [0..<k] (e, buf))) = length buf"
    by simp_all
  from env_sample_ok [OF \<open>k < n\<close> IH(1)] IH(2) show ?case by simp
qed

lemma env_channel_ok:
  assumes "env_buf_ok n buf"
  shows "env_buf_ok n (env_channel cd samples n chan buf) \<and>
         length (env_channel cd samples n chan buf) = length buf"
  using assms fold_env_sample_ok [OF order_refl assms]
  by (auto simp: env_channel_def split: option.splits)

lemma fold_env_channel_ok:
  assumes "env_buf_ok n buf"
  shows "env_buf_ok n (fold (env_channel cd samples n) [0..<m] buf) \<and>
         length (fold (env_channel cd samples n) [0..<m] buf) = length buf"
proof (induction m)
  case 0
  then show ?case using assms by simp
next
  case (Suc m)
  then show ?case using env_channel_ok by simp
qed

lemma ensure_env_buffer_cases:
  "ensure_env_buffer ok cd n =
     (if length (envelope_buf cd) < n
      then (if ok then (cd\<lparr>envelope_buf := envelope_buf cd @
                               replicate (n - length (envelope_buf cd)) (Num 0)\<rparr>, True)
            else (cd\<lparr>envelope_buf := []\<rparr>, False))
      else (cd, envelope_buf cd \<noteq> []))"
  by (simp add: ensure_env_buffer_def)

lemma ensure_env_buffer_succeeds:
  "0 < n \<Longrightarrow> snd (ensure_env_buffer ok cd n) = (ok \<or> n \<le> length (envelope_buf cd))"
  by (auto simp: ensure_env_buffer_def)

lemma ensure_env_buffer_length:
  "snd (ensure_env_buffer ok cd n) \<Longrightarrow> n \<le> length (envelope_buf (fst (ensure_env_buffer ok cd n)))"
  by (auto simp: ensure_env_buffer_def split: if_splits)

lemma ensure_env_buffer_frame:
  "fst (ensure_env_buffer ok cd n) = cd\<lparr>envelope_buf := envelope_buf (fst (ensure_env_buffer ok cd n))\<rparr>"
  by (auto simp: ensure_env_buffer_def)

lemma analyzed_buf_ok:
  assumes "n \<le> length (envelope_buf cd1)"
  shows "env_buf_ok n (analyzed_buf cd1 samples n)"
proof -
  have "env_buf_ok n (replicate n (Num 0) @ drop n (envelope_buf cd1))"
    using assms by (auto simp: env_buf_ok_def nth_append)
  then show ?thesis unfolding analyzed_buf_def using fold_env_channel_ok by blast
qed

lemma analyze_envelope_alt:
  "analyze_envelope ok cd samples n =
     (if n = 0 then cd
      else if \<not> snd (ensure_env_buffer ok cd n) then fst (ensure_env_buffer ok cd n)
      else (let cd1 = fst (ensure_env_buffer ok cd n);
                buf = analyzed_buf cd1 samples n;
                env = (if \<not> isfinite (buf ! (n - 1)) then Num 0 else buf ! (n - 1));
                pos = (prev_env_pos cd1 + 1) mod 3
            in cd1\<lparr>envelope_buf := buf, envelope := env, prev_env_pos := pos,
                   prev_env_vals := (prev_env_vals cd1)[unat pos := env]\<rparr>))"
  by (auto simp: analyze_envelope_def analyzed_buf_def Let_def split: prod.splits bool.splits)

lemma analyze_envelope_processed:
  assumes "0 < n" and "ok \<or> n \<le> length (envelope_buf cd)"
  shows "analyze_envelope ok cd samples n =
     (let cd1 = fst (ensure_env_buffer ok cd n);
          buf = analyzed_buf cd1 samples n;
          env = (if \<not> isfinite (buf ! (n - 1)) then Num 0 else buf ! (n - 1));
          pos = (prev_env_pos cd + 1) mod 3
      in cd1\<lparr>envelope_buf := buf, envelope := env, prev_env_pos := pos,
             prev_env_vals := (prev_env_vals cd)[unat pos := env]\<rparr>)"
proof -
  from assms have s: "snd (ensure_env_buffer ok cd n)" by (simp add: ensure_env_buffer_succeeds)
  have f: "prev_env_pos (fst (ensure_env_buffer ok cd n)) = prev_env_pos cd"
    "prev_env_vals (fst (ensure_env_buffer ok cd n)) = prev_env_vals cd"
    by (auto simp: ensure_env_buffer_def)
  show ?thesis
    using assms(1) s f by (simp add: analyze_envelope_alt Let_def)
qed

lemma analyze_envelope_skipped:
  assumes "\<not> (0 < n \<and> (ok \<or> n \<le> length (envelope_buf cd)))"
  shows "analyze_envelope ok cd samples n =
           (if n = 0 then cd else cd\<lparr>envelope_buf := envelope_buf (fst (ensure_env_buffer ok cd n))\<rparr>)"
proof (cases "n = 0")
  case True
  then show ?thesis by (simp add: analyze_envelope_def)
next
  case False
  with assms have "\<not> snd (ensure_env_buffer ok cd n)" by (simp add: ensure_env_buffer_succeeds)
  then show ?thesis using False ensure_env_buffer_frame [of ok cd n]
    by (simp add: analyze_envelope_alt)
qed

text \<open>
  Claim C8.  Starting from a state whose stored envelope is finite and not negative,
  after \<^verbatim>\<open>analyze_envelope\<close> the stored envelope is finite and not negative, and each of the
  first \<open>n\<close> entries of the envelope buffer is coerced (exactly 0, or finite and at least
  \<open>\<epsilon>\<close>).  When the block is processed (\<open>n > 0\<close> and the buffer is large enough or can be
  reallocated) the buffer has at least \<open>n\<close> entries, the stored envelope is its entry
  \<open>n - 1\<close>, and that value is the one pushed into the history ring at the advanced cursor;
  otherwise envelope and history are unchanged.  Every smoothed value is coerced.
\<close>

theorem analyze_envelope_invariant:
  assumes "finite_nonneg (envelope cd)"
  shows "finite_nonneg (envelope (analyze_envelope ok cd samples n))
    \<and> (\<forall>j < n. j < length (envelope_buf (analyze_envelope ok cd samples n)) \<longrightarrow>
           coerced_env (envelope_buf (analyze_envelope ok cd samples n) ! j))
    \<and> (if 0 < n \<and> (ok \<or> n \<le> length (envelope_buf cd))
       then n \<le> length (envelope_buf (analyze_envelope ok cd samples n))
          \<and> coerced_env (envelope (analyze_envelope ok cd samples n))
          \<and> envelope (analyze_envelope ok cd samples n) =
              envelope_buf (analyze_envelope ok cd samples n) ! (n - 1)
          \<and> prev_env_pos (analyze_envelope ok cd samples n) = (prev_env_pos cd + 1) mod 3
          \<and> prev_env_vals (analyze_envelope ok cd samples n) =
              (prev_env_vals cd)[unat ((prev_env_pos cd + 1) mod 3) :=
                 envelope (analyze_envelope ok cd samples n)]
       else envelope (analyze_envelope ok cd samples n) = envelope cd
          \<and> prev_env_pos (analyze_envelope ok cd samples n) = prev_env_pos cd
          \<and> prev_env_vals (analyze_envelope ok cd samples n) = prev_env_vals cd)
    \<and> (\<forall>x c. coerced_env (smooth_step cd x c))"
proof (cases "0 < n \<and> (ok \<or> n \<le> length (envelope_buf cd))")
  case True
  let ?cd1 = "fst (ensure_env_buffer ok cd n)"
  let ?buf = "analyzed_buf ?cd1 samples n"
  from True have "snd (ensure_env_buffer ok cd n)" by (simp add: ensure_env_buffer_succeeds)
  then have "n \<le> length (envelope_buf ?cd1)" by (rule ensure_env_buffer_length)
  then have okb: "env_buf_ok n ?buf" by (rule analyzed_buf_ok)
  with True have last: "coerced_env (?buf ! (n - 1))" by (simp add: env_buf_ok_def)
  then have fin: "isfinite (?buf ! (n - 1))"
    by (cases "?buf ! (n - 1)") (simp_all add: coerced_env_def)
  have eq: "analyze_envelope ok cd samples n =
      ?cd1\<lparr>envelope_buf := ?buf, envelope := ?buf ! (n - 1),
            prev_env_pos := (prev_env_pos cd + 1) mod 3,
            prev_env_vals := (prev_env_vals cd)[unat ((prev_env_pos cd + 1) mod 3) := ?buf ! (n - 1)]\<rparr>"
    using True fin by (simp add: analyze_envelope_processed Let_def)
  show ?thesis
    unfolding eq using True okb last smooth_step_coerced
    by (simp add: env_buf_ok_def coerced_env_finite_nonneg)
next
  case False
  have "\<forall>j < n. j < length (envelope_buf (analyze_envelope ok cd samples n)) \<longrightarrow>
           coerced_env (envelope_buf (analyze_envelope ok cd samples n) ! j)"
  proof (cases "n = 0")
    case True
    then show ?thesis by simp
  next
    case n: False
    with False have "\<not> ok" "length (envelope_buf cd) < n" by auto
    then have "envelope_buf (fst (ensure_env_buffer ok cd n)) = []"
      by (simp add: ensure_env_buffer_def)
    then show ?thesis using n by (simp add: analyze_envelope_skipped [OF False])
  qed
  then show ?thesis
    unfolding if_not_P [OF False]
    using assms smooth_step_coerced by (simp add: analyze_envelope_skipped [OF False])
qed

lemma ex_env_analysis:
  "analyze_envelope True ex_env_state [Some [Num 1, Num 1]] 2 =
     ex_env_state\<lparr>envelope_buf := [Num (1 / 2), Num (3 / 4)], envelope := Num (3 / 4),
                  prev_env_pos := 1, prev_env_vals := [Num 0, Num (3 / 4), Num 0]\<rparr>"
  by (simp add: analyze_envelope_def ensure_env_buffer_def ex_env_state_def zero_data_def
      env_channel_def env_sample_def smooth_step_def input_env_at_def current_release_coeff_def
      plane_def MAX_AUDIO_CHANNELS_def NUM_ENV_HISTORY_def SMALL_EPSILON_def Let_def upt_rec
      numeral_2_eq_2 numeral_3_eq_3)

text \<open>The theorem on a block of two samples of level 1 in \<open>ex_env_state\<close>: the envelope rises
  to 1/2 and 3/4.\<close>

theorem analyze_envelope_witness:
  "analyze_envelope True ex_env_state [Some [Num 1, Num 1]] 2 =
     ex_env_state\<lparr>envelope_buf := [Num (1 / 2), Num (3 / 4)], envelope := Num (3 / 4),
                  prev_env_pos := 1, prev_env_vals := [Num 0, Num (3 / 4), Num 0]\<rparr>
   \<and> finite_nonneg (envelope (analyze_envelope True ex_env_state [Some [Num 1, Num 1]] 2))
   \<and> coerced_env (envelope_buf (analyze_envelope True ex_env_state [Some [Num 1, Num 1]] 2) ! 0)
   \<and> coerced_env (envelope_buf (analyze_envelope True ex_env_state [Some [Num 1, Num 1]] 2) ! 1)"
proof -
  have h: "finite_nonneg (envelope ex_env_state)"
    by (simp add: ex_env_state_def zero_data_def finite_nonneg_def)
  note inv = analyze_envelope_invariant [OF h, of True "[Some [Num 1, Num 1]]" 2]
  from inv have a: "finite_nonneg (envelope (analyze_envelope True ex_env_state [Some [Num 1, Num 1]] 2))"
    by blast
  from inv have b: "\<forall>j < 2. j < length (envelope_buf (analyze_envelope True ex_env_state [Some [Num 1, Num 1]] 2)) \<longrightarrow>
           coerced_env (envelope_buf (analyze_envelope True ex_env_state [Some [Num 1, Num 1]] 2) ! j)"
    by blast
  have len: "length (envelope_buf (analyze_envelope True ex_env_state [Some [Num 1, Num 1]] 2)) = 2"
    by (simp add: ex_env_analysis)
  from b len have "coerced_env (envelope_buf (analyze_envelope True ex_env_state [Some [Num 1, Num 1]] 2) ! 0)"
    "coerced_env (envelope_buf (analyze_envelope True ex_env_state [Some [Num 1, Num 1]] 2) ! 1)"
    by simp_all
  with a ex_env_analysis show ?thesis by blast
qed

subsection \<open>The delay step\<close>

lemma delay_channel_inactive [simp]: "delay_channel n c (False, cbs, samples) = (False, cbs, samples)"
  by (simp add: delay_channel_def)

lemma delay_channel_skip:
  "c \<ge> MAX_AUDIO_CHANNELS \<or> plane samples c = None \<Longrightarrow>
   delay_channel n c (True, cbs, samples) = (True, cbs, samples)"
  by (auto simp: delay_channel_def)

lemma delay_channel_push_pop:
  assumes "c < MAX_AUDIO_CHANNELS" and "plane samples c = Some xs" and "cb_data (cbs ! c) \<noteq> []"
  shows "delay_channel n c (True, cbs, samples) =
     (True,
      cbs[c := \<lparr>cb_data = ring_after (cb_data (cbs ! c)) xs n,
                cb_capacity = max (cb_capacity (cbs ! c))
                                (4 * length (cb_data (cbs ! c) @ take n xs))\<rparr>],
      samples[c := Some (delayed_block (cb_data (cbs ! c)) xs n)])"
  using assms
  by (simp add: delay_channel_def circlebuf_push_back_def circlebuf_pop_front_def
      delayed_block_def ring_after_def Let_def)

lemma fold_delay_channel:
  assumes ne: "\<forall>c < m. c < MAX_AUDIO_CHANNELS \<longrightarrow> plane samples c \<noteq> None \<longrightarrow> cb_data (cbs ! c) \<noteq> []"
    and len: "MAX_AUDIO_CHANNELS \<le> length cbs"
  shows "\<exists>cbs' samples'.
     fold (delay_channel n) [0..<m] (True, cbs, samples) = (True, cbs', samples') \<and>
     length cbs' = length cbs \<and>
     (\<forall>c < length cbs. cb_data (cbs' ! c) =
        (if c < m \<and> c < MAX_AUDIO_CHANNELS
         then (case plane samples c of
                 Some xs \<Rightarrow> ring_after (cb_data (cbs ! c)) xs n
               | None \<Rightarrow> cb_data (cbs ! c))
         else cb_data (cbs ! c))) \<and>
     (\<forall>c. plane samples' c =
        (if c < m \<and> c < MAX_AUDIO_CHANNELS
         then map_option (\<lambda>xs. delayed_block (cb_data (cbs ! c)) xs n) (plane samples c)
         else plane samples c))"
  using ne
proof (induction m)
  case 0
  then show ?case by simp
next
  case (Suc m)
  then obtain cbs' samples' where
    f: "fold (delay_channel n) [0..<m] (True, cbs, samples) = (True, cbs', samples')"
    and l: "length cbs' = length cbs"
    and r: "\<forall>c < length cbs. cb_data (cbs' ! c) =
        (if c < m \<and> c < MAX_AUDIO_CHANNELS
         then (case plane samples c of
                 Some xs \<Rightarrow> ring_after (cb_data (cbs ! c)) xs n
               | None \<Rightarrow> cb_data (cbs ! c))
         else cb_data (cbs ! c))"
    and p: "\<forall>c. plane samples' c =
        (if c < m \<and> c < MAX_AUDIO_CHANNELS
         then map_option (\<lambda>xs. delayed_block (cb_data (cbs ! c)) xs n) (plane samples c)
         else plane samples c)"
    by auto
  have step: "fold (delay_channel n) [0..<Suc m] (True, cbs, samples) =
      delay_channel n m (True, cbs', samples')"
    by (simp add: f)
  show ?case
  proof (cases "m < MAX_AUDIO_CHANNELS \<and> plane samples m \<noteq> None")
    case False
    then have "m \<ge> MAX_AUDIO_CHANNELS \<or> plane samples' m = None" using p by auto
    then have "delay_channel n m (True, cbs', samples') = (True, cbs', samples')"
      by (rule delay_channel_skip)
    with step l r p False show ?thesis
      by (auto simp: less_Suc_eq split: option.splits)
  next
    case True
    then obtain xs where xs: "plane samples m = Some xs" and m8: "m < MAX_AUDIO_CHANNELS" by auto
    then have pm: "plane samples' m = Some xs" using p by simp
    have ml: "m < length cbs" using m8 len by simp
    then have dm: "cb_data (cbs' ! m) = cb_data (cbs ! m)" using r by simp
    have "cb_data (cbs ! m) \<noteq> []" using Suc.prems xs m8 by simp
    then have ne': "cb_data (cbs' ! m) \<noteq> []" using dm by simp
    note dc = delay_channel_push_pop [OF m8 pm ne', of n]
    have pl: "plane (samples'[m := Some (delayed_block (cb_data (cbs' ! m)) xs n)]) c =
         (if c < Suc m \<and> c < MAX_AUDIO_CHANNELS
          then map_option (\<lambda>xs. delayed_block (cb_data (cbs ! c)) xs n) (plane samples c)
          else plane samples c)" for c
    proof -
      have "m < length samples'" using pm by (rule plane_Some_length)
      then show ?thesis using p xs dm m8 by (auto simp: plane_update less_Suc_eq)
    qed
    have rl: "cb_data ((cbs'[m := \<lparr>cb_data = ring_after (cb_data (cbs' ! m)) xs n,
                cb_capacity = max (cb_capacity (cbs' ! m))
                                (4 * length (cb_data (cbs' ! m) @ take n xs))\<rparr>]) ! c) =
        (if c < Suc m \<and> c < MAX_AUDIO_CHANNELS
         then (case plane samples c of
                 Some xs \<Rightarrow> ring_after (cb_data (cbs ! c)) xs n
               | None \<Rightarrow> cb_data (cbs ! c))
         else cb_data (cbs ! c))" if "c < length cbs" for c
      using that r l xs dm m8 by (auto simp: nth_list_update less_Suc_eq)
    show ?thesis
      unfolding step dc using l rl pl by simp
  qed
qed

subsection \<open>The samples written back\<close>

lemma analyze_envelope_fields [simp]:
  "num_channels (analyze_envelope ok cd samples n) = num_channels cd"
  "lookahead_circbuf (analyze_envelope ok cd samples n) = lookahead_circbuf cd"
  "threshold_db (analyze_envelope ok cd samples n) = threshold_db cd"
  "output_gain (analyze_envelope ok cd samples n) = output_gain cd"
  "lookahead_samples (analyze_envelope ok cd samples n) = lookahead_samples cd"
  "lookahead_enabled (analyze_envelope ok cd samples n) = lookahead_enabled cd"
  "lookahead_buffers_initialized (analyze_envelope ok cd samples n) = lookahead_buffers_initialized cd"
  "sample_rate (analyze_envelope ok cd samples n) = sample_rate cd"
  by (simp_all add: analyze_envelope_alt ensure_env_buffer_def Let_def)

lemma analyze_envelope_buf_length:
  "0 < n \<Longrightarrow> ok \<or> n \<le> length (envelope_buf cd) \<Longrightarrow>
   n \<le> length (envelope_buf (analyze_envelope ok cd samples n))"
proof -
  assume a: "0 < n" "ok \<or> n \<le> length (envelope_buf cd)"
  then have "snd (ensure_env_buffer ok cd n)" by (simp add: ensure_env_buffer_succeeds)
  then have "n \<le> length (envelope_buf (fst (ensure_env_buffer ok cd n)))"
    by (rule ensure_env_buffer_length)
  then have "env_buf_ok n (analyzed_buf (fst (ensure_env_buffer ok cd n)) samples n)"
    by (rule analyzed_buf_ok)
  then show ?thesis using a by (simp add: analyze_envelope_processed Let_def env_buf_ok_def)
qed

lemma analyze_envelope_buf_empty:
  "0 < n \<Longrightarrow> \<not> (ok \<or> n \<le> length (envelope_buf cd)) \<Longrightarrow>
   envelope_buf (analyze_envelope ok cd samples n) = []"
  by (simp add: analyze_envelope_alt ensure_env_buffer_def)

lemma delay_channel_finite:
  assumes "rings_finite (fst (snd st))" and "all_finite (snd (snd st))"
    and "MAX_AUDIO_CHANNELS \<le> length (fst (snd st))"
  shows "rings_finite (fst (snd (delay_channel n c st))) \<and>
         all_finite (snd (snd (delay_channel n c st)))"
proof -
  obtain act cbs samples where st: "st = (act, cbs, samples)" by (cases st) auto
  show ?thesis
  proof (cases "act \<and> c < MAX_AUDIO_CHANNELS \<and> plane samples c \<noteq> None
                 \<and> \<not> (cb_data (cbs ! c) = [] \<and> cb_capacity (cbs ! c) = 0)")
    case False
    then have "delay_channel n c st = st \<or> delay_channel n c st = (False, cbs, samples)"
      by (auto simp: st delay_channel_def split: option.splits)
    then show ?thesis using assms st by auto
  next
    case True
    then obtain xs where xs: "plane samples c = Some xs" by auto
    from xs have cl: "c < length samples" by (rule plane_Some_length)
    have fx: "\<forall>x \<in> set xs. isfinite x" using assms(2) xs by (auto simp: st all_finite_def)
    have dc: "delay_channel n c st =
        (True, cbs[c := \<lparr>cb_data = ring_after (cb_data (cbs ! c)) xs n,
                cb_capacity = max (cb_capacity (cbs ! c))
                                (4 * length (cb_data (cbs ! c) @ take n xs))\<rparr>],
         samples[c := Some (delayed_block (cb_data (cbs ! c)) xs n)])"
      using True xs
      by (simp add: st delay_channel_def circlebuf_push_back_def circlebuf_pop_front_def
          delayed_block_def ring_after_def Let_def)
    have cb: "c < length cbs" using True assms(3) by (simp add: st)
    show ?thesis
    proof -
      from cb have fq: "\<forall>x \<in> set (cb_data (cbs ! c)). isfinite x"
        using assms(1) by (auto simp: st rings_finite_def)
      have f1: "\<forall>x \<in> set (ring_after (cb_data (cbs ! c)) xs n). isfinite x"
        using fq fx by (auto simp: ring_after_def dest!: in_set_dropD in_set_takeD)
      have f2: "\<forall>x \<in> set (delayed_block (cb_data (cbs ! c)) xs n). isfinite x"
        using fq fx by (auto simp: delayed_block_def dest!: in_set_dropD in_set_takeD)
      have "rings_finite (cbs[c := \<lparr>cb_data = ring_after (cb_data (cbs ! c)) xs n,
                cb_capacity = max (cb_capacity (cbs ! c))
                                (4 * length (cb_data (cbs ! c) @ take n xs))\<rparr>])"
        using assms(1) f1 by (auto simp: st rings_finite_def dest!: set_update_subset_insert [THEN subsetD])
      moreover have "all_finite (samples[c := Some (delayed_block (cb_data (cbs ! c)) xs n)])"
        using assms(2) f2 by (auto simp: st all_finite_def plane_update split: if_splits)
      ultimately show ?thesis by (simp add: dc)
    qed
  qed
qed

lemma delay_channel_length:
  "length (fst (snd (delay_channel n c st))) = length (fst (snd st))"
  by (cases st) (auto simp: delay_channel_def Let_def split: option.splits)

lemma fold_delay_finite:
  assumes "rings_finite cbs" and "all_finite samples" and "MAX_AUDIO_CHANNELS \<le> length cbs"
  shows "rings_finite (fst (snd (fold (delay_channel n) [0..<m] (act, cbs, samples)))) \<and>
         all_finite (snd (snd (fold (delay_channel n) [0..<m] (act, cbs, samples)))) \<and>
         length (fst (snd (fold (delay_channel n) [0..<m] (act, cbs, samples)))) = length cbs"
proof (induction m)
  case 0
  then show ?case using assms by simp
next
  case (Suc m)
  then show ?case using assms(3) by (simp add: delay_channel_finite delay_channel_length)
qed

lemma process_compression_skipped:
  "envelope_buf cd = [] \<Longrightarrow> process_compression cd samples n = samples"
  by (simp add: process_compression_def)

lemma apply_lookahead_finite:
  assumes "rings_finite (lookahead_circbuf cd)" and "all_finite samples"
    and "MAX_AUDIO_CHANNELS \<le> length (lookahead_circbuf cd)"
  shows "rings_finite (fst (apply_lookahead act cd samples n)) \<and>
         all_finite (snd (apply_lookahead act cd samples n))"
  using assms fold_delay_finite [OF assms, of n "num_channels cd" True]
  by (simp add: apply_lookahead_def)

lemma apply_lookahead_inactive [simp]:
  "apply_lookahead False cd samples n = (lookahead_circbuf cd, samples)"
  by (simp add: apply_lookahead_def)

lemma filter_audio_runs:
  assumes "0 < frames audio" "sample_rate cd \<noteq> 0" "0 < num_channels cd"
  shows "limiter_v2_filter_audio ok cd audio =
     (let cd1 = analyze_envelope ok cd (data audio) (frames audio);
          d = apply_lookahead (lookahead_active cd) cd (data audio) (frames audio);
          cd2 = cd1\<lparr>lookahead_circbuf := fst d\<rparr>
      in (cd2, audio\<lparr>data := process_compression cd2 (snd d) (frames audio)\<rparr>))"
  using assms
  by (simp add: limiter_v2_filter_audio_def apply_lookahead_def lookahead_active_def Let_def)

text \<open>
  Claim C2, amended.  For every block and every setting of lookahead, true peak and adaptive
  release: a block with no frames, or a filter with a sample rate or channel count of 0,
  leaves state and block unchanged.  Otherwise, when the envelope buffer is available (it
  is large enough already, or its reallocation succeeds), the sample written back at each
  index below \<open>frames\<close> of each active channel is 0 if the delayed sample is not finite and
  otherwise the delayed sample multiplied by the final gain of that index, and this gain
  is finite (a gain that is not finite has been replaced by 0); the product itself is not
  tested by \<^verbatim>\<open>process_compression\<close> and nothing is stated about it.  When the envelope
  buffer is not available, the block written back is the output of the delay line,
  unprocessed.  The output of the delay line is finite if all input samples are finite
  and lookahead is inactive or all samples held in the rings are finite; and finite input
  keeps the rings finite.
\<close>

theorem filter_audio_written_samples:
  "(frames audio = 0 \<or> sample_rate cd = 0 \<or> num_channels cd = 0 \<longrightarrow>
      limiter_v2_filter_audio ok cd audio = (cd, audio)) \<and>
   (0 < frames audio \<and> sample_rate cd \<noteq> 0 \<and> 0 < num_channels cd \<and>
    envelope_available ok cd audio \<longrightarrow>
      (\<forall>c ds. plane (delayed_input cd audio) c = Some ds \<longrightarrow>
         (if c < num_channels cd \<and> c < MAX_AUDIO_CHANNELS
          then \<exists>ys. plane (data (snd (limiter_v2_filter_audio ok cd audio))) c = Some ys \<and>
                 length ys = length ds \<and>
                 (\<forall>j < length ds.
                    ys ! j =
                      (if j < frames audio
                       then apply_gain_spec
                              (final_gain (fst (limiter_v2_filter_audio ok cd audio))
                                 (envelope_buf (fst (limiter_v2_filter_audio ok cd audio)) ! j))
                              (ds ! j)
                       else ds ! j) \<and>
                    isfinite (final_gain (fst (limiter_v2_filter_audio ok cd audio))
                                (envelope_buf (fst (limiter_v2_filter_audio ok cd audio)) ! j)))
          else plane (data (snd (limiter_v2_filter_audio ok cd audio))) c = Some ds))) \<and>
   (0 < frames audio \<and> sample_rate cd \<noteq> 0 \<and> 0 < num_channels cd \<and>
    \<not> envelope_available ok cd audio \<longrightarrow>
      data (snd (limiter_v2_filter_audio ok cd audio)) = delayed_input cd audio) \<and>
   (all_finite (data audio) \<and> length (lookahead_circbuf cd) = MAX_AUDIO_CHANNELS \<and>
    (\<not> lookahead_active cd \<or> rings_finite (lookahead_circbuf cd)) \<longrightarrow>
      all_finite (delayed_input cd audio)) \<and>
   (all_finite (data audio) \<and> length (lookahead_circbuf cd) = MAX_AUDIO_CHANNELS \<and>
    rings_finite (lookahead_circbuf cd) \<longrightarrow>
      rings_finite (lookahead_circbuf (fst (limiter_v2_filter_audio ok cd audio))))"
proof -
  let ?n = "frames audio"
  let ?r = "limiter_v2_filter_audio ok cd audio"
  let ?cd1 = "analyze_envelope ok cd (data audio) ?n"
  let ?d = "apply_lookahead (lookahead_active cd) cd (data audio) ?n"
  let ?cd2 = "?cd1\<lparr>lookahead_circbuf := fst ?d\<rparr>"
  have A: "frames audio = 0 \<or> sample_rate cd = 0 \<or> num_channels cd = 0 \<longrightarrow> ?r = (cd, audio)"
    by (simp add: limiter_v2_filter_audio_def)
  have res: "?r = (?cd2, audio\<lparr>data := process_compression ?cd2 (snd ?d) ?n\<rparr>)"
    if "0 < ?n" "sample_rate cd \<noteq> 0" "0 < num_channels cd"
    using filter_audio_runs [OF that, of ok] by (simp add: Let_def)
  have B: "\<forall>c ds. plane (delayed_input cd audio) c = Some ds \<longrightarrow>
         (if c < num_channels cd \<and> c < MAX_AUDIO_CHANNELS
          then \<exists>ys. plane (data (snd ?r)) c = Some ys \<and> length ys = length ds \<and>
                 (\<forall>j < length ds.
                    ys ! j =
                      (if j < ?n
                       then apply_gain_spec (final_gain (fst ?r) (envelope_buf (fst ?r) ! j)) (ds ! j)
                       else ds ! j) \<and>
                    isfinite (final_gain (fst ?r) (envelope_buf (fst ?r) ! j)))
          else plane (data (snd ?r)) c = Some ds)"
    if run: "0 < ?n" "sample_rate cd \<noteq> 0" "0 < num_channels cd"
      and av: "envelope_available ok cd audio"
  proof (intro allI impI)
    fix c ds
    assume ds: "plane (delayed_input cd audio) c = Some ds"
    then have ds': "plane (snd ?d) c = Some ds" by (simp add: delayed_input_def)
    have e1: "fst ?r = ?cd2" and e2: "data (snd ?r) = process_compression ?cd2 (snd ?d) ?n"
      by (simp_all add: res [OF run])
    have len: "?n \<le> length (envelope_buf ?cd2)"
      using analyze_envelope_buf_length [OF run(1), of ok cd "data audio"] av
      by (simp add: envelope_available_def)
    show "if c < num_channels cd \<and> c < MAX_AUDIO_CHANNELS
          then \<exists>ys. plane (data (snd ?r)) c = Some ys \<and> length ys = length ds \<and>
                 (\<forall>j < length ds.
                    ys ! j =
                      (if j < ?n
                       then apply_gain_spec (final_gain (fst ?r) (envelope_buf (fst ?r) ! j)) (ds ! j)
                       else ds ! j) \<and>
                    isfinite (final_gain (fst ?r) (envelope_buf (fst ?r) ! j)))
          else plane (data (snd ?r)) c = Some ds"
    proof (cases "c < num_channels cd \<and> c < MAX_AUDIO_CHANNELS")
      case True
      then have c: "c < num_channels ?cd2" "c < MAX_AUDIO_CHANNELS" by simp_all
      from process_compression_plane [OF c ds' run(1) len]
      show ?thesis unfolding e1 e2 using True by (auto simp: final_gain_isfinite)
    next
      case False
      then have "\<not> (c < num_channels ?cd2 \<and> c < MAX_AUDIO_CHANNELS)" by simp
      then have "plane (process_compression ?cd2 (snd ?d) ?n) c = plane (snd ?d) c"
        by (rule process_compression_other_plane)
      then show ?thesis unfolding if_not_P [OF False] e2 using ds' by simp
    qed
  qed
  have C: "data (snd ?r) = delayed_input cd audio"
    if run: "0 < ?n" "sample_rate cd \<noteq> 0" "0 < num_channels cd"
      and av: "\<not> envelope_available ok cd audio"
  proof -
    have "envelope_buf ?cd2 = []"
      using analyze_envelope_buf_empty [OF run(1), of ok cd "data audio"] av
      by (simp add: envelope_available_def)
    then have "process_compression ?cd2 (snd ?d) ?n = snd ?d"
      by (rule process_compression_skipped)
    then show ?thesis by (simp add: res [OF run] delayed_input_def)
  qed
  have D: "all_finite (delayed_input cd audio)"
    if "all_finite (data audio)" "length (lookahead_circbuf cd) = MAX_AUDIO_CHANNELS"
      "\<not> lookahead_active cd \<or> rings_finite (lookahead_circbuf cd)"
  proof (cases "lookahead_active cd")
    case False
    then show ?thesis using that(1) by (simp add: delayed_input_def)
  next
    case True
    with that(3) have "rings_finite (lookahead_circbuf cd)" by simp
    from apply_lookahead_finite [OF this that(1), of "lookahead_active cd" ?n] that(2)
    show ?thesis by (simp add: delayed_input_def)
  qed
  have E: "rings_finite (lookahead_circbuf (fst ?r))"
    if "all_finite (data audio)" "length (lookahead_circbuf cd) = MAX_AUDIO_CHANNELS"
      "rings_finite (lookahead_circbuf cd)"
  proof (cases "0 < ?n \<and> sample_rate cd \<noteq> 0 \<and> 0 < num_channels cd")
    case True
    then have "lookahead_circbuf (fst ?r) = fst ?d" by (simp add: res)
    then show ?thesis
      using apply_lookahead_finite [OF that(3) that(1), of "lookahead_active cd" ?n] that(2)
      by simp
  next
    case False
    then have "?r = (cd, audio)" using A by auto
    then show ?thesis using that(3) by simp
  qed
  show ?thesis using A B C D E by blast
qed

lemmas update_defs = limiter_v2_create_def limiter_v2_update_def
      update_format_def update_settings_def update_coefficients_def reset_lookahead_buffers_def
      new_lookahead_samples_def init_env_buffer_def
      zero_data_def Let_def MAX_AUDIO_CHANNELS_def f_ne_def f_ge_def
      MAX_LOOKAHEAD_MS_def MIN_LOOKAHEAD_MS_def MIN_RELEASE_MS_def MAX_RELEASE_MS_def
      FIXED_ATTACK_TIME_MS_def NUM_ENV_HISTORY_def INITIAL_ENV_BUF_MS_def MS_IN_S_F_def
      of_u32_def of_size_def
      update_lookahead_buffers_def init_lookahead_channel_def circlebuf_reserve_def
      circlebuf_zero_def circlebuf_push_back_def circlebuf_free_def ensure_env_buffer_def
      upt_rec

lemma ex_created_fail:
  "ex_created ex_alloc_fail =
     zero_data\<lparr>threshold_db := Num (- 6), release_time_ms := Num 60, output_gain_db := Num 0,
       lookahead_enabled := True, lookahead_time_ms := Num (1 / 10),
       attack_coeff := gain_coefficient 10000 (Num 1),
       release_coeff := gain_coefficient 10000 (Num 60),
       output_gain := Num 1,
       lookahead_circbuf := (replicate MAX_AUDIO_CHANNELS circlebuf_zero)
          [0 := \<lparr>cb_data = [Num 0], cb_capacity = 808\<rparr>],
       lookahead_samples := 1, lookahead_buffers_initialized := True,
       sample_rate := 10000, num_channels := 1\<rparr>"
  by (simp add: ex_created_def ex_alloc_fail_def ex_settings_def update_defs)

lemma ex_created_ok:
  "ex_created ex_alloc_ok =
     zero_data\<lparr>threshold_db := Num (- 6), release_time_ms := Num 60, output_gain_db := Num 0,
       lookahead_enabled := True, lookahead_time_ms := Num (1 / 10),
       attack_coeff := gain_coefficient 10000 (Num 1),
       release_coeff := gain_coefficient 10000 (Num 60),
       output_gain := Num 1,
       envelope_buf := replicate 200 (Num 0),
       lookahead_circbuf := (replicate MAX_AUDIO_CHANNELS circlebuf_zero)
          [0 := \<lparr>cb_data = [Num 0], cb_capacity = 808\<rparr>],
       lookahead_samples := 1, lookahead_buffers_initialized := True,
       sample_rate := 10000, num_channels := 1\<rparr>"
  by (simp add: ex_created_def ex_alloc_ok_def ex_settings_def update_defs)

lemmas filter_defs = limiter_v2_filter_audio_def analyze_envelope_def ensure_env_buffer_def
  apply_lookahead_def delay_channel_def circlebuf_push_back_def circlebuf_pop_front_def
  process_compression_def plane_def zero_data_def MAX_AUDIO_CHANNELS_def circlebuf_zero_def
  Let_def upt_rec

lemma ex_stale_state_eq:
  "ex_stale_state = (ex_created ex_alloc_fail)
     \<lparr>lookahead_circbuf := (replicate MAX_AUDIO_CHANNELS circlebuf_zero)
          [0 := \<lparr>cb_data = [NaN], cb_capacity = 808\<rparr>]\<rparr>"
  by (simp add: ex_stale_state_def ex_created_fail filter_defs)

lemma ex_stale_first_output:
  "snd (limiter_v2_filter_audio False (ex_created ex_alloc_fail) \<lparr>data = [Some [NaN]], frames = 1\<rparr>)
     = \<lparr>data = [Some [Num 0]], frames = 1\<rparr>"
  by (simp add: ex_created_fail filter_defs)

text \<open>The theorem on a block without frames and on a one-sample block, in the created
  state with and without an envelope buffer: the sample 0 that the reconfiguration put in
  the ring comes out.\<close>

theorem filter_audio_written_witness:
  "limiter_v2_filter_audio True (ex_created ex_alloc_ok) \<lparr>data = [], frames = 0\<rparr> =
     (ex_created ex_alloc_ok, \<lparr>data = [], frames = 0\<rparr>) \<and>
   envelope_available True (ex_created ex_alloc_ok) \<lparr>data = [Some [Num 1]], frames = 1\<rparr> \<and>
   delayed_input (ex_created ex_alloc_ok) \<lparr>data = [Some [Num 1]], frames = 1\<rparr> = [Some [Num 0]] \<and>
   (\<exists>ys. plane (data (snd (limiter_v2_filter_audio True (ex_created ex_alloc_ok)
                         \<lparr>data = [Some [Num 1]], frames = 1\<rparr>))) 0 = Some ys \<and>
         length ys = 1 \<and> ys ! 0 = Num 0) \<and>
   \<not> envelope_available False (ex_created ex_alloc_fail) \<lparr>data = [Some [Num 1]], frames = 1\<rparr> \<and>
   data (snd (limiter_v2_filter_audio False (ex_created ex_alloc_fail)
                \<lparr>data = [Some [Num 1]], frames = 1\<rparr>)) = [Some [Num 0]] \<and>
   all_finite [Some [Num 0]] \<and>
   rings_finite (lookahead_circbuf (fst (limiter_v2_filter_audio True (ex_created ex_alloc_ok)
       \<lparr>data = [Some [Num 1]], frames = 1\<rparr>)))"
proof -
  let ?A = "\<lparr>data = [Some [Num 1]], frames = 1\<rparr>"
  let ?Z = "\<lparr>data = [] :: cfloat list option list, frames = 0\<rparr>"
  let ?ok = "ex_created ex_alloc_ok"
  let ?fl = "ex_created ex_alloc_fail"
  note t0 = filter_audio_written_samples [of ?Z ?ok True]
  note t1 = filter_audio_written_samples [of ?A ?ok True]
  note t2 = filter_audio_written_samples [of ?A ?fl False]
  have run: "0 < frames ?A" "sample_rate ?ok \<noteq> 0" "0 < num_channels ?ok"
    "sample_rate ?fl \<noteq> 0" "0 < num_channels ?fl" "num_channels ?ok = 1"
    by (simp_all add: ex_created_ok ex_created_fail)
  have av: "envelope_available True ?ok ?A" "\<not> envelope_available False ?fl ?A"
    by (simp_all add: envelope_available_def ex_created_fail zero_data_def)
  have d: "delayed_input ?ok ?A = [Some [Num 0]]" "delayed_input ?fl ?A = [Some [Num 0]]"
    by (simp_all add: delayed_input_def lookahead_active_def ex_created_ok ex_created_fail
        filter_defs)
  have fin: "all_finite (data ?A)" "all_finite [Some [Num 0]]"
    by (auto simp: all_finite_def plane_def split: if_splits)
  have wf: "length (lookahead_circbuf ?ok) = MAX_AUDIO_CHANNELS"
    by (simp add: ex_created_ok)
  have rf: "rings_finite (lookahead_circbuf ?ok)"
    by (auto simp: ex_created_ok rings_finite_def MAX_AUDIO_CHANNELS_def
        circlebuf_zero_def zero_data_def eval_nat_numeral)
  have 0: "limiter_v2_filter_audio True ?ok ?Z = (?ok, ?Z)"
    using t0 [THEN conjunct1] by simp
  have p0: "plane (delayed_input ?ok ?A) 0 = Some [Num 0]"
    unfolding d(1) by (simp add: plane_def)
  from t1 [THEN conjunct2, THEN conjunct1] run av(1)
  have "\<forall>c ds. plane (delayed_input ?ok ?A) c = Some ds \<longrightarrow>
         (if c < num_channels ?ok \<and> c < MAX_AUDIO_CHANNELS
          then \<exists>ys. plane (data (snd (limiter_v2_filter_audio True ?ok ?A))) c = Some ys \<and>
                 length ys = length ds \<and>
                 (\<forall>j < length ds.
                    ys ! j =
                      (if j < frames ?A
                       then apply_gain_spec
                              (final_gain (fst (limiter_v2_filter_audio True ?ok ?A))
                                 (envelope_buf (fst (limiter_v2_filter_audio True ?ok ?A)) ! j))
                              (ds ! j)
                       else ds ! j) \<and>
                    isfinite (final_gain (fst (limiter_v2_filter_audio True ?ok ?A))
                                (envelope_buf (fst (limiter_v2_filter_audio True ?ok ?A)) ! j)))
          else plane (data (snd (limiter_v2_filter_audio True ?ok ?A))) c = Some ds)"
    by blast
  from this [rule_format, OF p0] run(6)
  obtain ys where ys: "plane (data (snd (limiter_v2_filter_audio True ?ok ?A))) 0 = Some ys"
    "length ys = 1"
    "ys ! 0 = apply_gain_spec
                (final_gain (fst (limiter_v2_filter_audio True ?ok ?A))
                   (envelope_buf (fst (limiter_v2_filter_audio True ?ok ?A)) ! 0)) (Num 0)"
    "isfinite (final_gain (fst (limiter_v2_filter_audio True ?ok ?A))
                 (envelope_buf (fst (limiter_v2_filter_audio True ?ok ?A)) ! 0))"
    by (auto simp: MAX_AUDIO_CHANNELS_def)
  have z: "apply_gain_spec g (Num 0) = Num 0" if "isfinite g" for g
    using that by (cases g) (simp_all add: apply_gain_spec_def)
  have 1: "\<exists>ys. plane (data (snd (limiter_v2_filter_audio True ?ok ?A))) 0 = Some ys \<and>
         length ys = 1 \<and> ys ! 0 = Num 0"
    using ys z [OF ys(4)] by auto
  have 2: "data (snd (limiter_v2_filter_audio False ?fl ?A)) = [Some [Num 0]]"
    using t2 [THEN conjunct2, THEN conjunct2, THEN conjunct1] run av(2) d(2) by simp
  have 3: "rings_finite (lookahead_circbuf (fst (limiter_v2_filter_audio True ?ok ?A)))"
    using t1 [THEN conjunct2, THEN conjunct2, THEN conjunct2, THEN conjunct2] fin(1) wf rf
    by blast
  from 0 av d(1) 1 2 fin(2) 3 show ?thesis by blast
qed

text \<open>
  Claim C2 as stated fails when the envelope buffer cannot be allocated: then
  \<^verbatim>\<open>analyze_envelope\<close> and \<^verbatim>\<open>process_compression\<close> return early and the block that leaves the
  filter is the delay line's output, unprocessed.  In \<open>ex_stale_state\<close> the ring holds the NaN
  of the preceding block; a finite block goes in and the NaN comes out.
\<close>

theorem filter_audio_stale_nan:
  "all_finite [Some [Num 1]] \<and>
   length (lookahead_circbuf ex_stale_state) = MAX_AUDIO_CHANNELS \<and>
   snd (limiter_v2_filter_audio False ex_stale_state \<lparr>data = [Some [Num 1]], frames = 1\<rparr>)
     = \<lparr>data = [Some [NaN]], frames = 1\<rparr> \<and>
   \<not> all_finite [Some [NaN]]"
proof -
  have a: "all_finite [Some [Num 1]]"
    by (auto simp: all_finite_def plane_def split: if_splits)
  have b: "\<not> all_finite [Some [NaN]]"
    by (auto simp: all_finite_def plane_def intro!: exI [of _ 0])
  have c: "snd (limiter_v2_filter_audio False ex_stale_state \<lparr>data = [Some [Num 1]], frames = 1\<rparr>)
     = \<lparr>data = [Some [NaN]], frames = 1\<rparr>"
    by (simp add: ex_stale_state_eq ex_created_fail filter_defs)
  have d: "length (lookahead_circbuf ex_stale_state) = MAX_AUDIO_CHANNELS"
    by (simp add: ex_stale_state_eq)
  from a b c d show ?thesis by blast
qed

section \<open>The update callback\<close>

subsection \<open>Fields after each phase of the update\<close>

lemma update_format_fields [simp]:
  "num_channels (fst (update_format sr nch cd)) = min nch MAX_AUDIO_CHANNELS"
  "sample_rate (fst (update_format sr nch cd)) = (if sr = 0 then 48000 else sr)"
  "lookahead_circbuf (fst (update_format sr nch cd)) = lookahead_circbuf cd"
  "lookahead_enabled (fst (update_format sr nch cd)) = lookahead_enabled cd"
  "lookahead_time_ms (fst (update_format sr nch cd)) = lookahead_time_ms cd"
  "lookahead_samples (fst (update_format sr nch cd)) = lookahead_samples cd"
  "lookahead_buffers_initialized (fst (update_format sr nch cd)) = lookahead_buffers_initialized cd"
  "envelope_buf (fst (update_format sr nch cd)) = envelope_buf cd"
  by (auto simp: update_format_def Let_def min_def)

lemma update_format_changed:
  "snd (update_format sr nch cd) =
     (sample_rate cd \<noteq> (if sr = 0 then 48000 else sr) \<or> num_channels cd \<noteq> min nch MAX_AUDIO_CHANNELS)"
  by (auto simp: update_format_def Let_def min_def)

lemma f_ne_iff: "f_ne a b = (a = NaN \<or> b = NaN \<or> a \<noteq> b)"
  by (cases a; cases b) (simp_all add: f_ne_def)

lemma clamped_lookahead_range:
  "\<exists>L. (if en \<and> f_lt (fmaxf (Num 0) (fminf MAX_LOOKAHEAD_MS x)) MIN_LOOKAHEAD_MS
         then MIN_LOOKAHEAD_MS
         else if \<not> en then Num 0 else fmaxf (Num 0) (fminf MAX_LOOKAHEAD_MS x)) = Num L
       \<and> (if en then 1 / 10 \<le> L \<and> L \<le> 20 else L = 0)"
  by (cases x)
    (auto simp: MAX_LOOKAHEAD_MS_def MIN_LOOKAHEAD_MS_def fmaxf_def fminf_def
      intro: exI [of _ "1 / 10"])

lemma update_settings_fields [simp]:
  "threshold_db (fst (update_settings s cd)) = s_threshold s"
  "output_gain_db (fst (update_settings s cd)) = s_output_gain s"
  "release_time_ms (fst (update_settings s cd)) = s_release_time s"
  "adaptive_release_enabled (fst (update_settings s cd)) = s_adaptive_release_enabled s"
  "true_peak_enabled (fst (update_settings s cd)) = s_true_peak_enabled s"
  "lookahead_enabled (fst (update_settings s cd)) = s_lookahead_enabled s"
  "num_channels (fst (update_settings s cd)) = num_channels cd"
  "sample_rate (fst (update_settings s cd)) = sample_rate cd"
  "lookahead_circbuf (fst (update_settings s cd)) = lookahead_circbuf cd"
  "lookahead_samples (fst (update_settings s cd)) = lookahead_samples cd"
  "lookahead_buffers_initialized (fst (update_settings s cd)) = lookahead_buffers_initialized cd"
  "envelope_buf (fst (update_settings s cd)) = envelope_buf cd"
  by (auto simp: update_settings_def Let_def)

lemma update_settings_lookahead_time:
  "\<exists>L. lookahead_time_ms (fst (update_settings s cd)) = Num L
       \<and> (if s_lookahead_enabled s then 1 / 10 \<le> L \<and> L \<le> 20 else L = 0)"
proof -
  let ?t = "(if s_lookahead_enabled s
               \<and> f_lt (fmaxf (Num 0) (fminf MAX_LOOKAHEAD_MS (s_lookahead_time_ms s))) MIN_LOOKAHEAD_MS
         then MIN_LOOKAHEAD_MS
         else if \<not> s_lookahead_enabled s then Num 0
              else fmaxf (Num 0) (fminf MAX_LOOKAHEAD_MS (s_lookahead_time_ms s)))"
  have "lookahead_time_ms (fst (update_settings s cd)) = ?t"
    by (auto simp: update_settings_def Let_def f_ne_iff)
  then show ?thesis using clamped_lookahead_range [of "s_lookahead_enabled s" "s_lookahead_time_ms s"]
    by simp
qed

lemma update_settings_changed:
  "snd (update_settings s cd) =
     (lookahead_enabled (fst (update_settings s cd)) \<noteq> lookahead_enabled cd
      \<or> f_ne (lookahead_time_ms (fst (update_settings s cd))) (lookahead_time_ms cd))"
  by (auto simp: update_settings_def Let_def f_ne_iff)

lemma update_coefficients_fields [simp]:
  "threshold_db (update_coefficients cd) = threshold_db cd"
  "output_gain_db (update_coefficients cd) = output_gain_db cd"
  "release_time_ms (update_coefficients cd) =
     fmaxf MIN_RELEASE_MS (fminf MAX_RELEASE_MS (release_time_ms cd))"
  "output_gain (update_coefficients cd) = db_to_mul (output_gain_db cd)"
  "lookahead_enabled (update_coefficients cd) = lookahead_enabled cd"
  "lookahead_time_ms (update_coefficients cd) = lookahead_time_ms cd"
  "num_channels (update_coefficients cd) = num_channels cd"
  "sample_rate (update_coefficients cd) = sample_rate cd"
  "lookahead_circbuf (update_coefficients cd) = lookahead_circbuf cd"
  "lookahead_samples (update_coefficients cd) = lookahead_samples cd"
  "lookahead_buffers_initialized (update_coefficients cd) = lookahead_buffers_initialized cd"
  "envelope_buf (update_coefficients cd) = envelope_buf cd"
  by (simp_all add: update_coefficients_def Let_def)

lemma init_env_buffer_fields [simp]:
  "threshold_db (init_env_buffer ok cd) = threshold_db cd"
  "output_gain_db (init_env_buffer ok cd) = output_gain_db cd"
  "release_time_ms (init_env_buffer ok cd) = release_time_ms cd"
  "output_gain (init_env_buffer ok cd) = output_gain cd"
  "lookahead_enabled (init_env_buffer ok cd) = lookahead_enabled cd"
  "lookahead_time_ms (init_env_buffer ok cd) = lookahead_time_ms cd"
  "num_channels (init_env_buffer ok cd) = num_channels cd"
  "sample_rate (init_env_buffer ok cd) = sample_rate cd"
  "lookahead_circbuf (init_env_buffer ok cd) = lookahead_circbuf cd"
  "lookahead_samples (init_env_buffer ok cd) = lookahead_samples cd"
  "lookahead_buffers_initialized (init_env_buffer ok cd) = lookahead_buffers_initialized cd"
  by (simp_all add: init_env_buffer_def ensure_env_buffer_def Let_def)

lemma update_lookahead_buffers_fields [simp]:
  "threshold_db (fst (update_lookahead_buffers al cd)) = threshold_db cd"
  "output_gain_db (fst (update_lookahead_buffers al cd)) = output_gain_db cd"
  "release_time_ms (fst (update_lookahead_buffers al cd)) = release_time_ms cd"
  "output_gain (fst (update_lookahead_buffers al cd)) = output_gain cd"
  "lookahead_enabled (fst (update_lookahead_buffers al cd)) = lookahead_enabled cd"
  "lookahead_time_ms (fst (update_lookahead_buffers al cd)) = lookahead_time_ms cd"
  "num_channels (fst (update_lookahead_buffers al cd)) = num_channels cd"
  "sample_rate (fst (update_lookahead_buffers al cd)) = sample_rate cd"
  "lookahead_samples (fst (update_lookahead_buffers al cd)) = lookahead_samples cd"
  "envelope_buf (fst (update_lookahead_buffers al cd)) = envelope_buf cd"
  by (simp_all add: update_lookahead_buffers_def Let_def)

lemma reset_lookahead_buffers_fields [simp]:
  "threshold_db (reset_lookahead_buffers al cd) = threshold_db cd"
  "output_gain_db (reset_lookahead_buffers al cd) = output_gain_db cd"
  "release_time_ms (reset_lookahead_buffers al cd) = release_time_ms cd"
  "output_gain (reset_lookahead_buffers al cd) = output_gain cd"
  "lookahead_time_ms (reset_lookahead_buffers al cd) = lookahead_time_ms cd"
  "num_channels (reset_lookahead_buffers al cd) = num_channels cd"
  "sample_rate (reset_lookahead_buffers al cd) = sample_rate cd"
  "envelope_buf (reset_lookahead_buffers al cd) = envelope_buf cd"
  by (simp_all add: reset_lookahead_buffers_def Let_def)

lemma clamped_release_range:
  "\<exists>R. fmaxf MIN_RELEASE_MS (fminf MAX_RELEASE_MS x) = Num R \<and> 1 \<le> R \<and> R \<le> 1000"
  by (cases x) (auto simp: MIN_RELEASE_MS_def MAX_RELEASE_MS_def fmaxf_def fminf_def)

subsection \<open>Which settings are clamped\<close>

text \<open>
  Claim C4. \<open>limiter_v2_update\<close> should clamp every configuration field into its documented
  range. The code clamps \<open>release_time_ms\<close> into [1, 1000] and \<open>lookahead_time_ms\<close> into
  [0.1, 20] (lemma \<open>update_clamps_release_and_lookahead\<close> below), but it stores \<open>threshold_db\<close>
  and \<open>output_gain_db\<close> exactly as read from the settings object, for every settings object
  and every previous state: the constants \<open>MIN_THRESHOLD_DB\<close>, \<open>MAX_THRESHOLD_DB\<close>,
  \<open>MIN_OUTPUT_GAIN_DB\<close> and \<open>MAX_OUTPUT_GAIN_DB\<close> only bound the property sliders.
\<close>

theorem update_keeps_raw_threshold_and_gain:
  "threshold_db (fst (limiter_v2_update al sr nch s cd)) = s_threshold s \<and>
   output_gain_db (fst (limiter_v2_update al sr nch s cd)) = s_output_gain s"
  by (simp add: limiter_v2_update_def Let_def)

text \<open>
  At threshold +5 dB and output gain +40 dB the stored values are 5 and 40, outside
  [-60, 0] and [-20, 20].
\<close>

theorem update_raw_threshold_witness:
  "threshold_db (fst (limiter_v2_update ex_alloc_ok 48000 2 ex_bad_settings zero_data)) = Num 5 \<and>
   output_gain_db (fst (limiter_v2_update ex_alloc_ok 48000 2 ex_bad_settings zero_data)) = Num 40 \<and>
   \<not> f_le (Num 5) (Num 0) \<and> \<not> f_le (Num 40) (Num 20)"
  using update_keeps_raw_threshold_and_gain [of ex_alloc_ok 48000 2 ex_bad_settings zero_data]
  by (simp add: ex_bad_settings_def ex_settings_def)

text \<open>The two fields that the update does clamp, whatever the raw values.\<close>

lemma update_clamps_release_and_lookahead:
  "(\<exists>R. release_time_ms (fst (limiter_v2_update al sr nch s cd)) = Num R \<and> 1 \<le> R \<and> R \<le> 1000) \<and>
   (\<exists>L. lookahead_time_ms (fst (limiter_v2_update al sr nch s cd)) = Num L \<and>
        (lookahead_enabled (fst (limiter_v2_update al sr nch s cd)) \<longrightarrow> 1 / 10 \<le> L \<and> L \<le> 20))"
proof -
  have r: "\<exists>R. release_time_ms (fst (limiter_v2_update al sr nch s cd)) = Num R \<and> 1 \<le> R \<and> R \<le> 1000"
    using clamped_release_range by (simp add: limiter_v2_update_def Let_def)
  obtain L where L: "lookahead_time_ms (fst (update_settings s (fst (update_format sr nch cd)))) = Num L"
    "if s_lookahead_enabled s then 1 / 10 \<le> L \<and> L \<le> 20 else L = 0"
    using update_settings_lookahead_time by blast
  have t: "lookahead_time_ms (fst (limiter_v2_update al sr nch s cd)) = Num L"
    using L(1) by (simp add: limiter_v2_update_def Let_def)
  have "lookahead_enabled (fst (limiter_v2_update al sr nch s cd)) \<longrightarrow> s_lookahead_enabled s"
    by (auto simp: limiter_v2_update_def Let_def reset_lookahead_buffers_def)
  with L(2) t r show ?thesis by auto
qed

subsection \<open>Pre-filling the delay line\<close>

lemma free_lookahead_length [simp]: "length (free_lookahead cd) = length (lookahead_circbuf cd)"
proof -
  have "length (fold (\<lambda>i cbs. if i < MAX_AUDIO_CHANNELS then cbs[i := circlebuf_free (cbs ! i)] else cbs)
       [0..<m] cbs) = length cbs" for m cbs
    by (induction m) simp_all
  then show ?thesis by (simp add: free_lookahead_def)
qed

lemma init_lookahead_channel_length [simp]:
  "length (snd (init_lookahead_channel al req zeros i st)) = length (snd st)"
  by (simp add: init_lookahead_channel_def Let_def)

lemma init_lookahead_channel_success:
  assumes "fst (init_lookahead_channel al req zeros i st)"
  shows "fst st \<and> i < MAX_AUDIO_CHANNELS \<and>
         snd (init_lookahead_channel al req zeros i st) =
           (snd st)[i := \<lparr>cb_data = replicate zeros (Num 0),
                         cb_capacity = max (max req 0) (4 * zeros)\<rparr>]"
  using assms
  by (auto simp: init_lookahead_channel_def circlebuf_reserve_def circlebuf_zero_def
      circlebuf_push_back_def Let_def max_def split: if_splits)

lemma fold_init_lookahead:
  assumes "fst (fold (init_lookahead_channel al req zeros) [0..<m] (True, cbs))"
  shows "m \<le> MAX_AUDIO_CHANNELS \<and>
         length (snd (fold (init_lookahead_channel al req zeros) [0..<m] (True, cbs))) = length cbs \<and>
         (\<forall>c < m. c < length cbs \<longrightarrow>
            cb_data (snd (fold (init_lookahead_channel al req zeros) [0..<m] (True, cbs)) ! c)
              = replicate zeros (Num 0))"
  using assms
proof (induction m)
  case 0
  then show ?case by simp
next
  case (Suc m)
  let ?r = "fold (init_lookahead_channel al req zeros) [0..<m] (True, cbs)"
  from Suc.prems have s: "fst (init_lookahead_channel al req zeros m ?r)" by simp
  note step = init_lookahead_channel_success [OF s]
  from step Suc.IH have IH: "m \<le> MAX_AUDIO_CHANNELS" "length (snd ?r) = length cbs"
    "\<forall>c < m. c < length cbs \<longrightarrow> cb_data (snd ?r ! c) = replicate zeros (Num 0)"
    by simp_all
  have "fold (init_lookahead_channel al req zeros) [0..<Suc m] (True, cbs) =
      init_lookahead_channel al req zeros m ?r" by simp
  then show ?case using step IH by (auto simp: nth_list_update less_Suc_eq)
qed

lemma update_lookahead_buffers_success:
  assumes ok: "snd (update_lookahead_buffers al cd)"
    and en: "lookahead_enabled cd" "0 < lookahead_samples cd" "0 < num_channels cd"
    and wf: "length (lookahead_circbuf cd) = MAX_AUDIO_CHANNELS"
  shows "lookahead_buffers_initialized (fst (update_lookahead_buffers al cd))"
    and "num_channels cd \<le> MAX_AUDIO_CHANNELS"
    and "length (lookahead_circbuf (fst (update_lookahead_buffers al cd))) = MAX_AUDIO_CHANNELS"
    and "\<forall>c < num_channels cd.
           cb_data (lookahead_circbuf (fst (update_lookahead_buffers al cd)) ! c)
             = replicate (lookahead_samples cd) (Num 0)"
proof -
  let ?cbs = "(if lookahead_buffers_initialized cd then free_lookahead cd else lookahead_circbuf cd)"
  obtain req where
    r: "fst (fold (init_lookahead_channel al req (lookahead_samples cd)) [0..<num_channels cd]
              (True, ?cbs))"
    and res: "lookahead_circbuf (fst (update_lookahead_buffers al cd)) =
      snd (fold (init_lookahead_channel al req (lookahead_samples cd)) [0..<num_channels cd]
              (True, ?cbs))"
    and ini: "lookahead_buffers_initialized (fst (update_lookahead_buffers al cd))"
    using ok en
    by (auto simp: update_lookahead_buffers_def Let_def split: if_splits)
  have l: "length ?cbs = MAX_AUDIO_CHANNELS" using wf by simp
  note f = fold_init_lookahead [OF r]
  show "lookahead_buffers_initialized (fst (update_lookahead_buffers al cd))" by (rule ini)
  show n8: "num_channels cd \<le> MAX_AUDIO_CHANNELS" using f by simp
  show "length (lookahead_circbuf (fst (update_lookahead_buffers al cd))) = MAX_AUDIO_CHANNELS"
    using f l by (simp add: res)
  show "\<forall>c < num_channels cd.
           cb_data (lookahead_circbuf (fst (update_lookahead_buffers al cd)) ! c)
             = replicate (lookahead_samples cd) (Num 0)"
    using f l n8 by (simp add: res)
qed

lemma reset_lookahead_enabled:
  assumes "lookahead_enabled (reset_lookahead_buffers al cd)"
  shows "lookahead_enabled cd"
    and "snd (update_lookahead_buffers al (cd\<lparr>lookahead_samples := new_lookahead_samples cd\<rparr>))"
    and "reset_lookahead_buffers al cd =
           fst (update_lookahead_buffers al (cd\<lparr>lookahead_samples := new_lookahead_samples cd\<rparr>))"
  using assms by (auto simp: reset_lookahead_buffers_def Let_def split: if_splits)

lemma if_zero_max: "(if n = 0 then 1 else n) = max 1 (n::nat)"
  by (simp add: max_def)

lemma to_size_at_least_one:
  "(let n = to_size (Num x) in if n = 0 then 1 else n) = max 1 (nat \<lfloor>x\<rfloor>)"
  unfolding Let_def to_size.simps by (rule if_zero_max)

lemma new_lookahead_samples_value:
  assumes "lookahead_enabled cd" and "lookahead_time_ms cd = Num L" and "1 / 10 \<le> L"
    and "sample_rate cd \<noteq> 0" and "0 < num_channels cd"
  shows "new_lookahead_samples cd = max 1 (nat \<lfloor>real (unat (sample_rate cd)) * L / 1000 + 1 / 2\<rfloor>)"
proof -
  have t: "f_add (f_div (f_mul (of_u32 (sample_rate cd)) (lookahead_time_ms cd)) MS_IN_S_F)
             (Num (1 / 2)) = Num (real (unat (sample_rate cd)) * L / 1000 + 1 / 2)"
    using assms(2) by (simp add: MS_IN_S_F_def of_u32_def)
  have c: "lookahead_enabled cd \<and> f_ge (lookahead_time_ms cd) MIN_LOOKAHEAD_MS
         \<and> sample_rate cd > 0 \<and> num_channels cd > 0"
    using assms by (simp add: f_ge_def MIN_LOOKAHEAD_MS_def word_greater_zero_iff)
  show ?thesis
    unfolding new_lookahead_samples_def if_P [OF c] t by (rule to_size_at_least_one)
qed

text \<open>After an update that resets the lookahead and leaves it enabled, every active
  channel's ring holds exactly \<open>lookahead_samples\<close> zeros.\<close>

lemma update_prefills_rings:
  assumes wf: "length (lookahead_circbuf cd) = MAX_AUDIO_CHANNELS"
    and rc: "reconfigures sr nch s cd"
    and nch: "0 < nch"
    and en: "lookahead_enabled (fst (limiter_v2_update al sr nch s cd))"
  shows "\<exists>L. lookahead_time_ms (fst (limiter_v2_update al sr nch s cd)) = Num L
           \<and> 1 / 10 \<le> L \<and> L \<le> 20
           \<and> lookahead_samples (fst (limiter_v2_update al sr nch s cd)) =
               max 1 (nat \<lfloor>real (unat (sample_rate (fst (limiter_v2_update al sr nch s cd)))) * L / 1000 + 1 / 2\<rfloor>)"
    and "lookahead_ready (lookahead_samples (fst (limiter_v2_update al sr nch s cd)))
           (fst (limiter_v2_update al sr nch s cd))"
    and "\<forall>c < num_channels (fst (limiter_v2_update al sr nch s cd)).
           cb_data (lookahead_circbuf (fst (limiter_v2_update al sr nch s cd)) ! c) =
             replicate (lookahead_samples (fst (limiter_v2_update al sr nch s cd))) (Num 0)"
proof -
  let ?cd1 = "update_coefficients (fst (update_settings s (fst (update_format sr nch cd))))"
  let ?cd2 = "reset_lookahead_buffers al ?cd1"
  let ?cd' = "fst (limiter_v2_update al sr nch s cd)"
  let ?cdn = "?cd1\<lparr>lookahead_samples := new_lookahead_samples ?cd1\<rparr>"
  have upd: "?cd' = init_env_buffer (realloc_ok al) ?cd2"
    using rc by (simp add: limiter_v2_update_def reconfigures_def Let_def)
  have en2: "lookahead_enabled ?cd2" using en unfolding upd by simp
  note r = reset_lookahead_enabled [OF en2]
  obtain L where L: "lookahead_time_ms ?cd1 = Num L"
    "if s_lookahead_enabled s then 1 / 10 \<le> L \<and> L \<le> 20 else L = 0"
    using update_settings_lookahead_time [of s "fst (update_format sr nch cd)"] by auto
  have se: "s_lookahead_enabled s" using r(1) by simp
  have rng: "1 / 10 \<le> L" "L \<le> 20" using L(2) se by simp_all
  have sr1: "sample_rate ?cd1 \<noteq> 0" by simp
  have nc1: "0 < num_channels ?cd1" using nch by (simp add: MAX_AUDIO_CHANNELS_def)
  note ns = new_lookahead_samples_value [OF r(1) L(1) rng(1) sr1 nc1]
  have pos: "0 < new_lookahead_samples ?cd1" unfolding ns by simp
  have c2: "?cd2 = fst (update_lookahead_buffers al ?cdn)" by (rule r(3))
  have "lookahead_enabled ?cdn" "0 < lookahead_samples ?cdn" "0 < num_channels ?cdn"
    "length (lookahead_circbuf ?cdn) = MAX_AUDIO_CHANNELS"
    using r(1) pos nc1 wf by simp_all
  note s = update_lookahead_buffers_success [OF r(2) this]
  have ls: "lookahead_samples ?cd' = new_lookahead_samples ?cd1"
    unfolding upd c2 by simp
  have lt: "lookahead_time_ms ?cd' = Num L" unfolding upd using L(1) by simp
  have srr: "sample_rate ?cd' = sample_rate ?cd1" unfolding upd by simp
  show "\<exists>L. lookahead_time_ms ?cd' = Num L \<and> 1 / 10 \<le> L \<and> L \<le> 20
           \<and> lookahead_samples ?cd' =
               max 1 (nat \<lfloor>real (unat (sample_rate ?cd')) * L / 1000 + 1 / 2\<rfloor>)"
    using lt rng ls ns srr by auto
  have nc: "num_channels ?cd' = num_channels ?cdn" unfolding upd c2 by simp
  have cb: "lookahead_circbuf ?cd' = lookahead_circbuf (fst (update_lookahead_buffers al ?cdn))"
    unfolding upd c2 by simp
  have ini: "lookahead_buffers_initialized ?cd'" unfolding upd c2 using s(1) by simp
  show rings: "\<forall>c < num_channels ?cd'. cb_data (lookahead_circbuf ?cd' ! c) =
             replicate (lookahead_samples ?cd') (Num 0)"
    unfolding nc cb ls using s(4) by simp
  show "lookahead_ready (lookahead_samples ?cd') ?cd'"
    unfolding lookahead_ready_def
    using en ini rings s(2) s(3) pos ls nc cb by simp
qed

section \<open>The delay line across blocks\<close>

subsection \<open>One pass\<close>

lemma filter_audio_active:
  assumes "0 < frames audio" "sample_rate cd \<noteq> 0" "0 < num_channels cd"
    and "lookahead_enabled cd" "lookahead_buffers_initialized cd" "0 < lookahead_samples cd"
  shows "limiter_v2_filter_audio ok cd audio =
     (let cd1 = analyze_envelope ok cd (data audio) (frames audio);
          d = snd (fold (delay_channel (frames audio)) [0..<num_channels cd]
                     (True, lookahead_circbuf cd, data audio));
          cd2 = cd1\<lparr>lookahead_circbuf := fst d\<rparr>
      in (cd2, audio\<lparr>data := process_compression cd2 (snd d) (frames audio)\<rparr>))"
  using assms by (simp add: limiter_v2_filter_audio_def apply_lookahead_def Let_def)

lemma analyze_envelope_buf_coerced:
  assumes "0 < n" and "ok \<or> n \<le> length (envelope_buf cd)"
  shows "env_buf_ok n (envelope_buf (analyze_envelope ok cd samples n))"
proof -
  from assms have "snd (ensure_env_buffer ok cd n)" by (simp add: ensure_env_buffer_succeeds)
  then have "n \<le> length (envelope_buf (fst (ensure_env_buffer ok cd n)))"
    by (rule ensure_env_buffer_length)
  then have "env_buf_ok n (analyzed_buf (fst (ensure_env_buffer ok cd n)) samples n)"
    by (rule analyzed_buf_ok)
  then show ?thesis using assms by (simp add: analyze_envelope_processed Let_def)
qed

lemma final_gain_pos:
  assumes "threshold_db cd = Num T" and "output_gain cd = Num g" and "0 < g" and "coerced_env e"
  shows "\<exists>y. final_gain cd e = Num y \<and> 0 < y"
proof -
  from assms(4) obtain v where e: "e = Num v" by (cases e) (simp_all add: coerced_env_def)
  have "0 < gain_multiplier_spec T v * g"
    using gain_multiplier_spec_pos [of T v] assms(3) by simp
  then show ?thesis
    using assms(1,2) by (simp add: final_gain_def e gain_multiplier_Num [OF assms(1)] Let_def)
qed

lemma process_compression_none:
  "plane samples c = None \<Longrightarrow> plane (process_compression cd samples n) c = None"
  by (simp add: process_compression_def fold_compress_plane)

lemma filter_audio_delay_pass:
  assumes rdy: "lookahead_ready D cd"
    and sr: "sample_rate cd \<noteq> 0" and nc: "0 < num_channels cd"
    and wfb: "well_formed_block (num_channels cd) audio"
  shows "lookahead_ready D (fst (limiter_v2_filter_audio ok cd audio))"
    and "\<forall>c < num_channels cd.
           (case plane (data audio) c of
              None \<Rightarrow>
                cb_data (lookahead_circbuf (fst (limiter_v2_filter_audio ok cd audio)) ! c) =
                  cb_data (lookahead_circbuf cd ! c) \<and>
                plane (data (snd (limiter_v2_filter_audio ok cd audio))) c = None
            | Some xs \<Rightarrow>
                cb_data (lookahead_circbuf (fst (limiter_v2_filter_audio ok cd audio)) ! c) =
                  drop (frames audio) (cb_data (lookahead_circbuf cd ! c) @ xs) \<and>
                (\<exists>ys. plane (data (snd (limiter_v2_filter_audio ok cd audio))) c = Some ys \<and>
                   length ys = frames audio \<and>
                   (\<forall>j < frames audio. ys ! j =
                      (if ok \<or> frames audio \<le> length (envelope_buf cd)
                       then apply_gain_spec
                              (final_gain (fst (limiter_v2_filter_audio ok cd audio))
                                 (envelope_buf (fst (limiter_v2_filter_audio ok cd audio)) ! j))
                              ((cb_data (lookahead_circbuf cd ! c) @ xs) ! j)
                       else (cb_data (lookahead_circbuf cd ! c) @ xs) ! j))))"
proof -
  let ?n = "frames audio"
  let ?cd1 = "analyze_envelope ok cd (data audio) ?n"
  let ?cbs = "lookahead_circbuf cd"
  from wfb have n0: "0 < ?n"
    and wf: "\<And>c xs. c < num_channels cd \<Longrightarrow> plane (data audio) c = Some xs \<Longrightarrow> length xs = ?n"
    by (auto simp: well_formed_block_def split: option.splits)
  note run = n0 sr nc
  from rdy have en: "lookahead_enabled cd" "lookahead_buffers_initialized cd" "0 < lookahead_samples cd"
    and D: "lookahead_samples cd = D" "0 < D"
    and nc8: "num_channels cd \<le> MAX_AUDIO_CHANNELS"
    and len: "length ?cbs = MAX_AUDIO_CHANNELS"
    and rl: "\<forall>c < num_channels cd. length (cb_data (?cbs ! c)) = D"
    by (simp_all add: lookahead_ready_def)
  have ne: "\<forall>c < num_channels cd. c < MAX_AUDIO_CHANNELS \<longrightarrow> plane (data audio) c \<noteq> None
              \<longrightarrow> cb_data (?cbs ! c) \<noteq> []"
    using rl D(2) by auto
  have len': "MAX_AUDIO_CHANNELS \<le> length ?cbs" using len by simp
  from fold_delay_channel [OF ne len', of ?n]
  obtain cbs' samples' where
    f: "fold (delay_channel ?n) [0..<num_channels cd] (True, ?cbs, data audio) = (True, cbs', samples')"
    and l: "length cbs' = length ?cbs"
    and r: "\<forall>c < length ?cbs. cb_data (cbs' ! c) =
        (if c < num_channels cd \<and> c < MAX_AUDIO_CHANNELS
         then (case plane (data audio) c of
                 Some xs \<Rightarrow> ring_after (cb_data (?cbs ! c)) xs ?n
               | None \<Rightarrow> cb_data (?cbs ! c))
         else cb_data (?cbs ! c))"
    and p: "\<forall>c. plane samples' c =
        (if c < num_channels cd \<and> c < MAX_AUDIO_CHANNELS
         then map_option (\<lambda>xs. delayed_block (cb_data (?cbs ! c)) xs ?n) (plane (data audio) c)
         else plane (data audio) c)"
    by blast
  let ?cd2 = "?cd1\<lparr>lookahead_circbuf := cbs'\<rparr>"
  have res: "limiter_v2_filter_audio ok cd audio =
      (?cd2, audio\<lparr>data := process_compression ?cd2 samples' ?n\<rparr>)"
    using filter_audio_active [OF run en, of ok] by (simp add: f Let_def)
  have e1: "fst (limiter_v2_filter_audio ok cd audio) = ?cd2" by (simp add: res)
  have e2: "data (snd (limiter_v2_filter_audio ok cd audio)) = process_compression ?cd2 samples' ?n"
    by (simp add: res)
  have e3: "lookahead_circbuf ?cd2 = cbs'" by simp
  have ring: "cb_data (cbs' ! c) =
      (case plane (data audio) c of Some xs \<Rightarrow> drop ?n (cb_data (?cbs ! c) @ xs)
                                  | None \<Rightarrow> cb_data (?cbs ! c))"
    if "c < num_channels cd" for c
    using that r nc8 len wf by (auto simp: ring_after_def split: option.splits)
  have rlen: "length (cb_data (cbs' ! c)) = D" if "c < num_channels cd" for c
    using ring [OF that] rl wf that by (auto split: option.splits)
  show "lookahead_ready D (fst (limiter_v2_filter_audio ok cd audio))"
    unfolding res lookahead_ready_def using en D nc8 len l rlen by simp
  have some: "cb_data (lookahead_circbuf (fst (limiter_v2_filter_audio ok cd audio)) ! c) =
             drop ?n (cb_data (?cbs ! c) @ xs) \<and>
           (\<exists>ys. plane (data (snd (limiter_v2_filter_audio ok cd audio))) c = Some ys \<and>
              length ys = ?n \<and>
              (\<forall>j < ?n. ys ! j =
                 (if ok \<or> ?n \<le> length (envelope_buf cd)
                  then apply_gain_spec
                         (final_gain (fst (limiter_v2_filter_audio ok cd audio))
                            (envelope_buf (fst (limiter_v2_filter_audio ok cd audio)) ! j))
                         ((cb_data (?cbs ! c) @ xs) ! j)
                  else (cb_data (?cbs ! c) @ xs) ! j)))"
    if c: "c < num_channels cd" and xs: "plane (data audio) c = Some xs" for c xs
  proof -
    have lx: "length xs = ?n" using wf c xs by simp
    have c8: "c < MAX_AUDIO_CHANNELS" using c nc8 by simp
    let ?q = "cb_data (?cbs ! c)"
    define zs where "zs = take ?n (?q @ xs)"
    have ps: "plane samples' c = Some zs"
      using p c c8 xs lx by (simp add: delayed_block_def zs_def)
    have lz: "length zs = ?n" using lx by (simp add: zs_def)
    have nz: "zs ! j = (?q @ xs) ! j" if "j < ?n" for j
      using that unfolding zs_def by (rule nth_take)
    have r1: "cb_data (cbs' ! c) = drop ?n (?q @ xs)" using ring [OF c] xs by simp
    have out: "\<exists>ys. plane (process_compression ?cd2 samples' ?n) c = Some ys \<and>
              length ys = ?n \<and>
              (\<forall>j < ?n. ys ! j =
                 (if ok \<or> ?n \<le> length (envelope_buf cd)
                  then apply_gain_spec (final_gain ?cd2 (envelope_buf ?cd2 ! j)) ((?q @ xs) ! j)
                  else (?q @ xs) ! j))"
    proof (cases "ok \<or> ?n \<le> length (envelope_buf cd)")
      case True
      have el: "?n \<le> length (envelope_buf ?cd2)"
        using analyze_envelope_buf_length [OF run(1) True, of "data audio"] by simp
      have c2: "c < num_channels ?cd2" using c by simp
      from process_compression_plane [OF c2 c8 ps run(1) el]
      show ?thesis using True lz nz by auto
    next
      case False
      have "envelope_buf ?cd2 = []"
        using analyze_envelope_buf_empty [OF run(1) False, of "data audio"] by simp
      then have "process_compression ?cd2 samples' ?n = samples'"
        by (rule process_compression_skipped)
      then show ?thesis using False ps lz nz by simp
    qed
    show ?thesis
      unfolding e1 e2 e3 using r1 out by (rule conjI)
  qed
  have none: "cb_data (lookahead_circbuf (fst (limiter_v2_filter_audio ok cd audio)) ! c) =
                  cb_data (?cbs ! c) \<and>
                plane (data (snd (limiter_v2_filter_audio ok cd audio))) c = None"
    if c: "c < num_channels cd" and xs: "plane (data audio) c = None" for c
  proof -
    have "plane samples' c = None" using p xs by simp
    then have "plane (process_compression ?cd2 samples' ?n) c = None"
      by (rule process_compression_none)
    moreover have "cb_data (cbs' ! c) = cb_data (?cbs ! c)" using ring [OF c] xs by simp
    ultimately show ?thesis unfolding e1 e2 e3 by simp
  qed
  show "\<forall>c < num_channels cd.
           (case plane (data audio) c of
              None \<Rightarrow>
                cb_data (lookahead_circbuf (fst (limiter_v2_filter_audio ok cd audio)) ! c) =
                  cb_data (?cbs ! c) \<and>
                plane (data (snd (limiter_v2_filter_audio ok cd audio))) c = None
            | Some xs \<Rightarrow>
                cb_data (lookahead_circbuf (fst (limiter_v2_filter_audio ok cd audio)) ! c) =
                  drop ?n (cb_data (?cbs ! c) @ xs) \<and>
                (\<exists>ys. plane (data (snd (limiter_v2_filter_audio ok cd audio))) c = Some ys \<and>
                   length ys = ?n \<and>
                   (\<forall>j < ?n. ys ! j =
                      (if ok \<or> ?n \<le> length (envelope_buf cd)
                       then apply_gain_spec
                              (final_gain (fst (limiter_v2_filter_audio ok cd audio))
                                 (envelope_buf (fst (limiter_v2_filter_audio ok cd audio)) ! j))
                              ((cb_data (?cbs ! c) @ xs) ! j)
                       else (cb_data (?cbs ! c) @ xs) ! j))))"
  proof (intro allI impI)
    fix c assume c: "c < num_channels cd"
    show "case plane (data audio) c of
              None \<Rightarrow>
                cb_data (lookahead_circbuf (fst (limiter_v2_filter_audio ok cd audio)) ! c) =
                  cb_data (?cbs ! c) \<and>
                plane (data (snd (limiter_v2_filter_audio ok cd audio))) c = None
            | Some xs \<Rightarrow>
                cb_data (lookahead_circbuf (fst (limiter_v2_filter_audio ok cd audio)) ! c) =
                  drop ?n (cb_data (?cbs ! c) @ xs) \<and>
                (\<exists>ys. plane (data (snd (limiter_v2_filter_audio ok cd audio))) c = Some ys \<and>
                   length ys = ?n \<and>
                   (\<forall>j < ?n. ys ! j =
                      (if ok \<or> ?n \<le> length (envelope_buf cd)
                       then apply_gain_spec
                              (final_gain (fst (limiter_v2_filter_audio ok cd audio))
                                 (envelope_buf (fst (limiter_v2_filter_audio ok cd audio)) ! j))
                              ((cb_data (?cbs ! c) @ xs) ! j)
                       else (cb_data (?cbs ! c) @ xs) ! j)))"
    proof (cases "plane (data audio) c")
      case None
      then show ?thesis using none [OF c None] by simp
    next
      case (Some xs)
      then show ?thesis using some [OF c Some] by simp
    qed
  qed
qed

lemma filter_audio_fields [simp]:
  "sample_rate (fst (limiter_v2_filter_audio ok cd audio)) = sample_rate cd"
  "num_channels (fst (limiter_v2_filter_audio ok cd audio)) = num_channels cd"
  "threshold_db (fst (limiter_v2_filter_audio ok cd audio)) = threshold_db cd"
  "output_gain (fst (limiter_v2_filter_audio ok cd audio)) = output_gain cd"
  by (simp_all add: limiter_v2_filter_audio_def Let_def)

lemma filter_audio_envelope_buf:
  "0 < frames audio \<Longrightarrow> sample_rate cd \<noteq> 0 \<Longrightarrow> 0 < num_channels cd \<Longrightarrow>
   envelope_buf (fst (limiter_v2_filter_audio ok cd audio)) =
     envelope_buf (analyze_envelope ok cd (data audio) (frames audio))"
  by (simp add: limiter_v2_filter_audio_def Let_def)

subsection \<open>A stream of blocks\<close>

lemma final_gain_cong:
  "threshold_db a = threshold_db b \<Longrightarrow> output_gain a = output_gain b \<Longrightarrow>
   final_gain a e = final_gain b e"
  by (simp add: final_gain_def gain_reduction_multiplier_def Let_def)

lemma pass_stream:
  assumes rdy: "lookahead_ready D cd" and sr: "sample_rate cd \<noteq> 0" and c: "c < num_channels cd"
    and wfb: "well_formed_block (num_channels cd) audio"
  shows "cb_data (lookahead_circbuf (fst (limiter_v2_filter_audio ok cd audio)) ! c) =
           drop (length (plane_samples audio c))
             (cb_data (lookahead_circbuf cd ! c) @ plane_samples audio c) \<and>
         list_all2 (\<lambda>y x. y = x \<or> (\<exists>e. coerced_env e \<and> y = apply_gain_spec (final_gain cd e) x))
           (plane_samples (snd (limiter_v2_filter_audio ok cd audio)) c)
           (take (length (plane_samples audio c))
             (cb_data (lookahead_circbuf cd ! c) @ plane_samples audio c))"
proof -
  let ?r = "limiter_v2_filter_audio ok cd audio"
  let ?q = "cb_data (lookahead_circbuf cd ! c)"
  let ?n = "frames audio"
  let ?R = "\<lambda>y x. y = x \<or> (\<exists>e. coerced_env e \<and> y = apply_gain_spec (final_gain cd e) x)"
  have nc: "0 < num_channels cd" using c by simp
  from wfb have n0: "0 < ?n" by (simp add: well_formed_block_def)
  note pass = filter_audio_delay_pass(2) [OF rdy sr nc wfb, of ok, rule_format, OF c]
  show ?thesis
  proof (cases "plane (data audio) c")
    case None
    with pass show ?thesis by (simp add: plane_samples_def)
  next
    case (Some xs)
    have lx: "length xs = ?n"
      using wfb c Some by (force simp: well_formed_block_def)
    from pass Some obtain ys where
      ring: "cb_data (lookahead_circbuf (fst ?r) ! c) = drop ?n (?q @ xs)"
      and ys: "plane (data (snd ?r)) c = Some ys" "length ys = ?n"
      and nth: "\<forall>j < ?n. ys ! j =
                      (if ok \<or> ?n \<le> length (envelope_buf cd)
                       then apply_gain_spec (final_gain (fst ?r) (envelope_buf (fst ?r) ! j))
                              ((?q @ xs) ! j)
                       else (?q @ xs) ! j)"
      by auto
    have fg: "final_gain (fst ?r) e = final_gain cd e" for e
      by (rule final_gain_cong) simp_all
    have co: "coerced_env (envelope_buf (fst ?r) ! j)"
      if "j < ?n" "ok \<or> ?n \<le> length (envelope_buf cd)" for j
    proof -
      have "env_buf_ok ?n (envelope_buf (fst ?r))"
        using analyze_envelope_buf_coerced [OF n0 that(2), of "data audio"]
        by (simp add: filter_audio_envelope_buf [OF n0 sr nc])
      then show ?thesis using that(1) by (simp add: env_buf_ok_def)
    qed
    have rel: "?R (ys ! j) ((?q @ xs) ! j)" if "j < ?n" for j
    proof (cases "ok \<or> ?n \<le> length (envelope_buf cd)")
      case True
      have "ys ! j = apply_gain_spec (final_gain cd (envelope_buf (fst ?r) ! j)) ((?q @ xs) ! j)"
        using nth that True by (simp add: fg)
      with co [OF that True] show ?thesis by blast
    next
      case False
      then show ?thesis using nth that by simp
    qed
    have "list_all2 ?R ys (take ?n (?q @ xs))"
    proof (rule list_all2_all_nthI)
      show "length ys = length (take ?n (?q @ xs))" using ys(2) lx by simp
    next
      fix j assume "j < length ys"
      then have j: "j < ?n" using ys(2) by simp
      then have "take ?n (?q @ xs) ! j = (?q @ xs) ! j" by (rule nth_take)
      then show "?R (ys ! j) (take ?n (?q @ xs) ! j)"
        using rel [OF j] by simp
    qed
    then show ?thesis using ring ys(1) Some lx by (simp add: plane_samples_def)
  qed
qed

lemma delay_stream_split:
  "a \<le> length l \<Longrightarrow>
   take (a + b) (l @ r) = take a l @ take b (drop a l @ r) \<and>
   drop (a + b) (l @ r) = drop b (drop a l @ r)"
proof -
  assume a: "a \<le> length l"
  have "take (a + b) (l @ r) = take a (l @ r) @ take b (drop a (l @ r))" by (rule take_add)
  moreover have "drop (a + b) (l @ r) = drop b (drop a (l @ r))"
    by (simp only: drop_drop add.commute [of b a])
  ultimately show ?thesis using a by simp
qed

lemma filter_blocks_stream:
  assumes "lookahead_ready D cd" and "sample_rate cd \<noteq> 0" and "c < num_channels cd"
    and "\<forall>b \<in> set bs. well_formed_block (num_channels cd) (snd b)"
  shows "lookahead_ready D (fst (filter_blocks cd bs)) \<and>
     cb_data (lookahead_circbuf (fst (filter_blocks cd bs)) ! c) =
       drop (length (channel_stream c (map snd bs)))
         (cb_data (lookahead_circbuf cd ! c) @ channel_stream c (map snd bs)) \<and>
     list_all2 (\<lambda>y x. y = x \<or> (\<exists>e. coerced_env e \<and> y = apply_gain_spec (final_gain cd e) x))
       (channel_stream c (snd (filter_blocks cd bs)))
       (take (length (channel_stream c (map snd bs)))
         (cb_data (lookahead_circbuf cd ! c) @ channel_stream c (map snd bs)))"
  using assms
proof (induction bs arbitrary: cd)
  case Nil
  then show ?case by (simp add: channel_stream_def)
next
  case (Cons b bs)
  let ?r = "limiter_v2_filter_audio (fst b) cd (snd b)"
  let ?q = "cb_data (lookahead_circbuf cd ! c)"
  let ?xs = "plane_samples (snd b) c"
  let ?inps = "channel_stream c (map snd bs)"
  let ?R = "\<lambda>cd y x. y = x \<or> (\<exists>e. coerced_env e \<and> y = apply_gain_spec (final_gain cd e) x)"
  have nc: "0 < num_channels cd" using Cons.prems(3) by simp
  have wfb: "well_formed_block (num_channels cd) (snd b)" using Cons.prems(4) by simp
  have rdy': "lookahead_ready D (fst ?r)"
    by (rule filter_audio_delay_pass(1) [OF Cons.prems(1,2) nc wfb])
  note one = pass_stream [OF Cons.prems(1,2,3) wfb, of "fst b"]
  have fg: "final_gain (fst ?r) e = final_gain cd e" for e
    by (rule final_gain_cong) simp_all
  have IH: "lookahead_ready D (fst (filter_blocks (fst ?r) bs)) \<and>
     cb_data (lookahead_circbuf (fst (filter_blocks (fst ?r) bs)) ! c) =
       drop (length ?inps) (cb_data (lookahead_circbuf (fst ?r) ! c) @ ?inps) \<and>
     list_all2 (?R (fst ?r)) (channel_stream c (snd (filter_blocks (fst ?r) bs)))
       (take (length ?inps) (cb_data (lookahead_circbuf (fst ?r) ! c) @ ?inps))"
    using Cons.prems rdy' by (intro Cons.IH) simp_all
  have split: "take (length ?xs + length ?inps) ((?q @ ?xs) @ ?inps) =
                 take (length ?xs) (?q @ ?xs) @ take (length ?inps) (drop (length ?xs) (?q @ ?xs) @ ?inps)"
    "drop (length ?xs + length ?inps) ((?q @ ?xs) @ ?inps) =
       drop (length ?inps) (drop (length ?xs) (?q @ ?xs) @ ?inps)"
    using delay_stream_split [of "length ?xs" "?q @ ?xs" "length ?inps" ?inps] by simp_all
  have fb: "filter_blocks cd (b # bs) =
      (fst (filter_blocks (fst ?r) bs), snd ?r # snd (filter_blocks (fst ?r) bs))"
    by (simp add: Let_def)
  have cs: "channel_stream c (map snd (b # bs)) = ?xs @ ?inps"
    "channel_stream c (snd ?r # snd (filter_blocks (fst ?r) bs)) =
       plane_samples (snd ?r) c @ channel_stream c (snd (filter_blocks (fst ?r) bs))"
    by (simp_all add: channel_stream_def)
  have "list_all2 (?R cd)
       (plane_samples (snd ?r) c @ channel_stream c (snd (filter_blocks (fst ?r) bs)))
       (take (length ?xs) (?q @ ?xs) @ take (length ?inps) (drop (length ?xs) (?q @ ?xs) @ ?inps))"
    using one IH by (intro list_all2_appendI) (simp_all add: fg)
  then show ?case
    unfolding fb fst_conv snd_conv cs
    using IH one split by simp
qed

lemma impulse_after_delay:
  assumes rel: "list_all2 (\<lambda>y x. y = x \<or> (\<exists>e. coerced_env e \<and> y = apply_gain_spec (final_gain cd e) x))
                  out (take (Suc k) (replicate D (Num 0) @ Num 1 # replicate k (Num 0)))"
    and D: "D \<le> k"
    and T: "threshold_db cd = Num T" and g: "output_gain cd = Num g0" "0 < g0"
  shows "length out = Suc k \<and> (\<forall>j < Suc k. j \<noteq> D \<longrightarrow> out ! j = Num 0) \<and>
         (\<exists>v>0. out ! D = Num v)"
proof -
  let ?s = "replicate D (Num 0) @ Num 1 # replicate k (Num 0)"
  have len: "length out = Suc k" using list_all2_lengthD [OF rel] by simp
  have nth: "out ! j = take (Suc k) ?s ! j \<or>
             (\<exists>g>0. out ! j = apply_gain_spec (Num g) (take (Suc k) ?s ! j))" if "j < Suc k" for j
  proof -
    from list_all2_nthD [OF rel, of j] that len
    consider "out ! j = take (Suc k) ?s ! j"
      | e where "coerced_env e" "out ! j = apply_gain_spec (final_gain cd e) (take (Suc k) ?s ! j)"
      by auto
    then show ?thesis
    proof cases
      case 1
      then show ?thesis by simp
    next
      case 2
      from final_gain_pos [OF T g 2(1)] obtain y where "final_gain cd e = Num y" "0 < y" by blast
      with 2(2) show ?thesis by auto
    qed
  qed
  have s: "take (Suc k) ?s ! j = (if j = D then Num 1 else Num 0)" if "j < Suc k" for j
    using that D by (auto simp: nth_append nth_Cons split: nat.splits)
  have z: "out ! j = Num 0" if "j < Suc k" "j \<noteq> D" for j
    using nth [OF that(1)] s [OF that(1)] that(2) by (auto simp: apply_gain_spec_def)
  have "\<exists>v>0. out ! D = Num v"
    using nth [of D] s [of D] D by (auto simp: apply_gain_spec_def)
  with len z show ?thesis by blast
qed

text \<open>
  Claim C3.  (1) When \<^verbatim>\<open>limiter_v2_update\<close> reconfigures the lookahead (the format or the
  lookahead settings changed) and leaves it enabled, the stored lookahead time is a finite
  \<open>L\<close> in [0.1, 20], \<open>lookahead_samples\<close> is \<open>D = max 1 (round (sample_rate * L / 1000))\<close>, at
  least 1, and the ring of every active channel holds exactly \<open>D\<close> zeros.
  (2) From any state whose delay line is armed with \<open>D\<close> samples per channel, after any
  sequence of well-formed blocks through \<^verbatim>\<open>limiter_v2_filter_audio\<close> the delay line is still
  armed with \<open>D\<close> samples per channel; the stream that has left channel \<open>c\<close> is, sample by
  sample, the ring's initial content followed by the input stream, that is the input
  delayed by \<open>D\<close> samples, each sample either unchanged (block not compressed) or multiplied
  by the final gain of an envelope value; and the ring holds the last \<open>D\<close> samples.
  (3) For a unit impulse at sample 0 of otherwise silent input on a freshly filled ring,
  with a finite threshold and a positive output gain, every output sample other than the
  one at index \<open>D\<close> is 0 and the sample at index \<open>D\<close> is positive.
\<close>

theorem lookahead_delay_line:
  "(length (lookahead_circbuf prev) = MAX_AUDIO_CHANNELS \<and> reconfigures sr nch s prev \<and> 0 < nch \<and>
    lookahead_enabled (fst (limiter_v2_update al sr nch s prev)) \<longrightarrow>
      (let cd' = fst (limiter_v2_update al sr nch s prev) in
         (\<exists>L. lookahead_time_ms cd' = Num L \<and> 1 / 10 \<le> L \<and> L \<le> 20 \<and>
              lookahead_samples cd' =
                max 1 (nat (round (real (unat (sample_rate cd')) * L / 1000)))) \<and>
         lookahead_ready (lookahead_samples cd') cd' \<and> sample_rate cd' \<noteq> 0 \<and>
         (\<forall>c < num_channels cd'.
            cb_data (lookahead_circbuf cd' ! c) = replicate (lookahead_samples cd') (Num 0)))) \<and>
   (lookahead_ready D cd \<and> sample_rate cd \<noteq> 0 \<and> c < num_channels cd \<and>
    (\<forall>b \<in> set bs. well_formed_block (num_channels cd) (snd b)) \<longrightarrow>
      lookahead_ready D (fst (filter_blocks cd bs)) \<and>
      length (cb_data (lookahead_circbuf (fst (filter_blocks cd bs)) ! c)) = D \<and>
      cb_data (lookahead_circbuf (fst (filter_blocks cd bs)) ! c) =
        drop (length (channel_stream c (map snd bs)))
          (cb_data (lookahead_circbuf cd ! c) @ channel_stream c (map snd bs)) \<and>
      list_all2 (\<lambda>y x. y = x \<or> (\<exists>e. coerced_env e \<and> y = apply_gain_spec (final_gain cd e) x))
        (channel_stream c (snd (filter_blocks cd bs)))
        (take (length (channel_stream c (map snd bs)))
          (cb_data (lookahead_circbuf cd ! c) @ channel_stream c (map snd bs)))) \<and>
   (lookahead_ready D cd \<and> sample_rate cd \<noteq> 0 \<and> c < num_channels cd \<and>
    (\<forall>b \<in> set bs. well_formed_block (num_channels cd) (snd b)) \<and>
    cb_data (lookahead_circbuf cd ! c) = replicate D (Num 0) \<and>
    channel_stream c (map snd bs) = Num 1 # replicate k (Num 0) \<and> D \<le> k \<and>
    threshold_db cd = Num T \<and> output_gain cd = Num G \<and> 0 < G \<longrightarrow>
      length (channel_stream c (snd (filter_blocks cd bs))) = Suc k \<and>
      (\<forall>j < Suc k. j \<noteq> D \<longrightarrow> channel_stream c (snd (filter_blocks cd bs)) ! j = Num 0) \<and>
      (\<exists>v>0. channel_stream c (snd (filter_blocks cd bs)) ! D = Num v))"
proof -
  have A: "length (lookahead_circbuf prev) = MAX_AUDIO_CHANNELS \<and> reconfigures sr nch s prev \<and> 0 < nch \<and>
    lookahead_enabled (fst (limiter_v2_update al sr nch s prev)) \<longrightarrow>
      (let cd' = fst (limiter_v2_update al sr nch s prev) in
         (\<exists>L. lookahead_time_ms cd' = Num L \<and> 1 / 10 \<le> L \<and> L \<le> 20 \<and>
              lookahead_samples cd' =
                max 1 (nat (round (real (unat (sample_rate cd')) * L / 1000)))) \<and>
         lookahead_ready (lookahead_samples cd') cd' \<and> sample_rate cd' \<noteq> 0 \<and>
         (\<forall>c < num_channels cd'.
            cb_data (lookahead_circbuf cd' ! c) = replicate (lookahead_samples cd') (Num 0)))"
  proof (rule impI)
    assume "length (lookahead_circbuf prev) = MAX_AUDIO_CHANNELS \<and> reconfigures sr nch s prev \<and> 0 < nch \<and>
    lookahead_enabled (fst (limiter_v2_update al sr nch s prev))"
    then have h: "length (lookahead_circbuf prev) = MAX_AUDIO_CHANNELS" "reconfigures sr nch s prev"
      "0 < nch" "lookahead_enabled (fst (limiter_v2_update al sr nch s prev))" by simp_all
    note p = update_prefills_rings [OF h]
    have "sample_rate (fst (limiter_v2_update al sr nch s prev)) \<noteq> 0"
      using h(2) by (simp add: limiter_v2_update_def Let_def reconfigures_def)
    with p show "(let cd' = fst (limiter_v2_update al sr nch s prev) in
         (\<exists>L. lookahead_time_ms cd' = Num L \<and> 1 / 10 \<le> L \<and> L \<le> 20 \<and>
              lookahead_samples cd' =
                max 1 (nat (round (real (unat (sample_rate cd')) * L / 1000)))) \<and>
         lookahead_ready (lookahead_samples cd') cd' \<and> sample_rate cd' \<noteq> 0 \<and>
         (\<forall>c < num_channels cd'.
            cb_data (lookahead_circbuf cd' ! c) = replicate (lookahead_samples cd') (Num 0)))"
      unfolding Let_def round_def by blast
  qed
  have B: "lookahead_ready D cd \<and> sample_rate cd \<noteq> 0 \<and> c < num_channels cd \<and>
    (\<forall>b \<in> set bs. well_formed_block (num_channels cd) (snd b)) \<longrightarrow>
      lookahead_ready D (fst (filter_blocks cd bs)) \<and>
      length (cb_data (lookahead_circbuf (fst (filter_blocks cd bs)) ! c)) = D \<and>
      cb_data (lookahead_circbuf (fst (filter_blocks cd bs)) ! c) =
        drop (length (channel_stream c (map snd bs)))
          (cb_data (lookahead_circbuf cd ! c) @ channel_stream c (map snd bs)) \<and>
      list_all2 (\<lambda>y x. y = x \<or> (\<exists>e. coerced_env e \<and> y = apply_gain_spec (final_gain cd e) x))
        (channel_stream c (snd (filter_blocks cd bs)))
        (take (length (channel_stream c (map snd bs)))
          (cb_data (lookahead_circbuf cd ! c) @ channel_stream c (map snd bs)))"
  proof (rule impI)
    assume "lookahead_ready D cd \<and> sample_rate cd \<noteq> 0 \<and> c < num_channels cd \<and>
    (\<forall>b \<in> set bs. well_formed_block (num_channels cd) (snd b))"
    then have h: "lookahead_ready D cd" "sample_rate cd \<noteq> 0" "c < num_channels cd"
      "\<forall>b \<in> set bs. well_formed_block (num_channels cd) (snd b)" by simp_all
    note st = filter_blocks_stream [OF h]
    have "length (cb_data (lookahead_circbuf cd ! c)) = D"
      using h(1,3) by (simp add: lookahead_ready_def)
    then have "length (cb_data (lookahead_circbuf (fst (filter_blocks cd bs)) ! c)) = D"
      using st by simp
    with st show "lookahead_ready D (fst (filter_blocks cd bs)) \<and>
      length (cb_data (lookahead_circbuf (fst (filter_blocks cd bs)) ! c)) = D \<and>
      cb_data (lookahead_circbuf (fst (filter_blocks cd bs)) ! c) =
        drop (length (channel_stream c (map snd bs)))
          (cb_data (lookahead_circbuf cd ! c) @ channel_stream c (map snd bs)) \<and>
      list_all2 (\<lambda>y x. y = x \<or> (\<exists>e. coerced_env e \<and> y = apply_gain_spec (final_gain cd e) x))
        (channel_stream c (snd (filter_blocks cd bs)))
        (take (length (channel_stream c (map snd bs)))
          (cb_data (lookahead_circbuf cd ! c) @ channel_stream c (map snd bs)))" by simp
  qed
  have C: "lookahead_ready D cd \<and> sample_rate cd \<noteq> 0 \<and> c < num_channels cd \<and>
    (\<forall>b \<in> set bs. well_formed_block (num_channels cd) (snd b)) \<and>
    cb_data (lookahead_circbuf cd ! c) = replicate D (Num 0) \<and>
    channel_stream c (map snd bs) = Num 1 # replicate k (Num 0) \<and> D \<le> k \<and>
    threshold_db cd = Num T \<and> output_gain cd = Num G \<and> 0 < G \<longrightarrow>
      length (channel_stream c (snd (filter_blocks cd bs))) = Suc k \<and>
      (\<forall>j < Suc k. j \<noteq> D \<longrightarrow> channel_stream c (snd (filter_blocks cd bs)) ! j = Num 0) \<and>
      (\<exists>v>0. channel_stream c (snd (filter_blocks cd bs)) ! D = Num v)"
  proof (rule impI)
    assume "lookahead_ready D cd \<and> sample_rate cd \<noteq> 0 \<and> c < num_channels cd \<and>
    (\<forall>b \<in> set bs. well_formed_block (num_channels cd) (snd b)) \<and>
    cb_data (lookahead_circbuf cd ! c) = replicate D (Num 0) \<and>
    channel_stream c (map snd bs) = Num 1 # replicate k (Num 0) \<and> D \<le> k \<and>
    threshold_db cd = Num T \<and> output_gain cd = Num G \<and> 0 < G"
    then have h: "lookahead_ready D cd" "sample_rate cd \<noteq> 0" "c < num_channels cd"
      "\<forall>b \<in> set bs. well_formed_block (num_channels cd) (snd b)"
      and q: "cb_data (lookahead_circbuf cd ! c) = replicate D (Num 0)"
      and i: "channel_stream c (map snd bs) = Num 1 # replicate k (Num 0)"
      and r: "D \<le> k" "threshold_db cd = Num T" "output_gain cd = Num G" "0 < G" by simp_all
    have "list_all2 (\<lambda>y x. y = x \<or> (\<exists>e. coerced_env e \<and> y = apply_gain_spec (final_gain cd e) x))
            (channel_stream c (snd (filter_blocks cd bs)))
            (take (Suc k) (replicate D (Num 0) @ Num 1 # replicate k (Num 0)))"
      using filter_blocks_stream [OF h] unfolding q i by simp
    from impulse_after_delay [OF this r]
    show "length (channel_stream c (snd (filter_blocks cd bs))) = Suc k \<and>
      (\<forall>j < Suc k. j \<noteq> D \<longrightarrow> channel_stream c (snd (filter_blocks cd bs)) ! j = Num 0) \<and>
      (\<exists>v>0. channel_stream c (snd (filter_blocks cd bs)) ! D = Num v)" .
  qed
  show ?thesis by (rule conjI [OF A conjI [OF B C]])
qed

text \<open>The filter created at 10 kHz with 0.1 ms of lookahead has \<open>D = 1\<close>; an impulse fed as a
  block of one frame and a block of two frames leaves as 0, a positive sample, 0.\<close>

theorem lookahead_delay_witness:
  "reconfigures 10000 1 ex_settings zero_data \<and>
   lookahead_enabled (ex_created ex_alloc_ok) \<and>
   lookahead_samples (ex_created ex_alloc_ok) = 1 \<and>
   lookahead_ready 1 (ex_created ex_alloc_ok) \<and>
   cb_data (lookahead_circbuf (ex_created ex_alloc_ok) ! 0) = [Num 0] \<and>
   well_formed_block 1 (snd (ex_impulse_blocks ! 0)) \<and>
   well_formed_block 1 (snd (ex_impulse_blocks ! 1)) \<and>
   channel_stream 0 (map snd ex_impulse_blocks) = [Num 1, Num 0, Num 0] \<and>
   lookahead_ready 1 (fst (filter_blocks (ex_created ex_alloc_ok) ex_impulse_blocks)) \<and>
   length (cb_data (lookahead_circbuf
       (fst (filter_blocks (ex_created ex_alloc_ok) ex_impulse_blocks)) ! 0)) = 1 \<and>
   length (channel_stream 0 (snd (filter_blocks (ex_created ex_alloc_ok) ex_impulse_blocks))) = 3 \<and>
   channel_stream 0 (snd (filter_blocks (ex_created ex_alloc_ok) ex_impulse_blocks)) ! 0 = Num 0 \<and>
   (\<exists>v>0. channel_stream 0 (snd (filter_blocks (ex_created ex_alloc_ok) ex_impulse_blocks)) ! 1
            = Num v) \<and>
   channel_stream 0 (snd (filter_blocks (ex_created ex_alloc_ok) ex_impulse_blocks)) ! 2 = Num 0"
proof -
  let ?cd = "ex_created ex_alloc_ok"
  let ?out = "channel_stream 0 (snd (filter_blocks ?cd ex_impulse_blocks))"
  note t = lookahead_delay_line [where prev = zero_data and sr = 10000 and nch = 1
      and s = ex_settings and al = ex_alloc_ok and D = 1 and cd = ?cd and c = 0
      and bs = ex_impulse_blocks and k = 2 and T = "- 6" and G = 1]
  have w0: "fst (limiter_v2_update ex_alloc_ok 10000 1 ex_settings zero_data) = ?cd"
    by (simp add: ex_created_def limiter_v2_create_def)
  have h1: "length (lookahead_circbuf zero_data) = MAX_AUDIO_CHANNELS"
    by (simp add: zero_data_def)
  have h2: "reconfigures 10000 1 ex_settings zero_data"
    by (simp add: reconfigures_def update_format_def zero_data_def Let_def MAX_AUDIO_CHANNELS_def)
  have h3: "lookahead_enabled ?cd" by (simp add: ex_created_ok)
  have ls: "lookahead_samples ?cd = 1" and nc: "num_channels ?cd = 1"
    and th: "threshold_db ?cd = Num (- 6)" "output_gain ?cd = Num 1"
    by (simp_all add: ex_created_ok)
  have A: "lookahead_ready 1 ?cd \<and> sample_rate ?cd \<noteq> 0 \<and>
           cb_data (lookahead_circbuf ?cd ! 0) = [Num 0]"
    using t [THEN conjunct1, unfolded w0 Let_def] h1 h2 h3 by (simp add: ls nc)
  have wf: "well_formed_block 1 (snd (ex_impulse_blocks ! 0))"
    "well_formed_block 1 (snd (ex_impulse_blocks ! 1))"
    by (simp_all add: ex_impulse_blocks_def well_formed_block_def plane_def)
  have wfa: "\<forall>b \<in> set ex_impulse_blocks. well_formed_block (num_channels ?cd) (snd b)"
    by (simp add: ex_impulse_blocks_def well_formed_block_def plane_def nc)
  have inp: "channel_stream 0 (map snd ex_impulse_blocks) = [Num 1, Num 0, Num 0]"
    by (simp add: ex_impulse_blocks_def channel_stream_def plane_samples_def plane_def)
  have B: "lookahead_ready 1 (fst (filter_blocks ?cd ex_impulse_blocks)) \<and>
           length (cb_data (lookahead_circbuf (fst (filter_blocks ?cd ex_impulse_blocks)) ! 0)) = 1"
    using t [THEN conjunct2, THEN conjunct1] A wfa by (simp add: nc)
  have C: "length ?out = Suc 2 \<and> (\<forall>j < Suc 2. j \<noteq> 1 \<longrightarrow> ?out ! j = Num 0) \<and>
           (\<exists>v>0. ?out ! 1 = Num v)"
    using t [THEN conjunct2, THEN conjunct2] A wfa inp th by (simp add: nc numeral_2_eq_2)
  then have "length ?out = 3" "?out ! 0 = Num 0" "?out ! 2 = Num 0" "\<exists>v>0. ?out ! 1 = Num v"
    by simp_all
  with h2 h3 ls A wf inp B show ?thesis by blast
qed

section \<open>The history ring of the adaptive release\<close>

lemma word_mod3_cases: "(w :: 32 word) mod 3 = 0 \<or> w mod 3 = 1 \<or> w mod 3 = 2"
proof -
  have "w mod 3 < 3" by (rule word_mod_less_divisor) simp
  then have "unat (w mod 3) < 3" by (simp add: word_less_nat_alt)
  then have "unat (w mod 3) = 0 \<or> unat (w mod 3) = 1 \<or> unat (w mod 3) = 2" by arith
  then show ?thesis by (auto simp: word_unat_eq_iff)
qed

text \<open>What a processed block does to the history ring is \<open>push_history\<close> of its final
  envelope.\<close>

lemma analyze_envelope_pushes:
  assumes "0 < n" and "ok \<or> n \<le> length (envelope_buf cd)"
  shows "prev_env_pos (analyze_envelope ok cd samples n) =
           prev_env_pos (push_history cd (envelope (analyze_envelope ok cd samples n))) \<and>
         prev_env_vals (analyze_envelope ok cd samples n) =
           prev_env_vals (push_history cd (envelope (analyze_envelope ok cd samples n)))"
  by (simp add: analyze_envelope_processed [OF assms] push_history_def Let_def)

text \<open>
  Claim C6.  The change rate is not the average over the two consecutive gaps of the
  history.  \<^verbatim>\<open>analyze_envelope\<close> advances the cursor before it writes, so the cursor rests on
  the newest value, and \<^verbatim>\<open>calculate_env_change_rate\<close> starts at the cursor.  With the
  envelopes \<open>e1\<close>, \<open>e2\<close>, \<open>e3\<close> of the last three blocks, oldest first, it averages
  \<open>\<bar>e1 - e3\<bar>\<close>, the gap between the newest and the oldest value, and \<open>\<bar>e2 - e1\<bar>\<close>; the gap
  \<open>\<bar>e3 - e2\<bar>\<close> between the two most recent values is never used.  The average over the
  consecutive gaps is \<open>change_rate_spec e1 e2 e3\<close>.
\<close>

theorem change_rate_wraps_around:
  "length (prev_env_vals cd) = 3 \<longrightarrow>
   calculate_env_change_rate
     (push_history (push_history (push_history cd (Num e1)) (Num e2)) (Num e3)) =
   Num ((\<bar>e1 - e3\<bar> + \<bar>e2 - e1\<bar>) / 2)"
proof
  assume l: "length (prev_env_vals cd) = 3"
  let ?c = "push_history (push_history (push_history cd (Num e1)) (Num e2)) (Num e3)"
  define p where "p = (prev_env_pos cd + 1) mod 3"
  have pos: "prev_env_pos ?c = ((p + 1) mod 3 + 1) mod 3"
    and vals: "prev_env_vals ?c =
      (prev_env_vals cd)[unat p := Num e1, unat ((p + 1) mod 3) := Num e2,
         unat (((p + 1) mod 3 + 1) mod 3) := Num e3]"
    by (simp_all add: push_history_def Let_def p_def)
  have "p = 0 \<or> p = 1 \<or> p = 2" unfolding p_def by (rule word_mod3_cases)
  then have "calculate_env_change_rate ?c = Num (change_rate_spec e3 e1 e2)"
  proof (elim disjE)
    assume "p = 0"
    then show ?thesis by (intro change_rate_Num) (simp_all add: pos vals l)
  next
    assume "p = 1"
    then show ?thesis by (intro change_rate_Num) (simp_all add: pos vals l)
  next
    assume "p = 2"
    then show ?thesis by (intro change_rate_Num) (simp_all add: pos vals l)
  qed
  then show "calculate_env_change_rate ?c = Num ((\<bar>e1 - e3\<bar> + \<bar>e2 - e1\<bar>) / 2)"
    by (simp add: change_rate_spec_def)
qed

text \<open>
  After the envelopes 0.08, 0, 0.08 the code's rate is 0.04, which does not exceed 0.05,
  and the base release coefficient is used.  The two consecutive gaps average 0.08, for
  which the release time of 60 ms would be divided by 1.2.
\<close>

theorem change_rate_dip_example:
  "calculate_env_change_rate ex_dip_history = Num (4 / 100) \<and>
   current_release_coeff ex_dip_history = release_coeff ex_dip_history \<and>
   change_rate_spec (8 / 100) 0 (8 / 100) = 8 / 100 \<and>
   \<not> f_gt (calculate_env_change_rate ex_dip_history) ADAPT_SENSITIVITY_THRESHOLD \<and>
   f_gt (Num (change_rate_spec (8 / 100) 0 (8 / 100))) ADAPT_SENSITIVITY_THRESHOLD \<and>
   fast_release_time_spec 60 (change_rate_spec (8 / 100) 0 (8 / 100)) = 50"
proof -
  have l: "length (prev_env_vals ex_adaptive_state) = 3"
    by (simp add: ex_adaptive_state_def)
  have r: "calculate_env_change_rate ex_dip_history = Num (4 / 100)"
    using change_rate_wraps_around [of ex_adaptive_state "8 / 100" 0 "8 / 100"] l
    by (simp add: ex_dip_history_def)
  have a: "adaptive_release_enabled ex_dip_history"
    by (simp add: ex_dip_history_def push_history_def ex_adaptive_state_def Let_def)
  have c: "current_release_coeff ex_dip_history = release_coeff ex_dip_history"
    using r a by (simp add: current_release_coeff_def f_gt_def ADAPT_SENSITIVITY_THRESHOLD_def)
  show ?thesis using r c
    by (simp add: change_rate_spec_def fast_release_time_spec_def f_gt_def
        ADAPT_SENSITIVITY_THRESHOLD_def)
qed

section \<open>Constant input: the envelope settles and the output is limited\<close>

subsection \<open>The envelope of a block of constant level\<close>

lemma peak_estimate_max:
  "get_inter_sample_peak_estimate (Num a) (Num b) = Num (max \<bar>a\<bar> \<bar>b\<bar>)"
  unfolding peak_estimate_Num by (simp add: max_def abs_if; argo)

lemma level_sample_Num: "level_sample L x \<Longrightarrow> \<exists>v. x = Num v \<and> \<bar>v\<bar> = L"
  by (cases x) (simp_all add: level_sample_def)

lemma input_env_level:
  assumes "length xs = n" and "list_all (level_sample L) xs" and "i < n"
  shows "input_env_at cd xs n i = Num L"
proof -
  have lv: "\<exists>v. xs ! j = Num v \<and> \<bar>v\<bar> = L" if "j < n" for j
    using assms(1,2) that by (auto simp: list_all_length intro: level_sample_Num)
  from lv [OF assms(3)] obtain v where v: "xs ! i = Num v" "\<bar>v\<bar> = L" by blast
  show ?thesis
  proof (cases "true_peak_enabled cd \<and> i < n - 1")
    case True
    then have "i + 1 < n" by auto
    from lv [OF this] obtain w where w: "xs ! (i + 1) = Num w" "\<bar>w\<bar> = L" by blast
    show ?thesis using True v w by (simp add: input_env_at_def peak_estimate_max)
  next
    case False
    then show ?thesis using v by (auto simp: input_env_at_def)
  qed
qed

lemma follow_bounds:
  assumes "0 \<le> a" "a < 1" "0 \<le> r" "0 \<le> e" "1 / 10 ^ 10 \<le> (1 - a) * L"
  shows "1 / 10 ^ 10 \<le> follow a r L e" and "0 \<le> follow a r L e"
proof -
  have L: "(1 - a) * L \<le> L"
  proof -
    have "0 < (1 - a) * L" using assms(5) by (smt (verit) divide_pos_pos zero_less_power)
    then have "0 < L" using assms(2) by (simp add: zero_less_mult_iff)
    then have "0 \<le> a * L" using assms(1) by simp
    then show ?thesis by (simp add: algebra_simps)
  qed
  show "1 / 10 ^ 10 \<le> follow a r L e"
  proof (cases "e < L")
    case True
    have "0 \<le> a * e" using assms(1,4) by simp
    then have "(1 - a) * L \<le> L + a * (e - L)" by (simp add: algebra_simps)
    then show ?thesis using True assms(5) by (simp add: follow_def)
  next
    case False
    then have "0 \<le> r * (e - L)" using assms(3) by simp
    then show ?thesis using False assms(5) L by (simp add: follow_def)
  qed
  then show "0 \<le> follow a r L e" by (smt (verit) divide_nonneg_nonneg zero_le_power)
qed

lemma smooth_step_level:
  assumes "attack_coeff cd = Num a" "0 \<le> a" "a < 1"
    and "current_release_coeff cd = Num r" "0 \<le> r"
    and "0 \<le> e" and "1 / 10 ^ 10 \<le> (1 - a) * L"
  shows "smooth_step cd (Num L) (Num e) = Num (follow a r L e)"
proof -
  have "\<not> f_lt (Num (follow a r L e)) SMALL_EPSILON"
    using follow_bounds(1) [OF assms(2,3,5,6,7)] by (simp add: SMALL_EPSILON_def not_less)
  moreover have "(if f_lt (Num e) (Num L)
             then f_add (Num L) (f_mul (attack_coeff cd) (f_sub (Num e) (Num L)))
             else f_add (Num L) (f_mul (current_release_coeff cd) (f_sub (Num e) (Num L)))) =
        Num (follow a r L e)"
    using assms(1,4) by (simp add: follow_def)
  ultimately show ?thesis by (simp add: smooth_step_def Let_def)
qed

lemma follow_iter_nonneg:
  assumes "0 \<le> a" "a < 1" "0 \<le> r" "0 \<le> e" "1 / 10 ^ 10 \<le> (1 - a) * L"
  shows "0 \<le> (follow a r L ^^ k) e"
  by (induction k) (simp_all add: assms follow_bounds(2) [OF assms(1,2,3) _ assms(5)])

lemma fold_env_sample_level:
  assumes a: "attack_coeff cd = Num a" "0 \<le> a" "a < 1"
    and r: "current_release_coeff cd = Num r" "0 \<le> r"
    and e: "0 \<le> e" and eps: "1 / 10 ^ 10 \<le> (1 - a) * L"
    and xs: "length xs = n" "list_all (level_sample L) xs"
    and k: "k \<le> n"
  shows "fst (fold (env_sample cd xs n) [0..<k] (Num e, buf)) = Num ((follow a r L ^^ k) e) \<and>
         length (snd (fold (env_sample cd xs n) [0..<k] (Num e, buf))) = length buf \<and>
         (\<forall>i < length buf. snd (fold (env_sample cd xs n) [0..<k] (Num e, buf)) ! i =
            (if i < k then fmaxf (buf ! i) (Num ((follow a r L ^^ Suc i) e)) else buf ! i))"
  using k
proof (induction k)
  case 0
  then show ?case by simp
next
  case (Suc k)
  let ?st = "fold (env_sample cd xs n) [0..<k] (Num e, buf)"
  from Suc have kn: "k < n" and IH: "fst ?st = Num ((follow a r L ^^ k) e)"
    "length (snd ?st) = length buf"
    "\<forall>i < length buf. snd ?st ! i =
       (if i < k then fmaxf (buf ! i) (Num ((follow a r L ^^ Suc i) e)) else buf ! i)"
    by simp_all
  have nn: "0 \<le> (follow a r L ^^ k) e" by (rule follow_iter_nonneg [OF a(2,3) r(2) e eps])
  have sm: "smooth_step cd (input_env_at cd xs n k) (fst ?st) = Num ((follow a r L ^^ Suc k) e)"
    unfolding IH(1) input_env_level [OF xs kn]
    using smooth_step_level [OF a r nn eps] by simp
  have step: "fold (env_sample cd xs n) [0..<Suc k] (Num e, buf) =
      (Num ((follow a r L ^^ Suc k) e),
       (snd ?st)[k := fmaxf (snd ?st ! k) (Num ((follow a r L ^^ Suc k) e))])"
    by (simp add: env_sample_def Let_def sm del: funpow.simps)
  show ?case
    unfolding step using IH(2,3) by (auto simp: nth_list_update less_Suc_eq simp del: funpow.simps)
qed

lemma env_channel_level:
  assumes a: "attack_coeff cd = Num a" "0 \<le> a" "a < 1"
    and r: "current_release_coeff cd = Num r" "0 \<le> r"
    and e: "envelope cd = Num e" "0 \<le> e" and eps: "1 / 10 ^ 10 \<le> (1 - a) * L"
    and ch: "chan < MAX_AUDIO_CHANNELS" "plane samples chan = Some xs"
    and xs: "length xs = n" "list_all (level_sample L) xs"
  shows "length (env_channel cd samples n chan buf) = length buf \<and>
         (\<forall>i < length buf. env_channel cd samples n chan buf ! i =
            (if i < n then fmaxf (buf ! i) (Num ((follow a r L ^^ Suc i) e)) else buf ! i))"
  using fold_env_sample_level [OF a r e(2) eps xs order_refl, of buf] ch e(1)
  by (simp add: env_channel_def del: funpow.simps)

lemma fold_env_channel_level:
  assumes a: "attack_coeff cd = Num a" "0 \<le> a" "a < 1"
    and r: "current_release_coeff cd = Num r" "0 \<le> r"
    and e: "envelope cd = Num e" "0 \<le> e" and eps: "1 / 10 ^ 10 \<le> (1 - a) * L"
    and blk: "\<forall>c < m. c < MAX_AUDIO_CHANNELS \<and>
                (\<exists>xs. plane samples c = Some xs \<and> length xs = n \<and> list_all (level_sample L) xs)"
    and buf: "n \<le> length buf" "\<forall>i < n. buf ! i = Num 0"
  shows "length (fold (env_channel cd samples n) [0..<m] buf) = length buf \<and>
         (0 < m \<longrightarrow> (\<forall>i < n. fold (env_channel cd samples n) [0..<m] buf ! i =
                           Num ((follow a r L ^^ Suc i) e)))"
  using blk
proof (induction m)
  case 0
  then show ?case by simp
next
  case (Suc m)
  let ?b = "fold (env_channel cd samples n) [0..<m] buf"
  from Suc have IH: "length ?b = length buf"
    "0 < m \<longrightarrow> (\<forall>i < n. ?b ! i = Num ((follow a r L ^^ Suc i) e))"
    by simp_all
  from Suc.prems obtain xs where m8: "m < MAX_AUDIO_CHANNELS" and xs: "plane samples m = Some xs"
    "length xs = n" "list_all (level_sample L) xs"
    by auto
  note c = env_channel_level [OF a r e eps m8 xs, of ?b]
  have nn: "0 \<le> (follow a r L ^^ Suc i) e" for i
    by (rule follow_iter_nonneg [OF a(2,3) r(2) e(2) eps])
  have "env_channel cd samples n m ?b ! i = Num ((follow a r L ^^ Suc i) e)" if "i < n" for i
  proof (cases "0 < m")
    case True
    then have "?b ! i = Num ((follow a r L ^^ Suc i) e)" using IH(2) that by blast
    then show ?thesis using c that buf(1) IH(1) by (simp del: funpow.simps)
  next
    case False
    then have "?b = buf" by simp
    then have "?b ! i = Num 0" using buf(2) that by simp
    then show ?thesis using c that buf(1) IH(1) nn [of i] by (simp add: max_def del: funpow.simps)
  qed
  then show ?case using c IH(1) by (simp del: funpow.simps)
qed

lemma env_change_step_envelope_buf [simp]:
  "env_change_step (cd\<lparr>envelope_buf := b\<rparr>) = env_change_step cd"
  by (rule ext)+ (simp add: env_change_step_def)

lemma current_release_coeff_envelope_buf [simp]:
  "current_release_coeff (cd\<lparr>envelope_buf := b\<rparr>) = current_release_coeff cd"
  by (simp add: current_release_coeff_def calculate_env_change_rate_def Let_def)

lemma analyze_envelope_level:
  assumes n: "0 < frames audio" and av: "ok \<or> frames audio \<le> length (envelope_buf cd)"
    and a: "attack_coeff cd = Num a" "0 \<le> a" "a < 1"
    and r: "current_release_coeff cd = Num r" "0 \<le> r"
    and e: "envelope cd = Num e" "0 \<le> e" and eps: "1 / 10 ^ 10 \<le> (1 - a) * L"
    and nch: "0 < num_channels cd" "num_channels cd \<le> MAX_AUDIO_CHANNELS"
    and blk: "constant_level_block L (num_channels cd) audio"
  shows "\<forall>i < frames audio.
           envelope_buf (analyze_envelope ok cd (data audio) (frames audio)) ! i =
             Num ((follow a r L ^^ Suc i) e)"
    and "envelope (analyze_envelope ok cd (data audio) (frames audio)) =
           Num ((follow a r L ^^ frames audio) e)"
proof -
  let ?n = "frames audio"
  let ?cd1 = "fst (ensure_env_buffer ok cd ?n)"
  have cd1: "?cd1 = cd\<lparr>envelope_buf := envelope_buf ?cd1\<rparr>" by (rule ensure_env_buffer_frame)
  have f: "attack_coeff ?cd1 = Num a" "current_release_coeff ?cd1 = Num r"
    "envelope ?cd1 = Num e" "num_channels ?cd1 = num_channels cd"
    by (subst cd1, simp add: a r e)+
  have s: "snd (ensure_env_buffer ok cd ?n)" using n av by (simp add: ensure_env_buffer_succeeds)
  then have len: "?n \<le> length (envelope_buf ?cd1)" by (rule ensure_env_buffer_length)
  have blk': "\<forall>c < num_channels cd. c < MAX_AUDIO_CHANNELS \<and>
                (\<exists>xs. plane (data audio) c = Some xs \<and> length xs = ?n \<and>
                      list_all (level_sample L) xs)"
    using blk nch(2) by (auto simp: constant_level_block_def split: option.splits)
  let ?z = "replicate ?n (Num 0) @ drop ?n (envelope_buf ?cd1)"
  have z: "?n \<le> length ?z" "\<forall>i < ?n. ?z ! i = Num 0"
    using len by (simp_all add: nth_append)
  from fold_env_channel_level [OF f(1) a(2,3) f(2) r(2) f(3) e(2) eps blk' z] nch(1)
  have buf: "\<forall>i < ?n. analyzed_buf ?cd1 (data audio) ?n ! i = Num ((follow a r L ^^ Suc i) e)"
    by (simp add: analyzed_buf_def f(4) del: funpow.simps)
  have res: "envelope_buf (analyze_envelope ok cd (data audio) ?n) = analyzed_buf ?cd1 (data audio) ?n"
    "envelope (analyze_envelope ok cd (data audio) ?n) =
       (if \<not> isfinite (analyzed_buf ?cd1 (data audio) ?n ! (?n - 1)) then Num 0
        else analyzed_buf ?cd1 (data audio) ?n ! (?n - 1))"
    using analyze_envelope_processed [OF n av, of "data audio"] by (simp_all add: Let_def)
  show "\<forall>i < ?n. envelope_buf (analyze_envelope ok cd (data audio) ?n) ! i =
             Num ((follow a r L ^^ Suc i) e)"
    unfolding res(1) by (rule buf)
  have "analyzed_buf ?cd1 (data audio) ?n ! (?n - 1) = Num ((follow a r L ^^ Suc (?n - 1)) e)"
    using buf n by (simp del: funpow.simps)
  then show "envelope (analyze_envelope ok cd (data audio) ?n) = Num ((follow a r L ^^ ?n) e)"
    unfolding res(2) using n by (simp del: funpow.simps)
qed

subsection \<open>The follower on a constant level\<close>

lemma follow_step_below:
  assumes "e \<le> L"
  shows "follow a r L e = L - a * (L - e)"
proof (cases "e < L")
  case True
  then show ?thesis by (simp add: follow_def algebra_simps)
next
  case False
  with assms have "e = L" by simp
  then show ?thesis by (simp add: follow_def)
qed

lemma follow_step_lower:
  assumes "lo \<le> e" and "lo \<le> L" and "0 \<le> a" "a \<le> 1" and "0 \<le> r"
  shows "lo \<le> follow a r L e"
proof (cases "e < L")
  case True
  then have "a * (L - e) \<le> 1 * (L - e)" using assms(4) by (intro mult_right_mono) simp_all
  then have "e \<le> L + a * (e - L)" by (simp add: algebra_simps)
  then show ?thesis using True assms(1) by (simp add: follow_def)
next
  case False
  then have "0 \<le> r * (e - L)" using assms(5) by simp
  then show ?thesis using False assms(2) by (simp add: follow_def)
qed

lemma follow_below:
  assumes "e \<le> L" and "0 \<le> a"
  shows "(follow a r L ^^ k) e = L - a ^ k * (L - e)"
proof (induction k)
  case 0
  then show ?case by simp
next
  case (Suc k)
  have "0 \<le> a ^ k * (L - e)" using assms by simp
  then have "L - a ^ k * (L - e) \<le> L" by simp
  from follow_step_below [OF this, of a r]
  have "follow a r L ((follow a r L ^^ k) e) = L - a * (L - (L - a ^ k * (L - e)))"
    unfolding Suc .
  then show ?case by simp
qed

lemma follow_lower:
  assumes "lo \<le> e" and "lo \<le> L" and "0 \<le> a" "a \<le> 1" and "0 \<le> r"
  shows "lo \<le> (follow a r L ^^ k) e"
proof (induction k)
  case 0
  then show ?case using assms(1) by simp
next
  case (Suc k)
  from follow_step_lower [OF Suc assms(2-5)] show ?case by simp
qed

subsection \<open>What a block preserves\<close>

lemma current_release_coeff_nonneg:
  assumes "follower_state cd"
  shows "\<exists>r. current_release_coeff cd = Num r \<and> 0 \<le> r"
proof -
  from assms obtain r0 R where r0: "release_coeff cd = Num r0" "0 \<le> r0"
    and R: "release_time_ms cd = Num R"
    and len: "length (prev_env_vals cd) = 3" and fin: "list_all isfinite (prev_env_vals cd)"
    by (cases "release_coeff cd"; cases "release_time_ms cd") (auto simp: follower_state_def)
  have idx: "unat (w mod 3) < 3" for w :: "32 word"
  proof -
    have "w mod 3 < 3" by (rule word_mod_less_divisor) simp
    then show ?thesis by (simp add: word_less_nat_alt)
  qed
  have h: "\<exists>v. prev_env_vals cd ! unat (w mod 3) = Num v" for w :: "32 word"
  proof -
    have "isfinite (prev_env_vals cd ! unat (w mod 3))"
      using fin len idx [of w] by (simp add: list_all_length)
    then show ?thesis by (cases "prev_env_vals cd ! unat (w mod 3)") simp_all
  qed
  from h [of "prev_env_pos cd"] h [of "prev_env_pos cd + 1"] h [of "prev_env_pos cd + 2"]
  obtain h0 h1 h2 where "prev_env_vals cd ! unat (prev_env_pos cd mod 3) = Num h0"
    "prev_env_vals cd ! unat ((prev_env_pos cd + 1) mod 3) = Num h1"
    "prev_env_vals cd ! unat ((prev_env_pos cd + 2) mod 3) = Num h2" by blast
  then have rate: "calculate_env_change_rate cd = Num (change_rate_spec h0 h1 h2)"
    by (rule change_rate_Num)
  show ?thesis
  proof (cases "adaptive_release_enabled cd \<and> 5 / 100 < change_rate_spec h0 h1 h2")
    case False
    then have "current_release_coeff cd = release_coeff cd"
      using rate by (auto simp: current_release_coeff_def f_gt_def ADAPT_SENSITIVITY_THRESHOLD_def)
    then show ?thesis using r0 by simp
  next
    case True
    have "1 \<le> max 1 (min 3 (change_rate_spec h0 h1 h2 * 15))" by simp
    then have "max 1 (min 3 (change_rate_spec h0 h1 h2 * 15)) \<noteq> 0" by linarith
    then have "current_release_coeff cd = gain_coefficient (sample_rate cd)
        (Num (max (R / max 1 (min 3 (change_rate_spec h0 h1 h2 * 15))) 1))"
      using True rate R
      by (simp add: current_release_coeff_def f_gt_def ADAPT_SENSITIVITY_THRESHOLD_def
          ADAPT_MAX_SPEEDUP_FACTOR_def ADAPT_SPEED_FACTOR_def MIN_FAST_RELEASE_MS_def Let_def)
    then show ?thesis
      using gain_coefficient_Num [of "sample_rate cd"
          "max (R / max 1 (min 3 (change_rate_spec h0 h1 h2 * 15))) 1"]
      by (auto split: if_splits)
  qed
qed

lemma analyze_envelope_history_finite:
  assumes "length (prev_env_vals cd) = 3" and "list_all isfinite (prev_env_vals cd)"
  shows "length (prev_env_vals (analyze_envelope ok cd samples n)) = 3 \<and>
         list_all isfinite (prev_env_vals (analyze_envelope ok cd samples n))"
proof -
  have upd: "list_all isfinite (xs[i := v])" if "list_all isfinite xs" "isfinite v" for xs i v
    using that set_update_subset_insert [of xs i v] by (auto simp: list_all_iff)
  show ?thesis
    using assms
    by (auto simp: analyze_envelope_alt ensure_env_buffer_def Let_def intro!: upd)
qed

lemma analyze_envelope_follower_fields [simp]:
  "release_coeff (analyze_envelope ok cd samples n) = release_coeff cd"
  "release_time_ms (analyze_envelope ok cd samples n) = release_time_ms cd"
  "attack_coeff (analyze_envelope ok cd samples n) = attack_coeff cd"
  by (simp_all add: analyze_envelope_alt ensure_env_buffer_def Let_def)

lemma filter_audio_follower_fields [simp]:
  "release_coeff (fst (limiter_v2_filter_audio ok cd audio)) = release_coeff cd"
  "release_time_ms (fst (limiter_v2_filter_audio ok cd audio)) = release_time_ms cd"
  "attack_coeff (fst (limiter_v2_filter_audio ok cd audio)) = attack_coeff cd"
  "lookahead_enabled (fst (limiter_v2_filter_audio ok cd audio)) = lookahead_enabled cd"
  "lookahead_buffers_initialized (fst (limiter_v2_filter_audio ok cd audio)) =
     lookahead_buffers_initialized cd"
  "lookahead_samples (fst (limiter_v2_filter_audio ok cd audio)) = lookahead_samples cd"
  by (simp_all add: limiter_v2_filter_audio_def Let_def)

lemma filter_audio_follower_state:
  assumes "follower_state cd"
  shows "follower_state (fst (limiter_v2_filter_audio ok cd audio))"
proof -
  have "prev_env_vals (fst (limiter_v2_filter_audio ok cd audio)) = prev_env_vals cd \<or>
        prev_env_vals (fst (limiter_v2_filter_audio ok cd audio)) =
          prev_env_vals (analyze_envelope ok cd (data audio) (frames audio))"
    by (simp add: limiter_v2_filter_audio_def Let_def)
  then show ?thesis
    using assms analyze_envelope_history_finite [of cd ok "data audio" "frames audio"]
    by (auto simp: follower_state_def)
qed

subsection \<open>The output of a block of constant level\<close>

lemma level_sample_bounded: "level_sample L x \<Longrightarrow> bounded_sample L x"
  by (cases x) (simp_all add: level_sample_def bounded_sample_def)

lemma constant_level_well_formed:
  "constant_level_block L nch a \<Longrightarrow> well_formed_block nch a"
  by (auto simp: constant_level_block_def well_formed_block_def split: option.splits)

lemma constant_level_plane:
  assumes "constant_level_block L nch a" and "c < nch"
  shows "\<exists>xs. plane (data a) c = Some xs \<and> length xs = frames a \<and>
              list_all (bounded_sample L) xs"
proof -
  from assms obtain xs where "plane (data a) c = Some xs" "length xs = frames a"
    "list_all (level_sample L) xs"
    by (fastforce simp: constant_level_block_def split: option.splits)
  then show ?thesis by (auto simp: list_all_iff intro: level_sample_bounded)
qed

lemma gain_bound:
  assumes T: "threshold_db cd = Num T" and g: "output_gain cd = Num g" "0 \<le> g"
    and floor: "1 / 10 ^ 10 \<le> 10 powr (T / 20)"
    and d: "bounded_sample L d" and tol: "L \<le> E * 10 powr (tol / 20)"
  shows "bounded_sample (10 powr ((T + tol) / 20) * g) (apply_gain_spec (final_gain cd (Num E)) d)"
proof -
  let ?m = "gain_multiplier_spec T E"
  from d obtain x where x: "d = Num x" "\<bar>x\<bar> \<le> L"
    by (cases d) (simp_all add: bounded_sample_def)
  have fg: "final_gain cd (Num E) = Num (?m * g)"
    by (simp add: final_gain_def gain_multiplier_Num [OF T] g Let_def)
  have m0: "0 < ?m" by (rule gain_multiplier_spec_pos)
  have "\<bar>x * (?m * g)\<bar> = \<bar>x\<bar> * ?m * g"
    using m0 g(2) by (simp add: abs_mult)
  also have "\<dots> \<le> L * ?m * g"
    using x(2) m0 g(2) by (intro mult_right_mono) simp_all
  also have "\<dots> \<le> 10 powr ((T + tol) / 20) * g"
    using level_times_multiplier [OF floor tol] g(2) by (intro mult_right_mono) simp_all
  finally show ?thesis by (simp add: x(1) fg apply_gain_spec_def bounded_sample_def)
qed

lemma lookahead_active_filter [simp]:
  "lookahead_active (fst (limiter_v2_filter_audio ok cd audio)) = lookahead_active cd"
  by (simp add: lookahead_active_def)

lemma constant_block_outputs:
  assumes fs: "follower_state cd" and dl: "delay_line_bounded L cd"
    and blk: "constant_level_block L (num_channels cd) audio"
    and av: "ok \<or> frames audio \<le> length (envelope_buf cd)"
    and c: "c < num_channels cd"
  shows "\<exists>ys. plane (data (snd (limiter_v2_filter_audio ok cd audio))) c = Some ys \<and>
           length ys = frames audio \<and>
           (\<forall>j < frames audio. \<exists>d. bounded_sample L d \<and>
              ys ! j = apply_gain_spec
                         (final_gain cd
                            (envelope_buf (analyze_envelope ok cd (data audio) (frames audio)) ! j))
                         d)"
proof -
  let ?n = "frames audio"
  let ?r = "limiter_v2_filter_audio ok cd audio"
  let ?cd1 = "analyze_envelope ok cd (data audio) ?n"
  from fs have sr: "sample_rate cd \<noteq> 0" and nc: "0 < num_channels cd"
    and nc8: "num_channels cd \<le> MAX_AUDIO_CHANNELS" by (simp_all add: follower_state_def)
  from blk have n0: "0 < ?n" by (simp add: constant_level_block_def)
  from constant_level_plane [OF blk c] obtain xs where xs: "plane (data audio) c = Some xs"
    "length xs = ?n" "list_all (bounded_sample L) xs" by blast
  have fg: "final_gain (fst ?r) e = final_gain cd e" for e
    by (rule final_gain_cong) simp_all
  have eb: "envelope_buf (fst ?r) = envelope_buf ?cd1"
    by (rule filter_audio_envelope_buf [OF n0 sr nc])
  have len: "?n \<le> length (envelope_buf ?cd1)"
    by (rule analyze_envelope_buf_length [OF n0 av])
  show ?thesis
  proof (cases "lookahead_active cd")
    case False
    let ?cd2 = "?cd1\<lparr>lookahead_circbuf := lookahead_circbuf cd\<rparr>"
    have res: "?r = (?cd2, audio\<lparr>data := process_compression ?cd2 (data audio) ?n\<rparr>)"
      using filter_audio_runs [OF n0 sr nc, of ok] False by (simp add: Let_def)
    have c2: "c < num_channels ?cd2" "c < MAX_AUDIO_CHANNELS" using c nc8 by simp_all
    have len2: "?n \<le> length (envelope_buf ?cd2)" using len by simp
    from process_compression_plane [OF c2 xs(1) n0 len2]
    obtain ys where ys: "plane (process_compression ?cd2 (data audio) ?n) c = Some ys"
      "length ys = length xs"
      "\<forall>j < length xs. ys ! j =
              (if j < ?n then apply_gain_spec (final_gain ?cd2 (envelope_buf ?cd2 ! j)) (xs ! j)
               else xs ! j)" by blast
    have f2: "final_gain ?cd2 e = final_gain cd e" for e
      by (rule final_gain_cong) simp_all
    have "\<exists>d. bounded_sample L d \<and>
              ys ! j = apply_gain_spec (final_gain cd (envelope_buf ?cd1 ! j)) d" if "j < ?n" for j
    proof -
      have "bounded_sample L (xs ! j)" using xs(2,3) that by (simp add: list_all_length)
      moreover have "ys ! j = apply_gain_spec (final_gain cd (envelope_buf ?cd1 ! j)) (xs ! j)"
        using ys(3) xs(2) that by (simp add: f2)
      ultimately show ?thesis by blast
    qed
    then show ?thesis using ys(1,2) xs(2) by (simp add: res)
  next
    case True
    with dl have rdy: "lookahead_ready (lookahead_samples cd) cd"
      and rb: "list_all (bounded_sample L) (cb_data (lookahead_circbuf cd ! c))"
      using c by (auto simp: delay_line_bounded_def)
    let ?q = "cb_data (lookahead_circbuf cd ! c)"
    note wfb = constant_level_well_formed [OF blk]
    from filter_audio_delay_pass(2) [OF rdy sr nc wfb, of ok, rule_format, OF c] xs(1) av
    obtain ys where ys: "plane (data (snd ?r)) c = Some ys" "length ys = ?n"
      "\<forall>j < ?n. ys ! j = apply_gain_spec (final_gain (fst ?r) (envelope_buf (fst ?r) ! j))
                             ((?q @ xs) ! j)"
      by auto
    have "\<exists>d. bounded_sample L d \<and>
              ys ! j = apply_gain_spec (final_gain cd (envelope_buf ?cd1 ! j)) d" if "j < ?n" for j
    proof -
      have "list_all (bounded_sample L) (?q @ xs)" using rb xs(3) by simp
      moreover have "j < length (?q @ xs)" using that xs(2) by simp
      ultimately have "bounded_sample L ((?q @ xs) ! j)" by (simp only: list_all_length)
      moreover have "ys ! j = apply_gain_spec (final_gain cd (envelope_buf ?cd1 ! j)) ((?q @ xs) ! j)"
        using ys(3) that by (simp add: fg eb)
      ultimately show ?thesis by blast
    qed
    then show ?thesis using ys(1,2) by blast
  qed
qed

lemma constant_block_delay_line:
  assumes fs: "follower_state cd" and dl: "delay_line_bounded L cd"
    and blk: "constant_level_block L (num_channels cd) audio"
  shows "delay_line_bounded L (fst (limiter_v2_filter_audio ok cd audio))"
proof (cases "lookahead_active cd")
  case False
  then show ?thesis by (simp add: delay_line_bounded_def)
next
  case True
  let ?r = "limiter_v2_filter_audio ok cd audio"
  from fs have sr: "sample_rate cd \<noteq> 0" and nc: "0 < num_channels cd"
    by (simp_all add: follower_state_def)
  from True dl have rdy: "lookahead_ready (lookahead_samples cd) cd"
    and rb: "\<forall>c < num_channels cd. list_all (bounded_sample L) (cb_data (lookahead_circbuf cd ! c))"
    by (auto simp: delay_line_bounded_def)
  note wfb = constant_level_well_formed [OF blk]
  note pass = filter_audio_delay_pass [OF rdy sr nc wfb, of ok]
  have "list_all (bounded_sample L) (cb_data (lookahead_circbuf (fst ?r) ! c))"
    if c: "c < num_channels cd" for c
  proof -
    from constant_level_plane [OF blk c] obtain xs where xs: "plane (data audio) c = Some xs"
      "list_all (bounded_sample L) xs" by blast
    from pass(2) [rule_format, OF c] xs(1)
    have "cb_data (lookahead_circbuf (fst ?r) ! c) =
            drop (frames audio) (cb_data (lookahead_circbuf cd ! c) @ xs)" by simp
    moreover have "list_all (bounded_sample L) (cb_data (lookahead_circbuf cd ! c) @ xs)"
      using rb c xs(2) by simp
    ultimately show ?thesis by (auto simp: list_all_iff dest: in_set_dropD)
  qed
  then show ?thesis using pass(1) by (simp add: delay_line_bounded_def)
qed

subsection \<open>Streams of constant level\<close>

lemma filter_audio_envelope:
  "0 < frames audio \<Longrightarrow> sample_rate cd \<noteq> 0 \<Longrightarrow> 0 < num_channels cd \<Longrightarrow>
   envelope (fst (limiter_v2_filter_audio ok cd audio)) =
     envelope (analyze_envelope ok cd (data audio) (frames audio))"
  by (simp add: limiter_v2_filter_audio_def Let_def)

lemma constant_block_step:
  assumes rdy: "limiter_ready T g a L cd" and a: "0 \<le> a" "a < 1"
    and eps: "1 / 10 ^ 10 \<le> (1 - a) * L"
    and e: "envelope cd = Num e" "0 \<le> e"
    and blk: "constant_level_block L (num_channels cd) audio"
    and av: "ok \<or> frames audio \<le> length (envelope_buf cd)"
  shows "\<exists>r\<ge>0.
     envelope (fst (limiter_v2_filter_audio ok cd audio)) =
       Num ((follow a r L ^^ frames audio) e) \<and>
     (\<forall>c < num_channels cd.
        \<exists>ys. plane (data (snd (limiter_v2_filter_audio ok cd audio))) c = Some ys \<and>
             length ys = frames audio \<and>
             (\<forall>j < frames audio. \<exists>d. bounded_sample L d \<and>
                ys ! j = apply_gain_spec (final_gain cd (Num ((follow a r L ^^ Suc j) e))) d))"
    and "limiter_ready T g a L (fst (limiter_v2_filter_audio ok cd audio))"
proof -
  let ?n = "frames audio"
  let ?r = "limiter_v2_filter_audio ok cd audio"
  from rdy have at: "attack_coeff cd = Num a" and fs: "follower_state cd"
    and dl: "delay_line_bounded L cd" by (simp_all add: limiter_ready_def)
  from fs have sr: "sample_rate cd \<noteq> 0" and nc: "0 < num_channels cd"
    "num_channels cd \<le> MAX_AUDIO_CHANNELS" by (simp_all add: follower_state_def)
  from blk have n0: "0 < ?n" by (simp add: constant_level_block_def)
  from current_release_coeff_nonneg [OF fs] obtain r where
    r: "current_release_coeff cd = Num r" "0 \<le> r" by blast
  note lv = analyze_envelope_level [OF n0 av at a r e eps nc blk]
  have env: "envelope (fst ?r) = Num ((follow a r L ^^ ?n) e)"
    using filter_audio_envelope [OF n0 sr nc(1), of ok] lv(2) by simp
  have out: "\<exists>ys. plane (data (snd ?r)) c = Some ys \<and> length ys = ?n \<and>
             (\<forall>j < ?n. \<exists>d. bounded_sample L d \<and>
                ys ! j = apply_gain_spec (final_gain cd (Num ((follow a r L ^^ Suc j) e))) d)"
    if c: "c < num_channels cd" for c
  proof -
    from constant_block_outputs [OF fs dl blk av c] obtain ys where
      ys: "plane (data (snd ?r)) c = Some ys" "length ys = ?n"
      "\<forall>j < ?n. \<exists>d. bounded_sample L d \<and>
              ys ! j = apply_gain_spec
                         (final_gain cd (envelope_buf (analyze_envelope ok cd (data audio) ?n) ! j))
                         d" by blast
    have "\<exists>d. bounded_sample L d \<and>
                ys ! j = apply_gain_spec (final_gain cd (Num ((follow a r L ^^ Suc j) e))) d"
      if "j < ?n" for j
      using ys(3) [rule_format, OF that] lv(1) [rule_format, OF that] by (simp only:)
    then show ?thesis using ys(1,2) by blast
  qed
  show "\<exists>r\<ge>0.
     envelope (fst ?r) = Num ((follow a r L ^^ ?n) e) \<and>
     (\<forall>c < num_channels cd.
        \<exists>ys. plane (data (snd ?r)) c = Some ys \<and> length ys = ?n \<and>
             (\<forall>j < ?n. \<exists>d. bounded_sample L d \<and>
                ys ! j = apply_gain_spec (final_gain cd (Num ((follow a r L ^^ Suc j) e))) d))"
    using r(2) env out by blast
  show "limiter_ready T g a L (fst ?r)"
    using rdy filter_audio_follower_state [OF fs, of ok audio]
      constant_block_delay_line [OF fs dl blk, of ok]
    by (simp add: limiter_ready_def)
qed

lemma settling_stream:
  assumes "limiter_ready T g a L cd" and a: "0 \<le> a" "a < 1"
    and eps: "1 / 10 ^ 10 \<le> (1 - a) * L"
    and "envelope cd = Num e" "0 \<le> e" "e \<le> L"
    and "constant_level_stream L (num_channels cd) bs"
  shows "envelope (fst (filter_blocks cd bs)) = Num (L - a ^ stream_frames bs * (L - e)) \<and>
         limiter_ready T g a L (fst (filter_blocks cd bs)) \<and>
         num_channels (fst (filter_blocks cd bs)) = num_channels cd"
  using assms(1,5-8)
proof (induction bs arbitrary: cd e)
  case Nil
  then show ?case by (simp add: stream_frames_def)
next
  case (Cons b bs)
  let ?r = "limiter_v2_filter_audio (fst b) cd (snd b)"
  let ?n = "frames (snd b)"
  from Cons.prems(5) have ok: "fst b" and blk: "constant_level_block L (num_channels cd) (snd b)"
    and rest: "constant_level_stream L (num_channels cd) bs"
    by (simp_all add: constant_level_stream_def)
  have av: "fst b \<or> ?n \<le> length (envelope_buf cd)" using ok by simp
  note st = constant_block_step [OF Cons.prems(1) a eps Cons.prems(2,3) blk av]
  from st(1) obtain r where r: "0 \<le> r"
    and env: "envelope (fst ?r) = Num ((follow a r L ^^ ?n) e)" by blast
  have e': "(follow a r L ^^ ?n) e = L - a ^ ?n * (L - e)"
    by (rule follow_below [OF Cons.prems(4) a(1)])
  have p1: "a ^ ?n \<le> 1" using a by (simp add: power_le_one)
  have p0: "0 \<le> a ^ ?n" using a(1) by simp
  have d0: "0 \<le> L - e" using Cons.prems(4) by simp
  have "a ^ ?n * (L - e) \<le> 1 * (L - e)" using p1 d0 by (intro mult_right_mono) simp_all
  then have lo: "0 \<le> L - a ^ ?n * (L - e)" using Cons.prems(3) by simp
  have hi: "L - a ^ ?n * (L - e) \<le> L" using p0 d0 by simp
  have env': "envelope (fst ?r) = Num (L - a ^ ?n * (L - e))" using env e' by simp
  have rest': "constant_level_stream L (num_channels (fst ?r)) bs" using rest by simp
  from Cons.IH [OF st(2) env' lo hi rest']
  have IH: "envelope (fst (filter_blocks (fst ?r) bs)) =
              Num (L - a ^ stream_frames bs * (L - (L - a ^ ?n * (L - e))))"
    "limiter_ready T g a L (fst (filter_blocks (fst ?r) bs))"
    "num_channels (fst (filter_blocks (fst ?r) bs)) = num_channels cd"
    by simp_all
  have fr: "stream_frames (b # bs) = ?n + stream_frames bs" by (simp add: stream_frames_def)
  have "L - a ^ stream_frames bs * (L - (L - a ^ ?n * (L - e))) =
        L - a ^ stream_frames (b # bs) * (L - e)"
    unfolding fr by (simp add: power_add algebra_simps)
  then show ?case using IH by (simp add: Let_def)
qed

lemma settled_stream:
  assumes "limiter_ready T g a L cd" and a: "0 \<le> a" "a < 1"
    and eps: "1 / 10 ^ 10 \<le> (1 - a) * L"
    and g: "0 \<le> g" and floor: "1 / 10 ^ 10 \<le> 10 powr (T / 20)" and tol: "0 \<le> tol"
    and "envelope cd = Num e" "L \<le> e * 10 powr (tol / 20)"
    and "constant_level_stream L (num_channels cd) bs"
    and c: "c < num_channels cd"
  shows "(\<forall>y \<in> set (channel_stream c (snd (filter_blocks cd bs))).
            bounded_sample (10 powr ((T + tol) / 20) * g) y) \<and>
         (\<exists>e'. envelope (fst (filter_blocks cd bs)) = Num e' \<and> L \<le> e' * 10 powr (tol / 20)) \<and>
         limiter_ready T g a L (fst (filter_blocks cd bs))"
  using assms(1,8-11)
proof (induction bs arbitrary: cd e)
  case Nil
  then show ?case by (auto simp: channel_stream_def)
next
  case (Cons b bs)
  let ?r = "limiter_v2_filter_audio (fst b) cd (snd b)"
  let ?n = "frames (snd b)"
  let ?P = "10 powr (tol / 20)"
  let ?lo = "L / ?P"
  have P1: "1 \<le> ?P" using tol by (simp add: ge_one_powr_ge_zero)
  then have P0: "0 < ?P" by simp
  have L0: "0 < L"
  proof -
    have "0 < (1 - a) * L" using eps by (smt (verit) divide_pos_pos zero_less_power)
    then show ?thesis using a(2) by (simp add: zero_less_mult_iff)
  qed
  have lo_e: "?lo \<le> e" using Cons.prems(3) P0 by (simp add: divide_le_eq)
  have lo_L: "?lo \<le> L" using P1 L0 by (simp add: divide_le_eq mult_le_cancel_left1)
  have e0: "0 \<le> e" using lo_e L0 P0 by (smt (verit) divide_pos_pos)
  from Cons.prems(1) have T: "threshold_db cd = Num T" and og: "output_gain cd = Num g"
    by (simp_all add: limiter_ready_def)
  from Cons.prems(4) have ok: "fst b" and blk: "constant_level_block L (num_channels cd) (snd b)"
    and rest: "constant_level_stream L (num_channels cd) bs"
    by (simp_all add: constant_level_stream_def)
  have av: "fst b \<or> ?n \<le> length (envelope_buf cd)" using ok by simp
  note st = constant_block_step [OF Cons.prems(1) a eps Cons.prems(2) e0 blk av]
  from st(1) obtain r where r: "0 \<le> r"
    and env: "envelope (fst ?r) = Num ((follow a r L ^^ ?n) e)"
    and outs: "\<forall>c < num_channels cd.
        \<exists>ys. plane (data (snd ?r)) c = Some ys \<and> length ys = ?n \<and>
             (\<forall>j < ?n. \<exists>d. bounded_sample L d \<and>
                ys ! j = apply_gain_spec (final_gain cd (Num ((follow a r L ^^ Suc j) e))) d)"
    by blast
  have low: "?lo \<le> (follow a r L ^^ k) e" for k
    using a by (intro follow_lower [OF lo_e lo_L _ _ r]) simp_all
  have settled: "L \<le> (follow a r L ^^ k) e * ?P" for k
    using low [of k] P0 by (simp add: divide_le_eq)
  from outs Cons.prems(5) obtain ys where ys: "plane (data (snd ?r)) c = Some ys" "length ys = ?n"
    "\<forall>j < ?n. \<exists>d. bounded_sample L d \<and>
                ys ! j = apply_gain_spec (final_gain cd (Num ((follow a r L ^^ Suc j) e))) d"
    by blast
  have here: "bounded_sample (10 powr ((T + tol) / 20) * g) y" if "y \<in> set ys" for y
  proof -
    from that ys(2) obtain j where j: "j < ?n" "y = ys ! j" by (auto simp: in_set_conv_nth)
    from ys(3) j(1) obtain d where d: "bounded_sample L d"
      "ys ! j = apply_gain_spec (final_gain cd (Num ((follow a r L ^^ Suc j) e))) d" by blast
    show ?thesis unfolding j(2) d(2)
      by (rule gain_bound [OF T og g floor d(1) settled])
  qed
  have rest': "constant_level_stream L (num_channels (fst ?r)) bs" using rest by simp
  have c': "c < num_channels (fst ?r)" using Cons.prems(5) by simp
  note IH = Cons.IH [OF st(2) env settled rest' c']
  have cs: "channel_stream c (snd (filter_blocks cd (b # bs))) =
      ys @ channel_stream c (snd (filter_blocks (fst ?r) bs))"
    using ys(1) by (simp add: channel_stream_def plane_samples_def Let_def)
  have fb: "fst (filter_blocks cd (b # bs)) = fst (filter_blocks (fst ?r) bs)"
    by (simp add: Let_def)
  show ?case unfolding cs fb using here IH by auto
qed

lemma settles_eventually:
  fixes a L e tol :: real
  assumes a: "0 \<le> a" "a < 1" and L: "0 < L" and e: "e \<le> L" and tol: "0 < tol"
  shows "\<exists>N0. \<forall>N \<ge> N0. L \<le> (L - a ^ N * (L - e)) * 10 powr (tol / 20)"
proof -
  let ?P = "10 powr (tol / 20)"
  have P1: "1 < ?P" using tol by simp
  then have slack: "0 < L * (?P - 1)" using L by simp
  have den: "0 < ?P * (L - e + 1)" using P1 e by (intro mult_pos_pos) simp_all
  from slack den have "0 < L * (?P - 1) / (?P * (L - e + 1))" by (rule divide_pos_pos)
  from real_arch_pow_inv [OF this a(2)] obtain n where
    n: "a ^ n < L * (?P - 1) / (?P * (L - e + 1))" by blast
  have "L \<le> (L - a ^ N * (L - e)) * ?P" if "n \<le> N" for N
  proof -
    have "a ^ N \<le> a ^ n" using that a by (intro power_decreasing) simp_all
    with n have lt: "a ^ N < L * (?P - 1) / (?P * (L - e + 1))" by simp
    from lt den have "a ^ N * (?P * (L - e + 1)) < L * (?P - 1)"
      by (simp add: pos_less_divide_eq)
    moreover have "a ^ N * (?P * (L - e)) \<le> a ^ N * (?P * (L - e + 1))"
      using a(1) P1 by (intro mult_left_mono) simp_all
    ultimately have "a ^ N * (L - e) * ?P \<le> L * ?P - L" by (simp add: algebra_simps)
    then show ?thesis by (simp add: algebra_simps)
  qed
  then show ?thesis by blast
qed

text \<open>
  The state that \<^verbatim>\<open>limiter_v2_create\<close> builds from the example settings (10 kHz, one channel,
  threshold -6 dB, attack 1 ms, lookahead of one sample) is such a state, for every level
  \<open>L \<ge> 0\<close>; and its attack coefficient \<open>exp (- x)\<close> leaves the margin \<open>x / (1 + x)\<close> below 1.
\<close>

lemma attack_coeff_margin:
  fixes x :: real
  assumes "0 < x"
  shows "0 \<le> exp (- x)" and "exp (- x) < 1" and "x / (1 + x) \<le> 1 - exp (- x)"
proof -
  show "0 \<le> exp (- x)" by simp
  show "exp (- x) < 1" using assms by simp
  have "1 + x \<le> exp x" by (rule exp_ge_add_one_self)
  then have "inverse (exp x) \<le> inverse (1 + x)"
    using assms by (intro le_imp_inverse_le) simp_all
  then have "exp (- x) \<le> 1 / (1 + x)" by (simp add: exp_minus inverse_eq_divide)
  moreover have "1 - 1 / (1 + x) = x / (1 + x)" using assms by (simp add: field_simps)
  ultimately show "x / (1 + x) \<le> 1 - exp (- x)" by linarith
qed

lemma created_state_ready:
  assumes "0 \<le> L"
  shows "limiter_ready (- 6) 1 (exp (- (1 / (10 + 1 / 10 ^ 10)))) L (ex_created ex_alloc_ok)"
proof -
  let ?cd = "ex_created ex_alloc_ok"
  have a: "attack_coeff ?cd = Num (exp (- (1 / (10 + 1 / 10 ^ 10))))"
    using gain_coefficient_Num [of 10000 1] by (simp add: ex_created_ok)
  have r: "isfinite (release_coeff ?cd)" "f_le (Num 0) (release_coeff ?cd)"
    using gain_coefficient_Num [of 10000 60] by (simp_all add: ex_created_ok)
  have fs: "follower_state ?cd"
    unfolding follower_state_def using r
    by (simp add: ex_created_ok zero_data_def NUM_ENV_HISTORY_def MAX_AUDIO_CHANNELS_def
        numeral_3_eq_3)
  have rdy: "lookahead_ready (lookahead_samples ?cd) ?cd"
    by (simp add: lookahead_ready_def ex_created_ok MAX_AUDIO_CHANNELS_def)
  have rb: "\<forall>c < num_channels ?cd.
      list_all (bounded_sample L) (cb_data (lookahead_circbuf ?cd ! c))"
    using assms by (simp add: ex_created_ok MAX_AUDIO_CHANNELS_def bounded_sample_def)
  show ?thesis
    unfolding limiter_ready_def delay_line_bounded_def
    using a fs rdy rb by (simp add: ex_created_ok)
qed

text \<open>
  Claim C1.  Let the state have threshold \<open>T\<close> dB (with a linear threshold of at least \<open>\<epsilon>\<close>,
  as every threshold of the range [-60, 0] has), linear output gain \<open>g \<ge> 0\<close> and attack
  coefficient \<open>a\<close> with \<open>0 \<le> a < 1\<close>, and let the input be a stream of blocks of constant
  level \<open>L\<close> on all channels, with \<open>\<epsilon> \<le> (1 - a) * L\<close> so that the follower does not coerce
  its first step to 0.  Lookahead, true peak and adaptive release are arbitrary.

  (1) The envelope settles: from an envelope \<open>e \<le> L\<close>, after a stream of \<open>N\<close> frames through
  \<^verbatim>\<open>limiter_v2_filter_audio\<close> the stored envelope is \<open>L - a ^ N * (L - e)\<close>, and for every
  tolerance \<open>tol > 0\<close> dB it is within \<open>tol\<close> of \<open>L\<close> for all \<open>N\<close> from some \<open>N0\<close> on.

  (2) Once the envelope is within \<open>tol \<ge> 0\<close> dB of \<open>L\<close> (\<open>L \<le> e * 10 ^ (tol / 20)\<close>; \<open>tol = 0\<close>
  when it is at or above \<open>L\<close>), every output sample of every channel, over any further
  stream of that level, is finite and of magnitude at most \<open>10 ^ ((T + tol) / 20) * g\<close>:
  the linear threshold times the output gain, within the tolerance; and the envelope stays
  within \<open>tol\<close> of \<open>L\<close>.

  (3) Together: for every \<open>tol > 0\<close> there is a number of frames \<open>N0\<close> such that after any
  stream of at least \<open>N0\<close> frames of level \<open>L\<close>, every output sample of any further stream of
  that level has magnitude at most \<open>10 ^ ((T + tol) / 20) * g\<close>.
\<close>

theorem constant_input_settles_and_is_limited:
  "(limiter_ready T g a L cd \<and> 0 \<le> a \<and> a < 1 \<and> 1 / 10 ^ 10 \<le> (1 - a) * L \<and>
    envelope cd = Num e \<and> 0 \<le> e \<and> e \<le> L \<and>
    constant_level_stream L (num_channels cd) bs \<longrightarrow>
      envelope (fst (filter_blocks cd bs)) = Num (L - a ^ stream_frames bs * (L - e)) \<and>
      limiter_ready T g a L (fst (filter_blocks cd bs)) \<and>
      num_channels (fst (filter_blocks cd bs)) = num_channels cd \<and>
      (0 < tol \<longrightarrow> (\<exists>N0. \<forall>N \<ge> N0. L \<le> (L - a ^ N * (L - e)) * 10 powr (tol / 20)))) \<and>
   (limiter_ready T g a L cd \<and> 0 \<le> a \<and> a < 1 \<and> 1 / 10 ^ 10 \<le> (1 - a) * L \<and>
    0 \<le> g \<and> 1 / 10 ^ 10 \<le> 10 powr (T / 20) \<and> 0 \<le> tol \<and>
    envelope cd = Num e \<and> L \<le> e * 10 powr (tol / 20) \<and>
    constant_level_stream L (num_channels cd) bs \<and> c < num_channels cd \<longrightarrow>
      (\<forall>y \<in> set (channel_stream c (snd (filter_blocks cd bs))).
          bounded_sample (10 powr ((T + tol) / 20) * g) y) \<and>
      (\<exists>e'. envelope (fst (filter_blocks cd bs)) = Num e' \<and> L \<le> e' * 10 powr (tol / 20)) \<and>
      limiter_ready T g a L (fst (filter_blocks cd bs))) \<and>
   (limiter_ready T g a L cd \<and> 0 \<le> a \<and> a < 1 \<and> 1 / 10 ^ 10 \<le> (1 - a) * L \<and>
    0 \<le> g \<and> 1 / 10 ^ 10 \<le> 10 powr (T / 20) \<and> 0 < tol \<and>
    envelope cd = Num e \<and> 0 \<le> e \<and> e \<le> L \<longrightarrow>
      (\<exists>N0. \<forall>bs1 bs2 k.
          constant_level_stream L (num_channels cd) bs1 \<and> N0 \<le> stream_frames bs1 \<and>
          constant_level_stream L (num_channels cd) bs2 \<and> k < num_channels cd \<longrightarrow>
          (\<forall>y \<in> set (channel_stream k
                        (snd (filter_blocks (fst (filter_blocks cd bs1)) bs2))).
              bounded_sample (10 powr ((T + tol) / 20) * g) y)))"
proof -
  have A: "limiter_ready T g a L cd \<and> 0 \<le> a \<and> a < 1 \<and> 1 / 10 ^ 10 \<le> (1 - a) * L \<and>
    envelope cd = Num e \<and> 0 \<le> e \<and> e \<le> L \<and>
    constant_level_stream L (num_channels cd) bs \<longrightarrow>
      envelope (fst (filter_blocks cd bs)) = Num (L - a ^ stream_frames bs * (L - e)) \<and>
      limiter_ready T g a L (fst (filter_blocks cd bs)) \<and>
      num_channels (fst (filter_blocks cd bs)) = num_channels cd \<and>
      (0 < tol \<longrightarrow> (\<exists>N0. \<forall>N \<ge> N0. L \<le> (L - a ^ N * (L - e)) * 10 powr (tol / 20)))"
  proof (rule impI)
    assume "limiter_ready T g a L cd \<and> 0 \<le> a \<and> a < 1 \<and> 1 / 10 ^ 10 \<le> (1 - a) * L \<and>
      envelope cd = Num e \<and> 0 \<le> e \<and> e \<le> L \<and>
      constant_level_stream L (num_channels cd) bs"
    then have h: "limiter_ready T g a L cd" "0 \<le> a" "a < 1" "1 / 10 ^ 10 \<le> (1 - a) * L"
      "envelope cd = Num e" "0 \<le> e" "e \<le> L" "constant_level_stream L (num_channels cd) bs"
      by simp_all
    have L0: "0 < L"
    proof -
      have "0 < (1 - a) * L" using h(4) by (smt (verit) divide_pos_pos zero_less_power)
      then show ?thesis using h(3) by (simp add: zero_less_mult_iff)
    qed
    have "\<exists>N0. \<forall>N \<ge> N0. L \<le> (L - a ^ N * (L - e)) * 10 powr (tol / 20)" if "0 < tol"
      by (rule settles_eventually [OF h(2,3) L0 h(7) that])
    with settling_stream [OF h]
    show "envelope (fst (filter_blocks cd bs)) = Num (L - a ^ stream_frames bs * (L - e)) \<and>
      limiter_ready T g a L (fst (filter_blocks cd bs)) \<and>
      num_channels (fst (filter_blocks cd bs)) = num_channels cd \<and>
      (0 < tol \<longrightarrow> (\<exists>N0. \<forall>N \<ge> N0. L \<le> (L - a ^ N * (L - e)) * 10 powr (tol / 20)))"
      by blast
  qed
  have B: "limiter_ready T g a L cd \<and> 0 \<le> a \<and> a < 1 \<and> 1 / 10 ^ 10 \<le> (1 - a) * L \<and>
    0 \<le> g \<and> 1 / 10 ^ 10 \<le> 10 powr (T / 20) \<and> 0 \<le> tol \<and>
    envelope cd = Num e \<and> L \<le> e * 10 powr (tol / 20) \<and>
    constant_level_stream L (num_channels cd) bs \<and> c < num_channels cd \<longrightarrow>
      (\<forall>y \<in> set (channel_stream c (snd (filter_blocks cd bs))).
          bounded_sample (10 powr ((T + tol) / 20) * g) y) \<and>
      (\<exists>e'. envelope (fst (filter_blocks cd bs)) = Num e' \<and> L \<le> e' * 10 powr (tol / 20)) \<and>
      limiter_ready T g a L (fst (filter_blocks cd bs))"
  proof (rule impI)
    assume "limiter_ready T g a L cd \<and> 0 \<le> a \<and> a < 1 \<and> 1 / 10 ^ 10 \<le> (1 - a) * L \<and>
      0 \<le> g \<and> 1 / 10 ^ 10 \<le> 10 powr (T / 20) \<and> 0 \<le> tol \<and>
      envelope cd = Num e \<and> L \<le> e * 10 powr (tol / 20) \<and>
      constant_level_stream L (num_channels cd) bs \<and> c < num_channels cd"
    then have h: "limiter_ready T g a L cd" "0 \<le> a" "a < 1" "1 / 10 ^ 10 \<le> (1 - a) * L"
      "0 \<le> g" "1 / 10 ^ 10 \<le> 10 powr (T / 20)" "0 \<le> tol"
      "envelope cd = Num e" "L \<le> e * 10 powr (tol / 20)"
      "constant_level_stream L (num_channels cd) bs" "c < num_channels cd"
      by simp_all
    show "(\<forall>y \<in> set (channel_stream c (snd (filter_blocks cd bs))).
          bounded_sample (10 powr ((T + tol) / 20) * g) y) \<and>
      (\<exists>e'. envelope (fst (filter_blocks cd bs)) = Num e' \<and> L \<le> e' * 10 powr (tol / 20)) \<and>
      limiter_ready T g a L (fst (filter_blocks cd bs))"
      by (rule settled_stream [OF h])
  qed
  have C: "limiter_ready T g a L cd \<and> 0 \<le> a \<and> a < 1 \<and> 1 / 10 ^ 10 \<le> (1 - a) * L \<and>
    0 \<le> g \<and> 1 / 10 ^ 10 \<le> 10 powr (T / 20) \<and> 0 < tol \<and>
    envelope cd = Num e \<and> 0 \<le> e \<and> e \<le> L \<longrightarrow>
      (\<exists>N0. \<forall>bs1 bs2 k.
          constant_level_stream L (num_channels cd) bs1 \<and> N0 \<le> stream_frames bs1 \<and>
          constant_level_stream L (num_channels cd) bs2 \<and> k < num_channels cd \<longrightarrow>
          (\<forall>y \<in> set (channel_stream k
                        (snd (filter_blocks (fst (filter_blocks cd bs1)) bs2))).
              bounded_sample (10 powr ((T + tol) / 20) * g) y))"
  proof (rule impI)
    assume "limiter_ready T g a L cd \<and> 0 \<le> a \<and> a < 1 \<and> 1 / 10 ^ 10 \<le> (1 - a) * L \<and>
      0 \<le> g \<and> 1 / 10 ^ 10 \<le> 10 powr (T / 20) \<and> 0 < tol \<and>
      envelope cd = Num e \<and> 0 \<le> e \<and> e \<le> L"
    then have h: "limiter_ready T g a L cd" "0 \<le> a" "a < 1" "1 / 10 ^ 10 \<le> (1 - a) * L"
      and g: "0 \<le> g" "1 / 10 ^ 10 \<le> 10 powr (T / 20)" and tol: "0 < tol"
      and e: "envelope cd = Num e" "0 \<le> e" "e \<le> L"
      by simp_all
    have L0: "0 < L"
    proof -
      have "0 < (1 - a) * L" using h(4) by (smt (verit) divide_pos_pos zero_less_power)
      then show ?thesis using h(3) by (simp add: zero_less_mult_iff)
    qed
    from settles_eventually [OF h(2,3) L0 e(3) tol] obtain N0 where
      N0: "\<forall>N \<ge> N0. L \<le> (L - a ^ N * (L - e)) * 10 powr (tol / 20)" by blast
    have "\<forall>y \<in> set (channel_stream k (snd (filter_blocks (fst (filter_blocks cd bs1)) bs2))).
              bounded_sample (10 powr ((T + tol) / 20) * g) y"
      if s1: "constant_level_stream L (num_channels cd) bs1" and n: "N0 \<le> stream_frames bs1"
        and s2: "constant_level_stream L (num_channels cd) bs2" and k: "k < num_channels cd"
      for bs1 bs2 k
    proof -
      let ?cd1 = "fst (filter_blocks cd bs1)"
      from settling_stream [OF h e s1]
      have st: "envelope ?cd1 = Num (L - a ^ stream_frames bs1 * (L - e))"
        "limiter_ready T g a L ?cd1" "num_channels ?cd1 = num_channels cd" by simp_all
      have se: "L \<le> (L - a ^ stream_frames bs1 * (L - e)) * 10 powr (tol / 20)"
        using N0 n by blast
      have s2': "constant_level_stream L (num_channels ?cd1) bs2" using s2 st(3) by simp
      have k': "k < num_channels ?cd1" using k st(3) by simp
      have t0: "0 \<le> tol" using tol by simp
      from settled_stream [OF st(2) h(2,3,4) g t0 st(1) se s2' k']
      show ?thesis by blast
    qed
    then show "\<exists>N0. \<forall>bs1 bs2 k.
          constant_level_stream L (num_channels cd) bs1 \<and> N0 \<le> stream_frames bs1 \<and>
          constant_level_stream L (num_channels cd) bs2 \<and> k < num_channels cd \<longrightarrow>
          (\<forall>y \<in> set (channel_stream k
                        (snd (filter_blocks (fst (filter_blocks cd bs1)) bs2))).
              bounded_sample (10 powr ((T + tol) / 20) * g) y)"
      by blast
  qed
  show ?thesis by (rule conjI [OF A conjI [OF B C]])
qed

text \<open>
  In \<open>ex_follower_state\<close>, on samples of magnitude 2 (6 dB above the threshold): after two
  samples the envelope is \<open>2 - (1/2)\<^sup>2 * 2 = 3/2\<close>, within \<open>20 * log 10 (4/3)\<close> dB of 2, and
  every output sample of a further block has magnitude at most 4/3; and the third part at
  a tolerance of 0.1 dB.  The third part also holds of the state that \<^verbatim>\<open>limiter_v2_create\<close>
  builds (threshold -6 dB, lookahead armed), on samples of magnitude 1.
\<close>

theorem constant_input_witness:
  "limiter_ready 0 1 (1 / 2) 2 ex_follower_state \<and>
   envelope ex_follower_state = Num 0 \<and>
   constant_level_stream 2 1 ex_level_blocks \<and>
   stream_frames ex_level_blocks = 2 \<and>
   envelope (fst (filter_blocks ex_follower_state ex_level_blocks)) = Num (3 / 2) \<and>
   list_all (bounded_sample (4 / 3))
     (channel_stream 0
        (snd (filter_blocks (fst (filter_blocks ex_follower_state ex_level_blocks))
                ex_level_blocks))) \<and>
   (\<exists>N0. \<forall>bs1 bs2 k.
       constant_level_stream 2 (num_channels ex_follower_state) bs1 \<and> N0 \<le> stream_frames bs1 \<and>
       constant_level_stream 2 (num_channels ex_follower_state) bs2 \<and>
       k < num_channels ex_follower_state \<longrightarrow>
       (\<forall>y \<in> set (channel_stream k
                     (snd (filter_blocks (fst (filter_blocks ex_follower_state bs1)) bs2))).
           bounded_sample (10 powr ((0 + 1 / 10) / 20) * 1) y)) \<and>
   limiter_ready (- 6) 1 (exp (- (1 / (10 + 1 / 10 ^ 10)))) 1 (ex_created ex_alloc_ok) \<and>
   envelope (ex_created ex_alloc_ok) = Num 0 \<and>
   (\<exists>N0. \<forall>bs1 bs2 k.
       constant_level_stream 1 (num_channels (ex_created ex_alloc_ok)) bs1 \<and>
       N0 \<le> stream_frames bs1 \<and>
       constant_level_stream 1 (num_channels (ex_created ex_alloc_ok)) bs2 \<and>
       k < num_channels (ex_created ex_alloc_ok) \<longrightarrow>
       (\<forall>y \<in> set (channel_stream k
                     (snd (filter_blocks (fst (filter_blocks (ex_created ex_alloc_ok) bs1)) bs2))).
           bounded_sample (10 powr ((- 6 + 1 / 10) / 20) * 1) y))"
proof -
  let ?cd = "ex_follower_state"
  let ?cd1 = "fst (filter_blocks ?cd ex_level_blocks)"
  let ?tol = "20 * log 10 (4 / 3) :: real"
  have P: "10 powr (?tol / 20) = 4 / 3" by simp
  have rdy: "limiter_ready 0 1 (1 / 2) 2 ?cd"
    by (simp add: limiter_ready_def follower_state_def delay_line_bounded_def
        lookahead_active_def ex_follower_state_def zero_data_def NUM_ENV_HISTORY_def
        MAX_AUDIO_CHANNELS_def numeral_3_eq_3)
  have e: "envelope ?cd = Num 0" and nc: "num_channels ?cd = 1"
    by (simp_all add: ex_follower_state_def zero_data_def)
  have cls: "constant_level_stream 2 1 ex_level_blocks"
    by (simp add: constant_level_stream_def constant_level_block_def ex_level_blocks_def
        plane_def level_sample_def)
  have fr: "stream_frames ex_level_blocks = 2"
    by (simp add: stream_frames_def ex_level_blocks_def)
  from constant_input_settles_and_is_limited
         [where T = 0 and g = 1 and a = "1 / 2" and L = 2 and cd = ?cd and e = 0
            and bs = ex_level_blocks and tol = ?tol, THEN conjunct1]
       rdy e cls nc
  have A: "envelope ?cd1 = Num (2 - (1 / 2) ^ stream_frames ex_level_blocks * (2 - 0))"
    "limiter_ready 0 1 (1 / 2) 2 ?cd1" "num_channels ?cd1 = num_channels ?cd"
    by simp_all
  have e1: "envelope ?cd1 = Num (3 / 2)" using A(1) unfolding fr by (simp add: power2_eq_square)
  have cls1: "constant_level_stream 2 (num_channels ?cd1) ex_level_blocks"
    using cls A(3) nc by simp
  have c1: "0 < num_channels ?cd1" using A(3) nc by simp
  have s: "(2::real) \<le> 3 / 2 * 10 powr (?tol / 20)" unfolding P by simp
  have t0: "0 \<le> ?tol" by simp
  from constant_input_settles_and_is_limited
         [where T = 0 and g = 1 and a = "1 / 2" and L = 2 and cd = ?cd1 and e = "3 / 2"
            and bs = ex_level_blocks and tol = ?tol and c = 0, THEN conjunct2, THEN conjunct1]
       A(2) e1 cls1 c1 s t0
  have "\<forall>y \<in> set (channel_stream 0 (snd (filter_blocks ?cd1 ex_level_blocks))).
          bounded_sample (10 powr ((0 + ?tol) / 20) * 1) y"
    by simp
  then have B: "list_all (bounded_sample (4 / 3))
     (channel_stream 0 (snd (filter_blocks ?cd1 ex_level_blocks)))"
    using P by (simp add: list_all_iff)
  from constant_input_settles_and_is_limited
         [where T = 0 and g = 1 and a = "1 / 2" and L = 2 and cd = ?cd and e = 0
            and tol = "1 / 10", THEN conjunct2, THEN conjunct2]
       rdy e
  have C: "\<exists>N0. \<forall>bs1 bs2 k.
       constant_level_stream 2 (num_channels ?cd) bs1 \<and> N0 \<le> stream_frames bs1 \<and>
       constant_level_stream 2 (num_channels ?cd) bs2 \<and> k < num_channels ?cd \<longrightarrow>
       (\<forall>y \<in> set (channel_stream k (snd (filter_blocks (fst (filter_blocks ?cd bs1)) bs2))).
           bounded_sample (10 powr ((0 + 1 / 10) / 20) * 1) y)"
    by simp
  let ?cr = "ex_created ex_alloc_ok"
  let ?x = "1 / (10 + 1 / 10 ^ 10) :: real"
  have x0: "0 < ?x" by simp
  have crdy: "limiter_ready (- 6) 1 (exp (- ?x)) 1 ?cr" by (rule created_state_ready) simp
  have ce: "envelope ?cr = Num 0" by (simp add: ex_created_ok zero_data_def)
  have m: "1 / 10 ^ 10 \<le> (1 - exp (- ?x)) * (1::real)"
  proof -
    have "(1::real) / 10 ^ 10 \<le> ?x / (1 + ?x)" by (simp add: field_simps)
    also have "\<dots> \<le> 1 - exp (- ?x)" by (rule attack_coeff_margin(3) [OF x0])
    finally show ?thesis by simp
  qed
  have th: "(1::real) / 10 ^ 10 \<le> 10 powr (- 6 / 20)"
  proof -
    have "(10::real) powr (- 10) \<le> 10 powr (- 6 / 20)" by (intro powr_mono) simp_all
    moreover have "(10::real) powr (- 10) = 1 / 10 ^ 10"
      by (simp add: powr_minus_divide)
    ultimately show ?thesis by simp
  qed
  from constant_input_settles_and_is_limited
         [where T = "- 6" and g = 1 and a = "exp (- ?x)" and L = 1 and cd = ?cr and e = 0
            and tol = "1 / 10", THEN conjunct2, THEN conjunct2]
       crdy ce m th attack_coeff_margin(1,2) [OF x0]
  have D: "\<exists>N0. \<forall>bs1 bs2 k.
       constant_level_stream 1 (num_channels ?cr) bs1 \<and> N0 \<le> stream_frames bs1 \<and>
       constant_level_stream 1 (num_channels ?cr) bs2 \<and> k < num_channels ?cr \<longrightarrow>
       (\<forall>y \<in> set (channel_stream k (snd (filter_blocks (fst (filter_blocks ?cr bs1)) bs2))).
           bounded_sample (10 powr ((- 6 + 1 / 10) / 20) * 1) y)"
    by simp
  from rdy e cls fr e1 B C crdy ce D show ?thesis by blast
qed

end
